(* ===== verification/Prelude.thy ===== *)
theory Prelude
  imports Complex_Main "HOL-Library.Word"
begin

text \<open>
  Shared material of the development: the lemma collections, the vocabulary for C data
  (C strings, buffers with bounds-checked stores), reference decimal printing, reachability of
  step relations, and the two interfaces that several components provide: a transition system
  with an inductive invariant, and a first-in first-out queue.

  A C string is the list of its characters before the terminating NUL. A \<open>char\<close> is one byte.
\<close>

named_theorems buf_simps
  \<open>rewrite rules for bounds-checked buffer stores\<close>

named_theorems dec_simps
  \<open>facts about the reference decimal printer\<close>

type_synonym cstring = string

text \<open>Nullable C strings: \<open>None\<close> is the null pointer.\<close>

type_synonym cstring_ptr = "string option"


section \<open>Buffers\<close>

text \<open>
  A store outside the buffer is undefined behaviour in C; the model makes it \<open>None\<close>, so a
  theorem that an operation returns \<open>Some\<close> states that every store was in bounds.
\<close>

definition store :: "'a list \<Rightarrow> nat \<Rightarrow> 'a \<Rightarrow> 'a list option" where
  "store buf i c = (if i < length buf then Some (buf[i := c]) else None)"

lemma store_in_bounds [buf_simps]: "i < length buf \<Longrightarrow> store buf i c = Some (buf[i := c])"
  by (simp add: store_def)

lemma store_eq_Some_iff [simp]:
  "store buf i c = Some buf' \<longleftrightarrow> i < length buf \<and> buf' = buf[i := c]"
  by (auto simp: store_def)

lemma drop_update_at: "i < length xs \<Longrightarrow> drop i (xs[i := x]) = x # drop (Suc i) xs"
  by (simp add: Cons_nth_drop_Suc [symmetric])

lemma drop_update_two:
  assumes "Suc i < length xs"
  shows "drop i (xs[i := x, Suc i := y]) = x # y # drop (Suc (Suc i)) xs"
  using assms by (simp add: Cons_nth_drop_Suc [symmetric])

lemma take_then_drop_split:
  assumes "i \<le> j" "take j xs = ys" "length ys = j"
  shows "xs = take i ys @ drop i xs"
  using assms by (metis append_take_drop_id min.absorb1 take_take)


section \<open>Machine words\<close>

lemma unat_ucast_32: "unat (w :: 64 word) < 2 ^ 32 \<Longrightarrow> unat (ucast w :: 32 word) = unat w"
  by (simp add: unsigned_ucast_eq take_bit_nat_eq_self)

lemma half_width_less: "(2::int) ^ (LENGTH('a::len) - 1) < 2 ^ LENGTH('a)"
  by (rule power_strict_increasing) (auto simp: len_gt_0)

text \<open>The magnitude of a negative two's complement number, the minimum included.\<close>

lemma unat_minus_of_negative:
  assumes "sint (w :: 'a::len word) < 0"
  shows "unat (- w) = nat (- sint w)"
proof -
  have "- w = word_of_int (- sint w)"
    by simp
  moreover have "0 \<le> - sint w" "- sint w < 2 ^ LENGTH('a)"
    using assms sint_ge [of w] half_width_less [where 'a = 'a] by linarith+
  ultimately have "uint (- w) = - sint w"
    by (simp only: uint_word_of_int_eq take_bit_int_eq_self)
  then show ?thesis
    by (metis nat_uint_eq)
qed

lemma unat_of_nonnegative:
  assumes "\<not> sint (w :: 'a::len word) < 0"
  shows "unat w = nat (sint w)"
proof -
  have "0 \<le> sint w" "sint w < 2 ^ LENGTH('a)"
    using assms sint_lt [of w] half_width_less [where 'a = 'a] by linarith+
  then have "uint w = sint w"
    by (simp add: uint_sint take_bit_int_eq_self)
  then show ?thesis
    by (metis nat_uint_eq)
qed


section \<open>Reference decimal printing\<close>

definition digit :: "nat \<Rightarrow> char" where
  "digit d = char_of (48 + d)"

fun dec :: "nat \<Rightarrow> string" where
  "dec n = (if n < 10 then [digit n] else dec (n div 10) @ [digit (n mod 10)])"

declare dec.simps [simp del]

definition dec_int :: "int \<Rightarrow> string" where
  "dec_int z = (if z < 0 then CHR ''-'' # dec (nat (- z)) else dec (nat z))"

definition two_digits :: "nat \<Rightarrow> string" where
  "two_digits v = [digit (v div 10), digit (v mod 10)]"

lemma length_two_digits [simp]: "length (two_digits v) = 2"
  by (simp add: two_digits_def)

lemma dec_small [dec_simps]: "n < 10 \<Longrightarrow> dec n = [digit n]"
  by (simp add: dec.simps)

lemma dec_snoc [dec_simps]: "10 \<le> n \<Longrightarrow> dec n = dec (n div 10) @ [digit (n mod 10)]"
  by (subst dec.simps) simp

lemma dec_nonempty [simp]: "dec n \<noteq> []"
  by (subst dec.simps) simp

lemma dec_two_digits [dec_simps]:
  assumes "10 \<le> n" "n < 100"
  shows "dec n = two_digits n"
  using assms by (simp add: dec_snoc dec_small two_digits_def)

lemma dec_step100:
  assumes "100 \<le> n"
  shows "dec n = dec (n div 100) @ two_digits (n mod 100)"
proof -
  have "10 \<le> n" "10 \<le> n div 10"
    using assms by auto
  then have "dec n = dec (n div 10 div 10) @ [digit (n div 10 mod 10), digit (n mod 10)]"
    by (simp add: dec_snoc [of n] dec_snoc [of "n div 10"])
  moreover have "n div 10 div 10 = n div 100"
    by (simp add: div_mult2_eq [symmetric])
  moreover have "n div 10 mod 10 = n mod 100 div 10" "n mod 10 = n mod 100 mod 10"
    using mod_mult2_eq [of n 10 10] by simp_all
  ultimately show ?thesis
    by (simp add: two_digits_def)
qed

lemma dec_step10000:
  assumes "10000 \<le> n"
  shows "dec n = dec (n div 10000) @ two_digits (n mod 10000 div 100) @ two_digits (n mod 10000 mod 100)"
proof -
  have "100 \<le> n" "100 \<le> n div 100"
    using assms by auto
  then have "dec n = dec (n div 100 div 100) @ two_digits (n div 100 mod 100) @ two_digits (n mod 100)"
    by (simp add: dec_step100 [of n] dec_step100 [of "n div 100"])
  moreover have "n div 100 div 100 = n div 10000"
    by (simp add: div_mult2_eq [symmetric])
  moreover have "n div 100 mod 100 = n mod 10000 div 100" "n mod 100 = n mod 10000 mod 100"
    using mod_mult2_eq [of n 100 100] by simp_all
  ultimately show ?thesis
    by simp
qed

lemma length_dec_bounds:
  assumes "n < 10 ^ k" "0 < k" "k = 1 \<or> 10 ^ (k - 1) \<le> n"
  shows "length (dec n) = k"
  using assms
proof (induction k arbitrary: n)
  case 0
  then show ?case by simp
next
  case (Suc k)
  show ?case
  proof (cases "k = 0")
    case True
    with Suc.prems show ?thesis by (simp add: dec_small)
  next
    case False
    then obtain m where m: "k = Suc m" by (cases k) auto
    with Suc.prems have "10 ^ k \<le> n" "n < 10 * 10 ^ k" by auto
    moreover have "1 \<le> (10::nat) ^ m" by simp
    moreover from calculation m have "10 \<le> n" by (simp only: power_Suc)
    ultimately have "10 \<le> n" "n div 10 < 10 ^ k" "10 ^ (k - 1) \<le> n div 10"
      using m by (auto simp: less_mult_imp_div_less mult.commute)
    moreover from this Suc.IH [of "n div 10"] False have "length (dec (n div 10)) = k"
      by simp
    ultimately show ?thesis
      by (simp add: dec_snoc)
  qed
qed


section \<open>Reachability and invariants\<close>

text \<open>States reachable from an initial state by a step relation.\<close>

inductive reach :: "('s \<Rightarrow> bool) \<Rightarrow> ('s \<Rightarrow> 's \<Rightarrow> bool) \<Rightarrow> 's \<Rightarrow> bool"
  for init :: "'s \<Rightarrow> bool" and step :: "'s \<Rightarrow> 's \<Rightarrow> bool" where
  reach_init: "init s \<Longrightarrow> reach init step s"
| reach_step: "reach init step s \<Longrightarrow> step s t \<Longrightarrow> reach init step t"

text \<open>
  The contract of every concurrent component: an initial condition, a step relation and an
  invariant that both respect.
\<close>

locale invariant_system =
  fixes init :: "'s \<Rightarrow> bool"
    and step :: "'s \<Rightarrow> 's \<Rightarrow> bool"
    and inv :: "'s \<Rightarrow> bool"
  assumes inv_init: "init s \<Longrightarrow> inv s"
    and inv_step: "step s t \<Longrightarrow> inv s \<Longrightarrow> inv t"
begin

lemma reach_inv: "reach init step s \<Longrightarrow> inv s"
  by (induction rule: reach.induct) (auto intro: inv_init inv_step)

end


section \<open>First-in first-out queues\<close>

datatype 'a queue_op = Enq 'a | Deq

text \<open>
  Runs a sequence of queue operations and collects the dequeued elements. An enqueue that the
  queue refuses leaves it unchanged and is recorded as refused.
\<close>

fun queue_run ::
  "('a \<Rightarrow> 'q \<Rightarrow> bool \<times> 'q) \<Rightarrow> ('q \<Rightarrow> ('a \<times> 'q) option) \<Rightarrow> 'a queue_op list \<Rightarrow> 'q \<Rightarrow> 'a list \<times> 'a list \<times> 'q"
where
  "queue_run enq deq [] q = ([], [], q)"
| "queue_run enq deq (Enq x # ops) q =
     (let (ok, q') = enq x q; (ins, outs, q'') = queue_run enq deq ops q'
      in (if ok then x # ins else ins, outs, q''))"
| "queue_run enq deq (Deq # ops) q =
     (case deq q of
        None \<Rightarrow> queue_run enq deq ops q
      | Some (x, q') \<Rightarrow> (let (ins, outs, q'') = queue_run enq deq ops q' in (ins, x # outs, q'')))"

text \<open>
  The queue contract: \<open>contents\<close> is the abstract list, an accepted enqueue appends at its end, a
  refused one changes nothing, a dequeue removes the head and fails on the empty queue only.
  \<open>ok x q\<close> is what a client must ensure before it enqueues \<open>x\<close>.
\<close>

locale fifo =
  fixes contents :: "'q \<Rightarrow> 'a list"
    and qinv :: "'q \<Rightarrow> bool"
    and pre :: "'a \<Rightarrow> 'q \<Rightarrow> bool"
    and enq :: "'a \<Rightarrow> 'q \<Rightarrow> bool \<times> 'q"
    and deq :: "'q \<Rightarrow> ('a \<times> 'q) option"
  assumes enq_inv: "qinv q \<Longrightarrow> pre x q \<Longrightarrow> qinv (snd (enq x q))"
    and enq_accept: "qinv q \<Longrightarrow> pre x q \<Longrightarrow> fst (enq x q) \<Longrightarrow> contents (snd (enq x q)) = contents q @ [x]"
    and enq_refuse: "qinv q \<Longrightarrow> pre x q \<Longrightarrow> \<not> fst (enq x q) \<Longrightarrow> contents (snd (enq x q)) = contents q"
    and deq_None: "qinv q \<Longrightarrow> deq q = None \<longleftrightarrow> contents q = []"
    and deq_Some: "qinv q \<Longrightarrow> deq q = Some (x, q') \<Longrightarrow> qinv q' \<and> contents q = x # contents q'"
begin

text \<open>The preconditions of the operations along a run.\<close>

fun admissible :: "'a queue_op list \<Rightarrow> 'q \<Rightarrow> bool" where
  "admissible [] q = True"
| "admissible (Enq x # ops) q = (pre x q \<and> admissible ops (snd (enq x q)))"
| "admissible (Deq # ops) q =
     (case deq q of None \<Rightarrow> admissible ops q | Some (x, q') \<Rightarrow> admissible ops q')"

lemma run_order:
  assumes "qinv q" "admissible ops q" "queue_run enq deq ops q = (ins, outs, q')"
  shows "qinv q' \<and> contents q @ ins = outs @ contents q'"
  using assms
proof (induction ops arbitrary: q ins outs q')
  case Nil
  then show ?case by simp
next
  case (Cons op ops)
  show ?case
  proof (cases op)
    case (Enq x)
    obtain ok q1 where e: "enq x q = (ok, q1)" by force
    obtain ins1 outs1 q2 where r: "queue_run enq deq ops q1 = (ins1, outs1, q2)"
      by (cases "queue_run enq deq ops q1") auto
    have q1: "qinv q1" and adm: "admissible ops q1"
      using Cons.prems Enq e enq_inv [of q x] by auto
    from Cons.IH [OF q1 adm r] have IH: "qinv q2 \<and> contents q1 @ ins1 = outs1 @ contents q2" .
    have "contents q1 = (if ok then contents q @ [x] else contents q)"
      using Cons.prems Enq e enq_accept [of q x] enq_refuse [of q x] by auto
    then show ?thesis
      using Cons.prems Enq e r IH by (auto split: if_splits)
  next
    case Deq
    show ?thesis
    proof (cases "deq q")
      case None
      then show ?thesis using Cons Deq by auto
    next
      case (Some p)
      then obtain x q1 where d: "deq q = Some (x, q1)" by (cases p) auto
      obtain ins1 outs1 q2 where r: "queue_run enq deq ops q1 = (ins1, outs1, q2)"
        by (cases "queue_run enq deq ops q1") auto
      have q1: "qinv q1" and c: "contents q = x # contents q1"
        using Cons.prems deq_Some [OF _ d] by auto
      have adm: "admissible ops q1"
        using Cons.prems Deq d by simp
      from Cons.IH [OF q1 adm r] show ?thesis
        using Cons.prems Deq d r c by auto
    qed
  qed
qed

end

end
