(* ===== verification/CLib.thy ===== *)
theory CLib
  imports Prelude
begin

text \<open>
  The functions of the C standard library the sources call, on C strings: character classes,
  comparison, bounded copying and formatting, searching, and \<open>strtol\<close>/\<open>strtoul\<close> in base 10 with
  their end pointer and \<open>errno\<close>. Characters compare as unsigned bytes (\<open>of_char\<close>), as \<open>strcmp\<close>
  does. The locale is the C locale, which the server never changes.
\<close>

section \<open>Characters\<close>

definition isspace :: "char \<Rightarrow> bool" where
  "isspace c \<longleftrightarrow> c = CHR '' '' \<or> (9 \<le> (of_char c :: nat) \<and> (of_char c :: nat) \<le> 13)"

definition isdigit :: "char \<Rightarrow> bool" where
  "isdigit c \<longleftrightarrow> 48 \<le> (of_char c :: nat) \<and> (of_char c :: nat) \<le> 57"

definition isalpha :: "char \<Rightarrow> bool" where
  "isalpha c \<longleftrightarrow> (65 \<le> (of_char c :: nat) \<and> (of_char c :: nat) \<le> 90) \<or>
     (97 \<le> (of_char c :: nat) \<and> (of_char c :: nat) \<le> 122)"

definition tolower :: "char \<Rightarrow> char" where
  "tolower c = (if 65 \<le> (of_char c :: nat) \<and> (of_char c :: nat) \<le> 90 then char_of (of_char c + 32 :: nat) else c)"

definition digit_val :: "char \<Rightarrow> nat" where
  "digit_val c = of_char c - 48"

lemma digit_val_digit [simp]: "d < 10 \<Longrightarrow> digit_val (digit d) = d"
  by (simp add: digit_val_def digit_def of_char_of)

lemma isdigit_digit [simp]: "d < 10 \<Longrightarrow> isdigit (digit d)"
  by (simp add: isdigit_def digit_def of_char_of)

lemma digit_digit_val [simp]: "isdigit c \<Longrightarrow> digit (digit_val c) = c"
  by (simp add: isdigit_def digit_def digit_val_def)

lemma digit_val_less [simp]: "isdigit c \<Longrightarrow> digit_val c < 10"
  unfolding isdigit_def digit_val_def by linarith

lemma of_char_digit: "isdigit c \<Longrightarrow> (of_char c :: nat) = 48 + digit_val c"
  by (simp add: isdigit_def digit_val_def)


section \<open>Strings\<close>

text \<open>The C string at the start of a byte block that may contain NULs of its own.\<close>

definition c_str :: "string \<Rightarrow> cstring" where
  "c_str s = takeWhile (\<lambda>c. c \<noteq> CHR 0x00) s"

lemma length_c_str: "length (c_str s) \<le> length s"
  by (simp add: c_str_def length_takeWhile_le)

lemma c_str_no_nul [simp]: "CHR 0x00 \<notin> set (c_str s)"
  by (auto simp: c_str_def dest: set_takeWhileD)

lemma c_str_id: "CHR 0x00 \<notin> set s \<Longrightarrow> c_str s = s"
  by (auto simp: c_str_def takeWhile_eq_all_conv)

lemma c_str_append_nul: "CHR 0x00 \<notin> set s \<Longrightarrow> c_str (s @ CHR 0x00 # rest) = s"
  by (induction s) (auto simp: c_str_def)

text \<open>\<open>memcpy\<close> into a block.\<close>

definition copy_into :: "string \<Rightarrow> nat \<Rightarrow> string \<Rightarrow> string option" where
  "copy_into blk off bs =
     (if off + length bs \<le> length blk then Some (take off blk @ bs @ drop (off + length bs) blk) else None)"

lemma copy_into_tail:
  "length bs = n \<Longrightarrow> length cs \<le> length rest \<Longrightarrow> copy_into (bs @ rest) n cs = Some (bs @ cs @ drop (length cs) rest)"
  by (simp add: copy_into_def)

text \<open>The first \<open>n - 1\<close> characters: what \<open>strlcpy\<close> and \<open>snprintf\<close> leave in a buffer.\<close>

definition strlcpy :: "cstring \<Rightarrow> nat \<Rightarrow> cstring" where
  "strlcpy src n = take (n - 1) src"

definition snprintf :: "cstring \<Rightarrow> nat \<Rightarrow> cstring" where
  "snprintf text n = take (n - 1) text"

lemma strlcpy_fits: "length src < n \<Longrightarrow> strlcpy src n = src"
  by (simp add: strlcpy_def)

lemma snprintf_fits: "length text < n \<Longrightarrow> snprintf text n = text"
  by (simp add: snprintf_def)

lemma length_strlcpy: "0 < n \<Longrightarrow> length (strlcpy src n) < n"
  by (simp add: strlcpy_def)

lemma length_snprintf: "0 < n \<Longrightarrow> length (snprintf text n) < n"
  by (simp add: snprintf_def)

text \<open>
  \<open>snprintf\<close> into a buffer known by its pointer and capacity: a null pointer is allowed with capacity 0 only
  (otherwise \<open>None\<close>), and capacity 0 leaves the buffer as it is.
\<close>

definition snprintf_to :: "cstring_ptr \<Rightarrow> nat \<Rightarrow> string \<Rightarrow> cstring_ptr option" where
  "snprintf_to buf n text =
     (case buf of
        None \<Rightarrow> if n = 0 then Some None else None
      | Some old \<Rightarrow> Some (Some (if n = 0 then old else snprintf text n)))"

text \<open>Only the sign of the result of \<open>strcmp\<close> is specified; the model returns -1, 0 or 1.\<close>

fun strcmp :: "cstring \<Rightarrow> cstring \<Rightarrow> int" where
  "strcmp [] [] = 0"
| "strcmp [] (_ # _) = - 1"
| "strcmp (_ # _) [] = 1"
| "strcmp (a # as) (b # bs) =
     (if (of_char a :: nat) < of_char b then - 1
      else if (of_char b :: nat) < of_char a then 1
      else strcmp as bs)"

lemma strcmp_eq_0_iff [simp]: "strcmp s t = 0 \<longleftrightarrow> s = t"
  by (induction s t rule: strcmp.induct) (auto simp: not_less_iff_gr_or_eq)

definition strcasecmp_eq :: "cstring \<Rightarrow> cstring \<Rightarrow> bool" where
  "strcasecmp_eq s t \<longleftrightarrow> map tolower s = map tolower t"

text \<open>\<open>strncasecmp(s, t, n) == 0\<close>: equal up to case in the first \<open>n\<close> characters.\<close>

definition strncasecmp_eq :: "cstring \<Rightarrow> cstring \<Rightarrow> nat \<Rightarrow> bool" where
  "strncasecmp_eq s t n \<longleftrightarrow> map tolower (take n s) = map tolower (take n t)"

text \<open>\<open>strchr\<close>: the text before and after the first occurrence.\<close>

fun strchr :: "cstring \<Rightarrow> char \<Rightarrow> (cstring \<times> cstring) option" where
  "strchr [] c = None"
| "strchr (x # xs) c =
     (if x = c then Some ([], xs)
      else map_option (\<lambda>(before, after). (x # before, after)) (strchr xs c))"

lemma strchr_None_iff [simp]: "strchr s c = None \<longleftrightarrow> c \<notin> set s"
  by (induction s) auto

lemma strchr_Some: "strchr s c = Some (a, b) \<Longrightarrow> s = a @ c # b \<and> c \<notin> set a"
  by (induction s arbitrary: a b) (auto split: if_splits)

lemma strchr_append [simp]: "c \<notin> set a \<Longrightarrow> strchr (a @ c # b) c = Some (a, b)"
  by (induction a) auto

text \<open>\<open>strrchr\<close>: the text after the last occurrence.\<close>

definition strrchr_after :: "cstring \<Rightarrow> char \<Rightarrow> cstring option" where
  "strrchr_after s c = (if c \<in> set s then Some (rev (takeWhile (\<lambda>x. x \<noteq> c) (rev s))) else None)"

text \<open>\<open>strstr(s, t) != NULL\<close>.\<close>

fun strstr :: "cstring \<Rightarrow> cstring \<Rightarrow> bool" where
  "strstr [] t \<longleftrightarrow> t = []"
| "strstr (x # xs) t \<longleftrightarrow> take (length t) (x # xs) = t \<or> strstr xs t"


section \<open>Numbers\<close>

text \<open>
  \<open>strtol\<close>/\<open>strtoul\<close> in base 10: leading white space, an optional sign, a run of digits. With no
  digits nothing is consumed and the value is 0. The magnitude is returned unbounded together
  with the sign and the rest of the string; the two callers apply their own range.
\<close>

fun digits_value :: "cstring \<Rightarrow> nat \<Rightarrow> nat" where
  "digits_value [] acc = acc"
| "digits_value (c # cs) acc = digits_value cs (10 * acc + digit_val c)"

definition scan_int :: "cstring \<Rightarrow> bool \<times> nat \<times> cstring" where
  "scan_int s =
     (let t = dropWhile isspace s;
          neg = (t \<noteq> [] \<and> hd t = CHR ''-'');
          u = (if t \<noteq> [] \<and> (hd t = CHR ''-'' \<or> hd t = CHR ''+'') then tl t else t);
          ds = takeWhile isdigit u
      in if ds = [] then (False, 0, s) else (neg, digits_value ds 0, dropWhile isdigit u))"

text \<open>
  \<open>strtol\<close> on a 64-bit \<open>long\<close>: value, rest, and whether \<open>errno\<close> was set to \<open>ERANGE\<close>.
\<close>

definition strtol :: "cstring \<Rightarrow> int \<times> cstring \<times> bool" where
  "strtol s =
     (let (neg, m, rest) = scan_int s; v = (if neg then - int m else int m)
      in if v > 2 ^ 63 - 1 then (2 ^ 63 - 1, rest, True)
         else if v < - (2 ^ 63) then (- (2 ^ 63), rest, True)
         else (v, rest, False))"

text \<open>
  \<open>strtoul\<close> on a 64-bit \<open>unsigned long\<close>: a minus sign negates the value in the unsigned type,
  without an error; a magnitude past the range saturates with \<open>ERANGE\<close>.
\<close>

definition strtoul :: "cstring \<Rightarrow> 64 word \<times> cstring \<times> bool" where
  "strtoul s =
     (let (neg, m, rest) = scan_int s
      in if m > 2 ^ 64 - 1 then (- 1, rest, True)
         else ((if neg then - word_of_nat m else word_of_nat m), rest, False))"

lemma strtol_range: "strtol s = (v, rest, e) \<Longrightarrow> - (2 ^ 63) \<le> v \<and> v \<le> 2 ^ 63 - 1"
  by (auto simp: strtol_def Let_def split: prod.splits if_splits)

lemma digits_value_dec_acc:
  "digits_value (dec n @ cs) 0 = digits_value cs n"
proof (induction n arbitrary: cs rule: dec.induct)
  case (1 n)
  show ?case
  proof (cases "n < 10")
    case True
    then show ?thesis by (simp add: dec_small)
  next
    case False
    then have "digits_value (dec n @ cs) 0 = digits_value (dec (n div 10) @ digit (n mod 10) # cs) 0"
      by (simp add: dec_snoc)
    also have "\<dots> = digits_value (digit (n mod 10) # cs) (n div 10)"
      using False by (rule 1)
    also have "\<dots> = digits_value cs n"
      by simp
    finally show ?thesis .
  qed
qed

lemma digits_value_dec [dec_simps]: "digits_value (dec n) 0 = n"
  using digits_value_dec_acc [of n "[]"] by simp

lemma dec_all_digits: "\<forall>c \<in> set (dec n). isdigit c"
proof (induction n rule: dec.induct)
  case (1 n)
  then show ?case
    by (cases "n < 10") (auto simp: dec_small dec_snoc)
qed

lemma takeWhile_dec [simp]: "takeWhile isdigit (dec n) = dec n"
  by (simp add: dec_all_digits takeWhile_eq_all_conv)

lemma dec_hd_digit: "isdigit (hd (dec n))"
  using dec_all_digits [of n] by (cases "dec n") auto

lemma isdigit_not_space: "isdigit c \<Longrightarrow> \<not> isspace c"
  by (auto simp: isdigit_def isspace_def)

text \<open>Reading back a printed number.\<close>

lemma scan_int_dec [dec_simps]: "scan_int (dec n) = (False, n, [])"
proof -
  obtain c cs where d: "dec n = c # cs"
    by (cases "dec n") auto
  then have c: "isdigit c"
    using dec_hd_digit [of n] by simp
  then have ns: "\<not> isspace c" "c \<noteq> CHR ''-''" "c \<noteq> CHR ''+''"
    by (auto simp: isdigit_not_space isdigit_def)
  have "dropWhile isdigit (dec n) = []"
    by (simp add: dec_all_digits)
  moreover have "dropWhile isspace (dec n) = dec n"
    using d ns by simp
  ultimately show ?thesis
    using ns d takeWhile_dec [of n] digits_value_dec [of n]
    by (simp add: scan_int_def Let_def)
qed

end
