(* ===== verification/JsonUtil.thy ===== *)
theory JsonUtil
  imports CLib "HOL-Library.Monad_Syntax"
begin

text \<open>
  Model of \<open>lib/json_util.c\<close>: the bounded JSON string encoder and the table-driven integer
  printers \<open>fast_itoa\<close> and \<open>fast_ltoa\<close>. The printers run on 32- and 64-bit words and write into a
  buffer whose stores are bounds-checked, so \<open>None\<close> would be an out-of-bounds access. The loops
  of the source are recursive functions of their own.
\<close>

section \<open>The string encoder\<close>

definition hex :: string where
  "hex = ''0123456789abcdef''"

text \<open>One iteration of the \<open>switch\<close>: the characters it appends for one source character.\<close>

definition encode_char :: "char \<Rightarrow> string" where
  "encode_char c =
     (if c = CHR 0x22 then [CHR 0x5C, CHR 0x22]
      else if c = CHR 0x5C then [CHR 0x5C, CHR 0x5C]
      else if c = CHR 0x0A then [CHR 0x5C, CHR ''n'']
      else if c = CHR 0x0D then [CHR 0x5C, CHR ''r'']
      else if c = CHR 0x09 then [CHR 0x5C, CHR ''t'']
      else if c = CHR 0x08 then [CHR 0x5C, CHR ''b'']
      else if c = CHR 0x0C then [CHR 0x5C, CHR ''f'']
      else if (of_char c :: nat) \<ge> 32 then [c]
      else [CHR 0x5C, CHR ''u'', CHR ''0'', CHR ''0'',
            hex ! (of_char c div 16), hex ! (of_char c mod 16)])"

text \<open>The loop: \<open>dest\<close> is the part of the destination written so far, of length \<open>j\<close>.\<close>

fun encode_loop :: "cstring \<Rightarrow> string \<Rightarrow> nat \<Rightarrow> string" where
  "encode_loop [] dest dest_size = dest"
| "encode_loop (c # cs) dest dest_size =
     (if length dest + 7 < dest_size then encode_loop cs (dest @ encode_char c) dest_size else dest)"

text \<open>
  The destination's C string after the call. A null source, a null destination or a zero size
  leave the destination as it is.
\<close>

definition json_encode_string :: "cstring_ptr \<Rightarrow> cstring_ptr \<Rightarrow> nat \<Rightarrow> cstring_ptr" where
  "json_encode_string src dest dest_size =
     (case (src, dest) of
        (Some s, Some _) \<Rightarrow> if dest_size = 0 then dest else Some (encode_loop s [] dest_size)
      | _ \<Rightarrow> dest)"

definition JSON_ENCODE_BUFSIZE :: "nat \<Rightarrow> nat" where
  "JSON_ENCODE_BUFSIZE src_max = src_max * 6 + 1"


section \<open>The integer printers\<close>

definition digits_lut :: string where
  "digits_lut =
     ''00010203040506070809'' @
     ''10111213141516171819'' @
     ''20212223242526272829'' @
     ''30313233343536373839'' @
     ''40414243444546474849'' @
     ''50515253545556575859'' @
     ''60616263646566676869'' @
     ''70717273747576777879'' @
     ''80818283848586878889'' @
     ''90919293949596979899''"

definition count_digits_u32 :: "32 word \<Rightarrow> nat" where
  "count_digits_u32 val =
     (if val < 10 then 1
      else if val < 100 then 2
      else if val < 1000 then 3
      else if val < 10000 then 4
      else if val < 100000 then 5
      else if val < 1000000 then 6
      else if val < 10000000 then 7
      else if val < 100000000 then 8
      else if val < 1000000000 then 9
      else 10)"

definition count_digits_u64 :: "64 word \<Rightarrow> nat" where
  "count_digits_u64 val =
     (if val < 1000000000 then count_digits_u32 (ucast val)
      else if val < 10000000000 then 10
      else if val < 100000000000 then 11
      else if val < 1000000000000 then 12
      else if val < 10000000000000 then 13
      else if val < 100000000000000 then 14
      else if val < 1000000000000000 then 15
      else if val < 10000000000000000 then 16
      else if val < 100000000000000000 then 17
      else if val < 1000000000000000000 then 18
      else if val < 10000000000000000000 then 19
      else 20)"

text \<open>\<open>memcpy(dst, &digits_lut[val * 2], 2)\<close>: \<open>None\<close> when either side is out of bounds.\<close>

definition write2 :: "string \<Rightarrow> nat \<Rightarrow> 32 word \<Rightarrow> string option" where
  "write2 buf dst val =
     (if unat val * 2 + 1 < length digits_lut \<and> dst + 1 < length buf
      then Some (buf[dst := digits_lut ! (unat val * 2), dst + 1 := digits_lut ! (unat val * 2 + 1)])
      else None)"

text \<open>
  \<open>while (uval >= 10000)\<close>: four digits a turn. The pointer is an index into the buffer; moving
  it below the start is an error.
\<close>

function itoa_loop4 :: "32 word \<Rightarrow> nat \<Rightarrow> string \<Rightarrow> (32 word \<times> nat \<times> string) option" where
  "itoa_loop4 uval ptr buf =
     (if uval \<ge> 10000 then
        (if ptr < 4 then None
         else (case write2 buf (ptr - 4 + 2) (uval mod 10000 mod 100) of
                 None \<Rightarrow> None
               | Some buf1 \<Rightarrow>
                   (case write2 buf1 (ptr - 4) (uval mod 10000 div 100) of
                      None \<Rightarrow> None
                    | Some buf2 \<Rightarrow> itoa_loop4 (uval div 10000) (ptr - 4) buf2)))
      else Some (uval, ptr, buf))"
  by pat_completeness auto
termination
  by (relation "measure (\<lambda>(uval, _, _). unat uval)") (auto simp: unat_div word_le_nat_alt)

text \<open>\<open>while (uval >= 100)\<close>: two digits a turn.\<close>

function itoa_loop2 :: "32 word \<Rightarrow> nat \<Rightarrow> string \<Rightarrow> (32 word \<times> nat \<times> string) option" where
  "itoa_loop2 uval ptr buf =
     (if uval \<ge> 100 then
        (if ptr < 2 then None
         else (case write2 buf (ptr - 2) (uval mod 100) of
                 None \<Rightarrow> None
               | Some buf1 \<Rightarrow> itoa_loop2 (uval div 100) (ptr - 2) buf1))
      else Some (uval, ptr, buf))"
  by pat_completeness auto
termination
  by (relation "measure (\<lambda>(uval, _, _). unat uval)") (auto simp: unat_div word_le_nat_alt)

text \<open>The last one or two digits.\<close>

definition itoa_last :: "32 word \<Rightarrow> nat \<Rightarrow> string \<Rightarrow> (nat \<times> string) option" where
  "itoa_last uval ptr buf =
     (if uval < 10 then
        (if ptr < 1 then None
         else map_option (\<lambda>b. (ptr - 1, b)) (store buf (ptr - 1) (char_of (48 + unat uval))))
      else (if ptr < 2 then None
            else map_option (\<lambda>b. (ptr - 2, b)) (write2 buf (ptr - 2) uval)))"

text \<open>
  \<open>fast_itoa\<close> on an \<open>int\<close> given by its 32-bit word and a buffer (\<open>None\<close>: null). The result is
  the returned length and the buffer; the outer \<open>None\<close> is an out-of-bounds access.
\<close>

definition fast_itoa :: "32 word \<Rightarrow> string option \<Rightarrow> (nat \<times> string option) option" where
  "fast_itoa val buf_ptr =
     (case buf_ptr of
        None \<Rightarrow> Some (0, None)
      | Some buf \<Rightarrow>
          (if length buf < 2 then Some (0, Some buf)
           else
             (let neg = (sint val < 0);
                  uval = (if neg then 0 - val else val);
                  len = (if neg then count_digits_u32 uval + 1 else count_digits_u32 uval)
              in if len + 1 > length buf then Some (0, Some buf)
                 else do {
                   b0 \<leftarrow> store buf len (CHR 0x00);
                   (u1, p1, b1) \<leftarrow> itoa_loop4 uval len b0;
                   (u2, p2, b2) \<leftarrow> itoa_loop2 u1 p1 b1;
                   (p3, b3) \<leftarrow> itoa_last u2 p2 b2;
                   b4 \<leftarrow> (if neg then store b3 0 (CHR ''-'') else Some b3);
                   Some (len, Some b4)
                 })))"

text \<open>\<open>while (uval >= 100000000)\<close> of \<open>fast_ltoa\<close>: eight digits a turn.\<close>

function ltoa_loop8 :: "64 word \<Rightarrow> nat \<Rightarrow> string \<Rightarrow> (64 word \<times> nat \<times> string) option" where
  "ltoa_loop8 uval ptr buf =
     (if uval \<ge> 100000000 then
        (if ptr < 8 then None
         else
           (let rem = uval mod 100000000;
                r1 = (ucast (rem mod 10000) :: 32 word);
                r2 = (ucast (rem div 10000) :: 32 word)
            in (case write2 buf (ptr - 8 + 6) (r1 mod 100) of
                  None \<Rightarrow> None
                | Some buf1 \<Rightarrow>
              (case write2 buf1 (ptr - 8 + 4) (r1 div 100) of
                  None \<Rightarrow> None
                | Some buf2 \<Rightarrow>
              (case write2 buf2 (ptr - 8 + 2) (r2 mod 100) of
                  None \<Rightarrow> None
                | Some buf3 \<Rightarrow>
              (case write2 buf3 (ptr - 8) (r2 div 100) of
                  None \<Rightarrow> None
                | Some buf4 \<Rightarrow> ltoa_loop8 (uval div 100000000) (ptr - 8) buf4))))))
      else Some (uval, ptr, buf))"
  by pat_completeness auto
termination
  by (relation "measure (\<lambda>(uval, _, _). unat uval)") (auto simp: unat_div word_le_nat_alt)

text \<open>\<open>fast_ltoa\<close>: after the eight-digit loop the rest fits 32 bits and the loops of \<open>fast_itoa\<close> finish.\<close>

definition fast_ltoa :: "64 word \<Rightarrow> string option \<Rightarrow> (nat \<times> string option) option" where
  "fast_ltoa val buf_ptr =
     (case buf_ptr of
        None \<Rightarrow> Some (0, None)
      | Some buf \<Rightarrow>
          (if length buf < 2 then Some (0, Some buf)
           else
             (let neg = (sint val < 0);
                  uval = (if neg then 0 - val else val);
                  len = (if neg then count_digits_u64 uval + 1 else count_digits_u64 uval)
              in if len + 1 > length buf then Some (0, Some buf)
                 else do {
                   b0 \<leftarrow> store buf len (CHR 0x00);
                   (u0, p0, b0') \<leftarrow> ltoa_loop8 uval len b0;
                   (u1, p1, b1) \<leftarrow> itoa_loop4 (ucast u0) p0 b0';
                   (u2, p2, b2) \<leftarrow> itoa_loop2 u1 p1 b1;
                   (p3, b3) \<leftarrow> itoa_last u2 p2 b2;
                   b4 \<leftarrow> (if neg then store b3 0 (CHR ''-'') else Some b3);
                   Some (len, Some b4)
                 })))"

declare itoa_loop4.simps [simp del] itoa_loop2.simps [simp del] ltoa_loop8.simps [simp del]


section \<open>Reference decoder for JSON string bodies\<close>

definition hexval :: "char \<Rightarrow> nat option" where
  "hexval c =
     (if isdigit c then Some (digit_val c)
      else if 97 \<le> (of_char c :: nat) \<and> (of_char c :: nat) \<le> 102 then Some (of_char c - 87)
      else None)"

definition simple_escape :: "char \<Rightarrow> char option" where
  "simple_escape e =
     (if e = CHR 0x22 \<or> e = CHR 0x5C \<or> e = CHR ''/'' then Some e
      else if e = CHR ''n'' then Some (CHR 0x0A)
      else if e = CHR ''r'' then Some (CHR 0x0D)
      else if e = CHR ''t'' then Some (CHR 0x09)
      else if e = CHR ''b'' then Some (CHR 0x08)
      else if e = CHR ''f'' then Some (CHR 0x0C)
      else None)"

definition unicode_escape :: "char \<Rightarrow> char \<Rightarrow> char \<Rightarrow> char \<Rightarrow> char option" where
  "unicode_escape a b c d =
     (case (hexval a, hexval b, hexval c, hexval d) of
        (Some w, Some x, Some y, Some z) \<Rightarrow>
          (let v = ((w * 16 + x) * 16 + y) * 16 + z in if v < 128 then Some (char_of v) else None)
      | _ \<Rightarrow> None)"

text \<open>
  What a JSON reader makes of the text between the quotes: \<open>None\<close> for a raw quote or control
  character, a bad escape, or an escape of a code point outside ASCII (which this program never
  emits).
\<close>

fun json_unescape :: "string \<Rightarrow> string option" where
  "json_unescape [] = Some []"
| "json_unescape (c # cs) =
     (if c = CHR 0x5C then
        (case cs of
           [] \<Rightarrow> None
         | e # es \<Rightarrow>
             if e = CHR ''u'' then
               (case es of
                  h1 # h2 # h3 # h4 # rest \<Rightarrow>
                    (case unicode_escape h1 h2 h3 h4 of
                       None \<Rightarrow> None
                     | Some x \<Rightarrow> map_option ((#) x) (json_unescape rest))
                | _ \<Rightarrow> None)
             else (case simple_escape e of
                     None \<Rightarrow> None
                   | Some x \<Rightarrow> map_option ((#) x) (json_unescape es)))
      else if c = CHR 0x22 \<or> (of_char c :: nat) < 32 then None
      else map_option ((#) c) (json_unescape cs))"

text \<open>
  The contract of a character encoder, shared by \<open>json_encode_string\<close> and by the result-set
  writer of the database layer: the reader gets the character back, in at most six bytes.
\<close>

locale char_encoder =
  fixes enc :: "char \<Rightarrow> string"
  assumes decode_enc: "json_unescape (enc c @ s) = map_option ((#) c) (json_unescape s)"
    and length_enc: "length (enc c) \<le> 6"
    and enc_nonempty: "enc c \<noteq> []"
begin

lemma decode_concat: "json_unescape (concat (map enc s) @ t) = map_option ((@) s) (json_unescape t)"
  by (induction s) (auto simp: decode_enc option.map_comp comp_def option.map_ident)

lemma decode_all: "json_unescape (concat (map enc s)) = Some s"
  using decode_concat [of s "[]"] by simp

lemma length_concat_enc: "length (concat (map enc s)) \<le> 6 * length s"
proof (induction s)
  case (Cons c s)
  then show ?case using length_enc [of c] by simp
qed simp

lemma length_concat_ge: "length s \<le> length (concat (map enc s))"
proof (induction s)
  case (Cons c s)
  then show ?case using enc_nonempty [of c] by (cases "enc c") auto
qed simp

end

lemma hex_digit: "n < 16 \<Longrightarrow> hexval (hex ! n) = Some n"
proof -
  have "\<forall>n \<in> set [0..<16]. hexval (hex ! n) = Some n"
    by code_simp
  then show "n < 16 \<Longrightarrow> hexval (hex ! n) = Some n" by simp
qed

lemma length_encode_char: "length (encode_char c) \<le> 6"
  by (simp add: encode_char_def)

lemma encode_char_nonempty: "encode_char c \<noteq> []"
  by (simp add: encode_char_def)

lemma unicode_escape_control:
  assumes "n < 32"
  shows "unicode_escape (CHR ''0'') (CHR ''0'') (hex ! (n div 16)) (hex ! (n mod 16)) = Some (char_of n)"
proof -
  have z: "hexval (CHR ''0'') = Some 0"
    by code_simp
  have "hexval (hex ! (n div 16)) = Some (n div 16)" "hexval (hex ! (n mod 16)) = Some (n mod 16)"
    using assms by (auto intro!: hex_digit)
  then have "unicode_escape (CHR ''0'') (CHR ''0'') (hex ! (n div 16)) (hex ! (n mod 16)) =
     (let v = n in if v < 128 then Some (char_of v) else None)"
    using z by (simp only: unicode_escape_def option.case prod.case) simp
  then show ?thesis using assms by simp
qed

definition short_escaped :: "char set" where
  "short_escaped = {CHR 0x22, CHR 0x5C, CHR 0x0A, CHR 0x0D, CHR 0x09, CHR 0x08, CHR 0x0C}"

lemma encode_char_control:
  "(of_char c :: nat) < 32 \<Longrightarrow> c \<notin> short_escaped \<Longrightarrow>
   encode_char c = [CHR 0x5C, CHR ''u'', CHR ''0'', CHR ''0'',
      hex ! (of_char c div 16), hex ! (of_char c mod 16)]"
  by (simp add: encode_char_def short_escaped_def)

lemma encode_char_plain: "\<not> (of_char c :: nat) < 32 \<Longrightarrow> c \<notin> short_escaped \<Longrightarrow> encode_char c = [c]"
  by (simp add: encode_char_def short_escaped_def)

lemma decode_short_escaped:
  "c \<in> short_escaped \<Longrightarrow> json_unescape (encode_char c @ s) = map_option ((#) c) (json_unescape s)"
  unfolding short_escaped_def
  by (elim insertE emptyE) (simp_all add: encode_char_def simple_escape_def)

lemma decode_encode_char: "json_unescape (encode_char c @ s) = map_option ((#) c) (json_unescape s)"
proof (cases "c \<in> short_escaped")
  case True
  then show ?thesis by (rule decode_short_escaped)
next
  case no_short: False
  show ?thesis
  proof (cases "(of_char c :: nat) < 32")
    case True
    then show ?thesis
      using encode_char_control [OF True no_short] unicode_escape_control [OF True] by simp
  next
    case False
    moreover from no_short have "c \<noteq> CHR 0x22" "c \<noteq> CHR 0x5C"
      by (auto simp: short_escaped_def)
    ultimately show ?thesis
      using encode_char_plain [OF False no_short] by simp
  qed
qed

interpretation enc: char_encoder encode_char
  by unfold_locales (fact decode_encode_char length_encode_char encode_char_nonempty)+


section \<open>Correctness of the encoder\<close>

text \<open>
  The loop encodes the longest prefix it has room for: the written text is the encoding of
  the first \<open>k\<close> source characters, and it stops early only with fewer than seven bytes left.
\<close>

lemma encode_loop_prefix:
  assumes "length dest < n \<or> s = []"
  shows "\<exists>k \<le> length s. encode_loop s dest n = dest @ concat (map encode_char (take k s)) \<and>
     (k < length s \<longrightarrow> n \<le> length (encode_loop s dest n) + 7)"
  using assms
proof (induction s arbitrary: dest)
  case Nil
  then show ?case by simp
next
  case (Cons c cs)
  show ?case
  proof (cases "length dest + 7 < n")
    case False
    then show ?thesis by (intro exI [of _ 0]) simp
  next
    case True
    then have "length (dest @ encode_char c) < n"
      using length_encode_char [of c] by simp
    then obtain k where k: "k \<le> length cs"
      "encode_loop cs (dest @ encode_char c) n = (dest @ encode_char c) @ concat (map encode_char (take k cs))"
      "k < length cs \<longrightarrow> n \<le> length (encode_loop cs (dest @ encode_char c) n) + 7"
      using Cons.IH [of "dest @ encode_char c"] by blast
    with True show ?thesis
      by (intro exI [of _ "Suc k"]) simp
  qed
qed

lemma encode_loop_bound: "length dest < n \<Longrightarrow> length (encode_loop s dest n) < n"
proof (induction s arbitrary: dest)
  case (Cons c cs)
  then show ?case
    using length_encode_char [of c] by simp
qed simp

lemma encode_loop_complete:
  "length dest + 6 * length s + 1 < n \<Longrightarrow> encode_loop s dest n = dest @ concat (map encode_char s)"
proof (induction s arbitrary: dest)
  case (Cons c cs)
  then show ?case
    using length_encode_char [of c] by simp
qed simp

text \<open>Control characters that need the six-byte escape fill the buffer fastest.\<close>

lemma encode_loop_controls:
  assumes "0 < m" "n = length dest + 6 * m + 1"
  shows "encode_loop (replicate m (CHR 0x01)) dest n = dest @ concat (map encode_char (replicate (m - 1) (CHR 0x01)))"
  using assms
proof (induction m arbitrary: dest)
  case (Suc m)
  have "length (encode_char (CHR 0x01)) = 6"
    by (simp add: encode_char_def)
  with Suc.IH [of "dest @ encode_char (CHR 0x01)"] Suc.prems show ?case
    by (cases m) auto
qed simp


section \<open>Correctness of the printers\<close>

lemma digits_lut_entries:
  assumes "v < 100"
  shows "digits_lut ! (v * 2) = digit (v div 10)" "digits_lut ! (v * 2 + 1) = digit (v mod 10)"
proof -
  have "\<forall>v \<in> set [0..<100]. digits_lut ! (v * 2) = digit (v div 10) \<and> digits_lut ! (v * 2 + 1) = digit (v mod 10)"
    by code_simp
  with assms show "digits_lut ! (v * 2) = digit (v div 10)" "digits_lut ! (v * 2 + 1) = digit (v mod 10)"
    by simp_all
qed

lemma length_digits_lut [simp]: "length digits_lut = 200"
  by (simp add: digits_lut_def)

lemma write2_spec:
  assumes "unat v < 100" "dst + 2 \<le> length buf"
  obtains b where "write2 buf dst v = Some b" "length b = length buf"
    "drop dst b = two_digits (unat v) @ drop (dst + 2) buf"
proof -
  have "write2 buf dst v = Some (buf[dst := digit (unat v div 10), Suc dst := digit (unat v mod 10)])"
    using assms digits_lut_entries [of "unat v"] by (simp add: write2_def)
  moreover have "drop dst (buf[dst := digit (unat v div 10), Suc dst := digit (unat v mod 10)]) =
      two_digits (unat v) @ drop (dst + 2) buf"
    using assms by (simp add: drop_update_two two_digits_def)
  ultimately show thesis
    using that by simp
qed

text \<open>
  The state of a printer in the middle of its work: the digits still to be written, followed by
  the part of the buffer already written, are the target text; the digits to be written end
  where that part begins. \<open>off\<close> is the room left for the sign.
\<close>

definition printing :: "nat \<Rightarrow> nat \<Rightarrow> string \<Rightarrow> nat \<Rightarrow> nat \<Rightarrow> string \<Rightarrow> bool" where
  "printing off len target n ptr buf \<longleftrightarrow>
     ptr = off + length (dec n) \<and> length buf = len \<and> ptr \<le> len \<and> dec n @ drop ptr buf = target"

lemma printing_two:
  assumes "printing off len target n ptr buf" "100 \<le> n" "unat v = n mod 100"
  obtains b where "2 \<le> ptr" "write2 buf (ptr - 2) v = Some b" "printing off len target (n div 100) (ptr - 2) b"
proof -
  have d: "dec n = dec (n div 100) @ two_digits (n mod 100)"
    using assms(2) by (rule dec_step100)
  then have ptr: "ptr = off + length (dec (n div 100)) + 2" "ptr \<le> length buf"
    using assms(1) by (auto simp: printing_def)
  obtain b where "write2 buf (ptr - 2) v = Some b" "length b = length buf"
      "drop (ptr - 2) b = two_digits (n mod 100) @ drop ptr buf"
    using write2_spec [of v "ptr - 2" buf] assms(3) ptr by auto
  with assms(1) ptr d show thesis
    by (intro that [of b]) (auto simp: printing_def)
qed

lemma itoa_loop2_spec:
  "printing off len target (unat u) ptr buf \<Longrightarrow>
   \<exists>u' p' b'. itoa_loop2 u ptr buf = Some (u', p', b') \<and> unat u' < 100 \<and> printing off len target (unat u') p' b'"
proof (induction u ptr buf rule: itoa_loop2.induct)
  case (1 u ptr buf)
  show ?case
  proof (cases "100 \<le> unat u")
    case False
    with 1 show ?thesis
      by (subst itoa_loop2.simps) (auto simp: word_le_nat_alt)
  next
    case True
    obtain b where b: "2 \<le> ptr" "write2 buf (ptr - 2) (u mod 100) = Some b"
        "printing off len target (unat u div 100) (ptr - 2) b"
      using printing_two [OF "1.prems" True, of "u mod 100"] by (auto simp: unat_mod)
    have "printing off len target (unat (u div 100)) (ptr - 2) b"
      using b(3) by (simp add: unat_div)
    with "1.IH" [of b] True b show ?thesis
      by (subst itoa_loop2.simps) (auto simp: word_le_nat_alt)
  qed
qed

lemma itoa_loop4_spec:
  "printing off len target (unat u) ptr buf \<Longrightarrow>
   \<exists>u' p' b'. itoa_loop4 u ptr buf = Some (u', p', b') \<and> printing off len target (unat u') p' b'"
proof (induction u ptr buf rule: itoa_loop4.induct)
  case (1 u ptr buf)
  show ?case
  proof (cases "10000 \<le> unat u")
    case False
    with 1 show ?thesis
      by (subst itoa_loop4.simps) (auto simp: word_le_nat_alt)
  next
    case True
    have r1: "unat (u mod 10000 mod 100) = unat u mod 100"
      by (simp add: unat_mod mod_mod_cancel)
    obtain b where b: "2 \<le> ptr" "write2 buf (ptr - 2) (u mod 10000 mod 100) = Some b"
        "printing off len target (unat u div 100) (ptr - 2) b"
      using printing_two [OF "1.prems" _ r1] True by auto
    have r2: "unat (u mod 10000 div 100) = unat u div 100 mod 100"
      using mod_mult2_eq [of "unat u" 100 100] by (simp add: unat_mod unat_div)
    have "100 \<le> unat u div 100"
      using div_le_mono [OF True, of 100] by simp
    then obtain b' where "2 \<le> ptr - 2" "write2 b (ptr - 2 - 2) (u mod 10000 div 100) = Some b'"
        "printing off len target (unat u div 100 div 100) (ptr - 2 - 2) b'"
      using printing_two [OF b(3) _ r2] by auto
    then have b': "4 \<le> ptr" "write2 b (ptr - 4) (u mod 10000 div 100) = Some b'"
        "printing off len target (unat u div 10000) (ptr - 4) b'"
      by (auto simp: div_mult2_eq [symmetric])
    have "printing off len target (unat (u div 10000)) (ptr - 4) b'"
      using b'(3) by (simp add: unat_div)
    moreover have "Suc (Suc (ptr - 4)) = ptr - 2"
      using b'(1) by simp
    ultimately show ?thesis
      using "1.IH" [of b b'] True b b' by (subst itoa_loop4.simps) (auto simp: word_le_nat_alt)
  qed
qed

lemma itoa_last_spec:
  assumes "printing off len target (unat u) ptr buf" "unat u < 100"
  obtains b where "itoa_last u ptr buf = Some (off, b)" "length b = len" "drop off b = target"
proof (cases "unat u < 10")
  case True
  with assms have "ptr = Suc off" "off < length buf" "length buf = len" "digit (unat u) # drop (Suc off) buf = target"
    by (auto simp: printing_def dec_small)
  with True show thesis
    by (intro that [of "buf[off := digit (unat u)]"])
       (auto simp: itoa_last_def word_less_nat_alt store_def digit_def drop_update_at)
next
  case False
  with assms(2) have d: "dec (unat u) = two_digits (unat u)"
    by (intro dec_two_digits) auto
  with assms have "ptr = off + 2" "off + 2 \<le> length buf" "length buf = len"
      "two_digits (unat u) @ drop (off + 2) buf = target"
    by (auto simp: printing_def)
  moreover from this obtain b where "write2 buf off u = Some b" "length b = length buf"
      "drop off b = two_digits (unat u) @ drop (off + 2) buf"
    using write2_spec [of u off buf] assms(2) by auto
  ultimately show thesis
    using False by (intro that [of b]) (auto simp: itoa_last_def word_less_nat_alt)
qed


lemma ltoa_loop8_spec:
  "printing off len target (unat u) ptr buf \<Longrightarrow>
   \<exists>u' p' b'. ltoa_loop8 u ptr buf = Some (u', p', b') \<and> unat u' < 100000000 \<and> printing off len target (unat u') p' b'"
proof (induction "unat u" arbitrary: u ptr buf rule: less_induct)
  case less
  show ?case
  proof (cases "100000000 \<le> unat u")
    case False
    with less.prems show ?thesis
      by (subst ltoa_loop8.simps) (auto simp: word_le_nat_alt)
  next
    case True
    define r1 r2 :: "32 word" where "r1 = ucast (u mod 100000000 mod 10000)" and "r2 = ucast (u mod 100000000 div 10000)"
    have r1: "unat r1 = unat u mod 10000"
      unfolding r1_def by (simp add: unat_ucast_32 unat_mod mod_mod_cancel less_trans [OF mod_less_divisor])
    have r2: "unat r2 = unat u div 10000 mod 10000"
      unfolding r2_def using mod_mult2_eq [of "unat u" 10000 10000]
      by (simp add: unat_ucast_32 unat_mod unat_div less_trans [OF mod_less_divisor])
    obtain b1 where b1: "2 \<le> ptr" "write2 buf (ptr - 2) (r1 mod 100) = Some b1"
        "printing off len target (unat u div 100) (ptr - 2) b1"
      using printing_two [OF less.prems, of "r1 mod 100"] True by (auto simp: unat_mod r1 mod_mod_cancel)
    have v2: "unat (r1 div 100) = unat u div 100 mod 100"
      using mod_mult2_eq [of "unat u" 100 100] by (simp add: unat_div r1)
    have v3: "unat (r2 mod 100) = unat u div 100 div 100 mod 100"
      by (simp add: unat_mod r2 mod_mod_cancel div_mult2_eq [symmetric])
    have v4: "unat (r2 div 100) = unat u div 100 div 100 div 100 mod 100"
      using mod_mult2_eq [of "unat u div 10000" 100 100] by (simp add: unat_div r2 div_mult2_eq [symmetric])
    have le: "100 \<le> unat u div 100" "100 \<le> unat u div 100 div 100" "100 \<le> unat u div 100 div 100 div 100"
      using div_le_mono [OF True, of 100] div_le_mono [OF True, of 10000] div_le_mono [OF True, of 1000000]
      by (simp_all add: div_mult2_eq [symmetric])
    obtain b2 where b2: "2 \<le> ptr - 2" "write2 b1 (ptr - 2 - 2) (r1 div 100) = Some b2"
        "printing off len target (unat u div 100 div 100) (ptr - 2 - 2) b2"
      using printing_two [OF b1(3) le(1) v2] .
    obtain b3 where b3: "2 \<le> ptr - 2 - 2" "write2 b2 (ptr - 2 - 2 - 2) (r2 mod 100) = Some b3"
        "printing off len target (unat u div 100 div 100 div 100) (ptr - 2 - 2 - 2) b3"
      using printing_two [OF b2(3) le(2) v3] .
    obtain b4 where b4: "2 \<le> ptr - 2 - 2 - 2" "write2 b3 (ptr - 2 - 2 - 2 - 2) (r2 div 100) = Some b4"
        "printing off len target (unat u div 100 div 100 div 100 div 100) (ptr - 2 - 2 - 2 - 2) b4"
      using printing_two [OF b3(3) le(3) v4] .
    have p: "printing off len target (unat (u div 100000000)) (ptr - 8) b4"
      using b4(3) by (simp add: unat_div div_mult2_eq [symmetric])
    obtain p where p8: "ptr = p + 8"
      using b4(1) by (auto intro!: that [of "ptr - 8"])
    have w: "8 \<le> ptr" "write2 buf (ptr - 8 + 6) (r1 mod 100) = Some b1" "write2 b1 (ptr - 8 + 4) (r1 div 100) = Some b2"
        "write2 b2 (ptr - 8 + 2) (r2 mod 100) = Some b3" "write2 b3 (ptr - 8) (r2 div 100) = Some b4"
      using b1(2) b2(2) b3(2) b4(2) unfolding p8 by (simp_all add: add.commute)
    have "ltoa_loop8 u ptr buf = ltoa_loop8 (u div 100000000) (ptr - 8) b4"
      using True w by (subst ltoa_loop8.simps)
        (simp add: word_le_nat_alt r1_def [symmetric] r2_def [symmetric] del: add_2_eq_Suc')
    moreover have "unat (u div 100000000) < unat u"
      using True by (simp add: unat_div)
    ultimately show ?thesis
      using less.hyps [OF _ p] by simp
  qed
qed


lemma count_digits_u32_dec: "count_digits_u32 v = length (dec (unat v))"
proof -
  have "unat v < 10 ^ 10"
    using unsigned_less [of v, where ?'a = nat] by simp
  then show ?thesis
    unfolding count_digits_u32_def
    by (auto simp: word_less_nat_alt not_less dec_small intro!: length_dec_bounds)
qed

lemma count_digits_u64_dec: "count_digits_u64 v = length (dec (unat v))"
proof (cases "unat v < 1000000000")
  case True
  then have "unat (ucast v :: 32 word) = unat v"
    by (intro unat_ucast_32) simp
  with True show ?thesis
    by (simp add: count_digits_u64_def count_digits_u32_dec word_less_nat_alt)
next
  case False
  have "unat v < 10 ^ 20"
    using unsigned_less [of v, where ?'a = nat] by simp
  with False show ?thesis
    unfolding count_digits_u64_def
    by (auto simp: word_less_nat_alt not_less intro!: length_dec_bounds)
qed

lemma printing_init:
  assumes "len = off + length (dec n)" "len < length buf"
  shows "printing off (length buf) (dec n @ CHR 0x00 # drop (Suc len) buf) n len (buf[len := CHR 0x00])"
  using assms by (simp add: printing_def drop_update_at)

text \<open>The sign goes into the room the digits left.\<close>

lemma printed_with_sign:
  assumes "drop (if neg then 1 else 0) b = target" "length b > 0"
  shows "(if neg then store b 0 (CHR ''-'') else Some b) = Some ((if neg then ''-'' else []) @ target)"
  using assms by (cases b) (auto simp: store_def)


lemma print_u32:
  assumes "printing off len target (unat u) ptr buf"
  obtains u1 p1 b1 u2 p2 b2 b3 where "itoa_loop4 u ptr buf = Some (u1, p1, b1)"
    "itoa_loop2 u1 p1 b1 = Some (u2, p2, b2)" "itoa_last u2 p2 b2 = Some (off, b3)"
    "length b3 = len" "drop off b3 = target"
proof -
  obtain u1 p1 b1 where l4: "itoa_loop4 u ptr buf = Some (u1, p1, b1)" "printing off len target (unat u1) p1 b1"
    using itoa_loop4_spec [OF assms] by blast
  obtain u2 p2 b2 where l2: "itoa_loop2 u1 p1 b1 = Some (u2, p2, b2)" "unat u2 < 100"
      "printing off len target (unat u2) p2 b2"
    using itoa_loop2_spec [OF l4(2)] by blast
  obtain b3 where "itoa_last u2 p2 b2 = Some (off, b3)" "length b3 = len" "drop off b3 = target"
    using itoa_last_spec [OF l2(3,2)] .
  with l4(1) l2(1) show thesis by (rule that)
qed

text \<open>The text a printer must produce for a word, and where its parts come from.\<close>

lemma dec_int_sint:
  "dec_int (sint (w :: 'a::len word)) =
     (if sint w < 0 then ''-'' else []) @ dec (unat (if sint w < 0 then 0 - w else w))"
  by (simp add: dec_int_def unat_minus_of_negative unat_of_nonnegative)

lemma fast_itoa_unfold:
  assumes "neg = (sint val < 0)" "u = (if neg then 0 - val else val)"
    "len = (if neg then count_digits_u32 u + 1 else count_digits_u32 u)" "2 \<le> length buf"
  shows "fast_itoa val (Some buf) =
    (if length buf \<le> len then Some (0, Some buf)
     else do {
       b0 \<leftarrow> store buf len (CHR 0x00);
       (u1, p1, b1) \<leftarrow> itoa_loop4 u len b0;
       (u2, p2, b2) \<leftarrow> itoa_loop2 u1 p1 b1;
       (p3, b3) \<leftarrow> itoa_last u2 p2 b2;
       b4 \<leftarrow> (if neg then store b3 0 (CHR ''-'') else Some b3);
       Some (len, Some b4)
     })"
  using assms(4) unfolding fast_itoa_def Let_def assms(1,2,3) [symmetric] option.case
  by (simp add: less_Suc_eq_le split del: if_split)

lemma fast_itoa_spec:
  "fast_itoa val (Some buf) =
     (let s = dec_int (sint val)
      in if length buf \<le> length s then Some (0, Some buf)
         else Some (length s, Some (s @ CHR 0x00 # drop (Suc (length s)) buf)))"
proof -
  define neg where "neg = (sint val < 0)"
  define off :: nat where "off = (if neg then 1 else 0)"
  define u where "u = (if neg then 0 - val else val)"
  define len where "len = off + length (dec (unat u))"
  have s: "dec_int (sint val) = (if neg then ''-'' else []) @ dec (unat u)"
    unfolding neg_def u_def by (rule dec_int_sint)
  have len: "length (dec_int (sint val)) = len" "0 < length (dec (unat u))"
    unfolding s len_def off_def by auto
  have l: "len = (if neg then count_digits_u32 u + 1 else count_digits_u32 u)"
    by (simp add: count_digits_u32_dec len_def off_def)
  show ?thesis
  proof (cases "len < length buf")
    case False
    then show ?thesis
      using fast_itoa_unfold [OF neg_def u_def l, of buf] len by (cases "length buf < 2") (auto simp: fast_itoa_def)
  next
    case True
    obtain u1 p1 b1 u2 p2 b2 b3 where r: "itoa_loop4 u len (buf[len := CHR 0x00]) = Some (u1, p1, b1)"
        "itoa_loop2 u1 p1 b1 = Some (u2, p2, b2)" "itoa_last u2 p2 b2 = Some (off, b3)"
        "length b3 = length buf" "drop off b3 = dec (unat u) @ CHR 0x00 # drop (Suc len) buf"
      using print_u32 [OF printing_init [OF len_def True]] .
    have sgn: "(if neg then store b3 0 (CHR ''-'') else Some b3) =
        Some (dec_int (sint val) @ CHR 0x00 # drop (Suc len) buf)"
      unfolding s append_assoc using r(4,5) True by (intro printed_with_sign) (auto simp: off_def)
    have "2 \<le> length buf"
      using True len(2) unfolding len_def by linarith
    then have "fast_itoa val (Some buf) = Some (len, Some (dec_int (sint val) @ CHR 0x00 # drop (Suc len) buf))"
      using fast_itoa_unfold [OF neg_def u_def l, of buf] True r(1-3) sgn
      by (simp add: buf_simps split del: if_split)
    with True len show ?thesis by (simp add: Let_def)
  qed
qed

lemma fast_ltoa_unfold:
  assumes "neg = (sint val < 0)" "u = (if neg then 0 - val else val)"
    "len = (if neg then count_digits_u64 u + 1 else count_digits_u64 u)" "2 \<le> length buf"
  shows "fast_ltoa val (Some buf) =
    (if length buf \<le> len then Some (0, Some buf)
     else do {
       b0 \<leftarrow> store buf len (CHR 0x00);
       (u0, p0, b0') \<leftarrow> ltoa_loop8 u len b0;
       (u1, p1, b1) \<leftarrow> itoa_loop4 (ucast u0) p0 b0';
       (u2, p2, b2) \<leftarrow> itoa_loop2 u1 p1 b1;
       (p3, b3) \<leftarrow> itoa_last u2 p2 b2;
       b4 \<leftarrow> (if neg then store b3 0 (CHR ''-'') else Some b3);
       Some (len, Some b4)
     })"
  using assms(4) unfolding fast_ltoa_def Let_def assms(1,2,3) [symmetric] option.case
  by (simp add: less_Suc_eq_le split del: if_split)

lemma fast_ltoa_spec:
  "fast_ltoa val (Some buf) =
     (let s = dec_int (sint val)
      in if length buf \<le> length s then Some (0, Some buf)
         else Some (length s, Some (s @ CHR 0x00 # drop (Suc (length s)) buf)))"
proof -
  define neg where "neg = (sint val < 0)"
  define off :: nat where "off = (if neg then 1 else 0)"
  define u where "u = (if neg then 0 - val else val)"
  define len where "len = off + length (dec (unat u))"
  have s: "dec_int (sint val) = (if neg then ''-'' else []) @ dec (unat u)"
    unfolding neg_def u_def by (rule dec_int_sint)
  have len: "length (dec_int (sint val)) = len" "0 < length (dec (unat u))"
    unfolding s len_def off_def by auto
  have l: "len = (if neg then count_digits_u64 u + 1 else count_digits_u64 u)"
    by (simp add: count_digits_u64_dec len_def off_def)
  show ?thesis
  proof (cases "len < length buf")
    case False
    then show ?thesis
      using fast_ltoa_unfold [OF neg_def u_def l, of buf] len by (cases "length buf < 2") (auto simp: fast_ltoa_def)
  next
    case True
    obtain u0 p0 b0 where r0: "ltoa_loop8 u len (buf[len := CHR 0x00]) = Some (u0, p0, b0)" "unat u0 < 100000000"
        "printing off (length buf) (dec (unat u) @ CHR 0x00 # drop (Suc len) buf) (unat u0) p0 b0"
      using ltoa_loop8_spec [OF printing_init [OF len_def True]] by blast
    then have "printing off (length buf) (dec (unat u) @ CHR 0x00 # drop (Suc len) buf) (unat (ucast u0 :: 32 word)) p0 b0"
      by (simp add: unat_ucast_32)
    then obtain u1 p1 b1 u2 p2 b2 b3 where r: "itoa_loop4 (ucast u0) p0 b0 = Some (u1, p1, b1)"
        "itoa_loop2 u1 p1 b1 = Some (u2, p2, b2)" "itoa_last u2 p2 b2 = Some (off, b3)"
        "length b3 = length buf" "drop off b3 = dec (unat u) @ CHR 0x00 # drop (Suc len) buf"
      by (rule print_u32)
    have sgn: "(if neg then store b3 0 (CHR ''-'') else Some b3) =
        Some (dec_int (sint val) @ CHR 0x00 # drop (Suc len) buf)"
      unfolding s append_assoc using r(4,5) True by (intro printed_with_sign) (auto simp: off_def)
    have "2 \<le> length buf"
      using True len(2) unfolding len_def by linarith
    then have "fast_ltoa val (Some buf) = Some (len, Some (dec_int (sint val) @ CHR 0x00 # drop (Suc len) buf))"
      using fast_ltoa_unfold [OF neg_def u_def l, of buf] True r0(1) r(1-3) sgn
      by (simp add: buf_simps split del: if_split)
    with True len show ?thesis by (simp add: Let_def)
  qed
qed



section \<open>The contract of a decimal printer\<close>

text \<open>
  What the clients of the printers rely on: the printer writes the decimal text of the value
  and a NUL when they fit, and nothing otherwise; its stores are in bounds.
\<close>

locale decimal_printer =
  fixes print :: "'w \<Rightarrow> string option \<Rightarrow> (nat \<times> string option) option"
    and val :: "'w \<Rightarrow> int"
  assumes print_spec: "print w (Some buf) =
     (let s = dec_int (val w)
      in if length buf \<le> length s then Some (0, Some buf)
         else Some (length s, Some (s @ CHR 0x00 # drop (Suc (length s)) buf)))"
begin

text \<open>A caller that appends the first \<open>n\<close> bytes of a large enough buffer appends the number.\<close>

lemma print_text:
  assumes "length (dec_int (val w)) < length buf"
  shows "map_option (\<lambda>(n, b). (n, map_option c_str b)) (print w (Some buf)) =
     Some (length (dec_int (val w)), Some (dec_int (val w)))"
proof -
  have "CHR 0x00 \<notin> set (dec_int (val w))"
    using dec_all_digits [of "nat (val w)"] dec_all_digits [of "nat (- val w)"]
    by (auto simp: dec_int_def isdigit_def)
  then have "c_str (dec_int (val w) @ CHR 0x00 # rest) = dec_int (val w)" for rest
    by (rule c_str_append_nul)
  with assms show ?thesis
    by (simp add: print_spec Let_def)
qed

lemma print_refuses: "length buf \<le> length (dec_int (val w)) \<Longrightarrow> print w (Some buf) = Some (0, Some buf)"
  by (simp add: print_spec Let_def)

end

interpretation itoa: decimal_printer fast_itoa sint
  by unfold_locales (rule fast_itoa_spec)

interpretation ltoa: decimal_printer fast_ltoa sint
  by unfold_locales (rule fast_ltoa_spec)

lemma length_dec_le: "n < 10 ^ k \<Longrightarrow> 0 < k \<Longrightarrow> length (dec n) \<le> k"
proof (induction k arbitrary: n)
  case (Suc k)
  show ?case
  proof (cases "n < 10")
    case True
    then show ?thesis by (simp add: dec_small)
  next
    case False
    then have "0 < k"
      using Suc.prems by (cases k) auto
    moreover have "n div 10 < 10 ^ k"
      using Suc.prems by (simp add: less_mult_imp_div_less mult.commute)
    ultimately show ?thesis
      using Suc.IH [of "n div 10"] False by (simp add: dec_snoc)
  qed
qed simp

lemma length_dec_int_le: "\<bar>z\<bar> < 10 ^ k \<Longrightarrow> 0 < k \<Longrightarrow> length (dec_int z) \<le> Suc k"
  using length_dec_le [of "nat \<bar>z\<bar>" k] by (auto simp: dec_int_def nat_less_iff)


section \<open>Properties\<close>

text \<open>C21: for any source and any buffer of positive size, \<open>json_encode_string\<close> leaves a terminated
  string that fits the buffer; a JSON reader decodes it to a prefix of the source; and the prefix is
  proper only when fewer than seven bytes of the buffer were left.\<close>

theorem json_encode_string_roundtrip:
  assumes "0 < dest_size"
  shows "\<exists>out k. json_encode_string (Some s) (Some d) dest_size = Some out \<and> length out < dest_size \<and>
     json_unescape out = Some (take k s) \<and> (take k s \<noteq> s \<longrightarrow> dest_size \<le> length out + 7)"
proof -
  obtain k where k: "encode_loop s [] dest_size = concat (map encode_char (take k s))"
      "k < length s \<longrightarrow> dest_size \<le> length (encode_loop s [] dest_size) + 7"
    using encode_loop_prefix [of "[]" dest_size s] assms by auto
  show ?thesis
    using assms k encode_loop_bound [of "[]" dest_size s] enc.decode_all [of "take k s"]
    by (intro exI [of _ "encode_loop s [] dest_size"] exI [of _ k]) (auto simp: json_encode_string_def)
qed

theorem json_encode_string_roundtrip_witness:
  "\<exists>out k. json_encode_string (Some ''a'') (Some []) 16 = Some out \<and> length out < 16 \<and>
     json_unescape out = Some (take k ''a'') \<and> (take k ''a'' \<noteq> ''a'' \<longrightarrow> 16 \<le> length out + 7)"
  by (rule json_encode_string_roundtrip) simp

text \<open>A buffer of \<open>JSON_ENCODE_BUFSIZE(n)\<close> bytes takes every source shorter than \<open>n\<close> whole, but not
  every source of length \<open>n\<close>: of \<open>n\<close> control characters it drops the last one.\<close>

theorem json_encode_bufsize:
  assumes "0 < n" "length s < n"
  shows "json_encode_string (Some s) (Some d) (JSON_ENCODE_BUFSIZE n) = Some (concat (map encode_char s)) \<and>
    json_encode_string (Some (replicate n (CHR 0x01))) (Some d) (JSON_ENCODE_BUFSIZE n) =
      Some (concat (map encode_char (replicate (n - 1) (CHR 0x01))))"
  using assms encode_loop_complete [of "[]" s "JSON_ENCODE_BUFSIZE n"]
    encode_loop_controls [of n "JSON_ENCODE_BUFSIZE n" "[]"]
  by (auto simp: json_encode_string_def JSON_ENCODE_BUFSIZE_def)

theorem json_encode_bufsize_witness:
  "json_encode_string (Some ''a'') (Some []) (JSON_ENCODE_BUFSIZE 2) = Some (concat (map encode_char ''a'')) \<and>
    json_encode_string (Some (replicate 2 (CHR 0x01))) (Some []) (JSON_ENCODE_BUFSIZE 2) =
      Some (concat (map encode_char (replicate (2 - 1) (CHR 0x01))))"
  by (rule json_encode_bufsize) simp_all

text \<open>C15: \<open>fast_itoa\<close> on every 32-bit \<open>int\<close> and every buffer, however small: it stores in bounds only; it
  returns the length of the number's decimal text and writes that text and a NUL, leaving the rest of
  the buffer alone, exactly when they fit; otherwise it returns 0 and writes nothing.\<close>

theorem fast_itoa_correct:
  "fast_itoa val (Some buf) =
     (let s = dec_int (sint val)
      in if length buf \<le> length s then Some (0, Some buf)
         else Some (length s, Some (s @ CHR 0x00 # drop (Suc (length s)) buf)))"
  by (rule itoa.print_spec)

text \<open>\<open>fast_ltoa\<close> prints every 64-bit integer correctly into the 64-byte buffers its callers use:
  the C string in the buffer is the decimal text of the value and the returned length is its length.\<close>

theorem fast_ltoa_correct:
  assumes "length buf = 64"
  shows "map_option (\<lambda>(n, b). (n, map_option c_str b)) (fast_ltoa val (Some buf)) =
     Some (length (dec_int (sint val)), Some (dec_int (sint val)))"
proof (rule ltoa.print_text)
  have "\<bar>sint val\<bar> < 10 ^ 20"
    using sint_ge [of val] sint_lt [of val] by (auto simp: abs_less_iff)
  then show "length (dec_int (sint val)) < length buf"
    using length_dec_int_le [of "sint val" 20] assms by simp
qed

theorem fast_ltoa_correct_witness:
  "map_option (\<lambda>(n, b). (n, map_option c_str b)) (fast_ltoa (word_of_int (- (2 ^ 63))) (Some (replicate 64 (CHR 0x00)))) =
     Some (length ''-9223372036854775808'', Some ''-9223372036854775808'')"
proof -
  have "sint (word_of_int (- (2 ^ 63)) :: 64 word) = - (2 ^ 63)"
    by simp
  moreover have "dec_int (- (2 ^ 63)) = ''-9223372036854775808''"
    by (simp add: dec_int_def dec.simps digit_def char_of_def bit_0)
  ultimately show ?thesis
    using fast_ltoa_correct [of "replicate 64 (CHR 0x00)" "word_of_int (- (2 ^ 63))"] by simp
qed

end
