(* ===== verification/Doubles.thy ===== *)
theory Doubles
  imports Prelude
begin

text \<open>
  IEEE 754 binary64 values as the C type \<open>double\<close> has them: the value a 64-bit pattern stands
  for, the classification macros and the comparison operators. A finite value is its sign and its
  magnitude, so that the two zeros are different values that compare equal.
\<close>

unbundle bit_operations_syntax

datatype double = NaN | Inf bool | Fin bool rat

definition double_of_bits :: "64 word \<Rightarrow> double" where
  "double_of_bits w =
     (let s = bit w 63;
          e = unat (take_bit 11 (drop_bit 52 w));
          m = unat (take_bit 52 w)
      in if e = 2047 then (if m = 0 then Inf s else NaN)
         else if e = 0 then Fin s (of_nat m / 2 ^ 1074)
         else if e \<ge> 1075 then Fin s (of_nat ((2 ^ 52 + m) * 2 ^ (e - 1075)))
         else Fin s (of_nat (2 ^ 52 + m) / 2 ^ (1075 - e)))"

definition isnan :: "double \<Rightarrow> bool" where
  "isnan x \<longleftrightarrow> x = NaN"

definition isinf :: "double \<Rightarrow> bool" where
  "isinf x \<longleftrightarrow> (\<exists>s \<in> {True, False}. x = Inf s)"

definition isfinite :: "double \<Rightarrow> bool" where
  "isfinite x \<longleftrightarrow> \<not> isnan x \<and> \<not> isinf x"

text \<open>The number a finite double stands for; 0 for the others.\<close>

fun dval :: "double \<Rightarrow> rat" where
  "dval (Fin s m) = (if s then - m else m)"
| "dval _ = 0"

text \<open>The C operator \<open><\<close>: false when an operand is not a number.\<close>

fun dless :: "double \<Rightarrow> double \<Rightarrow> bool" where
  "dless NaN _ = False"
| "dless _ NaN = False"
| "dless (Inf s) (Inf t) = (s \<and> \<not> t)"
| "dless (Inf s) (Fin _ _) = s"
| "dless (Fin _ _) (Inf t) = (\<not> t)"
| "dless (Fin s m) (Fin t n) = (dval (Fin s m) < dval (Fin t n))"

lemma isfinite_iff: "isfinite x \<longleftrightarrow> (\<exists>s m. x = Fin s m)"
  by (cases x) (auto simp: isfinite_def isnan_def isinf_def)

lemma dless_finite: "isfinite x \<Longrightarrow> isfinite y \<Longrightarrow> dless x y \<longleftrightarrow> dval x < dval y"
  by (auto simp: isfinite_iff)

end
