(* ===== verification/JsonApi.thy ===== *)
theory JsonApi
  imports CLib Doubles
begin

text \<open>
  The interface of the json-c library that the sources call. The library is not part of the
  program, so a parsed value is an element of an arbitrary type \<open>'j\<close>, a \<open>json_object *\<close> is a
  \<open>'j option\<close> (json-c represents JSON null by the null pointer), and the accessor functions are the
  fields of a record that the model takes as an argument. The predicates below state the
  documented behaviour that theorems rely on. \<open>ref_json\<close> is one library with that behaviour, over
  plain JSON trees; witnesses evaluate the program with it.
\<close>

datatype json_type =
  json_type_null | json_type_boolean | json_type_double | json_type_int
| json_type_object | json_type_array | json_type_string

text \<open>
  \<open>json_object_object_get_ex\<close> returns whether the key exists (\<open>None\<close>: it does not) and the value.
  \<open>json_object_get_string\<close> gives the C string at the returned pointer, which ends at the first NUL,
  while \<open>json_object_get_string_len\<close> counts embedded NULs too.
\<close>

record 'j json_c =
  json_object_is_type :: "'j option \<Rightarrow> json_type \<Rightarrow> bool"
  json_object_get_int :: "'j option \<Rightarrow> 32 word"
  json_object_get_int64 :: "'j option \<Rightarrow> 64 word"
  json_object_get_double :: "'j option \<Rightarrow> double"
  json_object_get_string :: "'j option \<Rightarrow> cstring_ptr"
  json_object_get_string_len :: "'j option \<Rightarrow> 32 word"
  json_object_array_length :: "'j option \<Rightarrow> nat"
  json_object_object_length :: "'j option \<Rightarrow> nat"
  json_object_object_get_ex :: "'j option \<Rightarrow> cstring \<Rightarrow> 'j option option"

text \<open>A value of string type has a string, at most as long as its reported length.\<close>

definition json_strings_ok :: "('j, 'z) json_c_scheme \<Rightarrow> bool" where
  "json_strings_ok J \<longleftrightarrow>
     (\<forall>v. json_object_is_type J v json_type_string \<longrightarrow>
        (\<exists>s. json_object_get_string J v = Some s \<and> int (length s) \<le> sint (json_object_get_string_len J v)))"

text \<open>A value has one type, and the null pointer has the null type.\<close>

definition json_types_ok :: "('j, 'z) json_c_scheme \<Rightarrow> bool" where
  "json_types_ok J \<longleftrightarrow>
     (\<forall>t. json_object_is_type J None t = (t = json_type_null)) \<and>
     (\<forall>v t t'. json_object_is_type J v t \<longrightarrow> json_object_is_type J v t' \<longrightarrow> t = t')"

text \<open>\<open>json_object_get_int\<close> saturates where \<open>json_object_get_int64\<close> keeps the value.\<close>

definition json_ints_ok :: "('j, 'z) json_c_scheme \<Rightarrow> bool" where
  "json_ints_ok J \<longleftrightarrow>
     (\<forall>v. json_object_is_type J v json_type_int \<longrightarrow>
        sint (json_object_get_int J v) = max (- (2 ^ 31)) (min (2 ^ 31 - 1) (sint (json_object_get_int64 J v))))"

lemma json_string_value:
  assumes "json_strings_ok J" "json_object_is_type J v json_type_string"
  obtains s where "json_object_get_string J v = Some s" "int (length s) \<le> sint (json_object_get_string_len J v)"
  using assms by (auto simp: json_strings_ok_def)

lemma json_type_unique:
  "json_types_ok J \<Longrightarrow> json_object_is_type J v t \<Longrightarrow> json_object_is_type J v t' \<Longrightarrow> t = t'"
  by (auto simp: json_types_ok_def)


section \<open>A reference library\<close>

datatype jvalue =
  JBool bool | JInt int | JDouble double | JString string
| JArray "jvalue option list" | JObject "(string \<times> jvalue option) list"

fun jtype :: "jvalue option \<Rightarrow> json_type" where
  "jtype None = json_type_null"
| "jtype (Some (JBool _)) = json_type_boolean"
| "jtype (Some (JInt _)) = json_type_int"
| "jtype (Some (JDouble _)) = json_type_double"
| "jtype (Some (JString _)) = json_type_string"
| "jtype (Some (JArray _)) = json_type_array"
| "jtype (Some (JObject _)) = json_type_object"

definition ref_int :: "nat \<Rightarrow> jvalue option \<Rightarrow> int" where
  "ref_int w v = (case v of Some (JInt z) \<Rightarrow> max (- (2 ^ (w - 1))) (min (2 ^ (w - 1) - 1) z) | _ \<Rightarrow> 0)"

definition ref_json :: "jvalue json_c" where
  "ref_json = \<lparr>
     json_object_is_type = (\<lambda>v t. jtype v = t),
     json_object_get_int = (\<lambda>v. word_of_int (ref_int 32 v)),
     json_object_get_int64 = (\<lambda>v. word_of_int (ref_int 64 v)),
     json_object_get_double = (\<lambda>v. case v of Some (JDouble d) \<Rightarrow> d | Some (JInt z) \<Rightarrow> Fin (z < 0) (of_int \<bar>z\<bar>) | _ \<Rightarrow> Fin False 0),
     json_object_get_string = (\<lambda>v. case v of Some (JString s) \<Rightarrow> Some (c_str (take (2 ^ 31 - 1) s)) | None \<Rightarrow> None | _ \<Rightarrow> Some []),
     json_object_get_string_len = (\<lambda>v. case v of Some (JString s) \<Rightarrow> word_of_nat (length (take (2 ^ 31 - 1) s)) | _ \<Rightarrow> 0),
     json_object_array_length = (\<lambda>v. case v of Some (JArray xs) \<Rightarrow> length xs | _ \<Rightarrow> 0),
     json_object_object_length = (\<lambda>v. case v of Some (JObject kvs) \<Rightarrow> length kvs | _ \<Rightarrow> 0),
     json_object_object_get_ex = (\<lambda>v k. case v of Some (JObject kvs) \<Rightarrow> map_of kvs k | _ \<Rightarrow> None) \<rparr>"

lemma sint_word_of_int_range:
  assumes "- (2 ^ (LENGTH('a) - 1)) \<le> z" "z < 2 ^ (LENGTH('a) - 1)"
  shows "sint (word_of_int z :: 'a::len word) = z"
  using assms by (simp add: signed_of_int signed_take_bit_int_eq_self)

lemma ref_int_range: "0 < w \<Longrightarrow> - (2 ^ (w - 1)) \<le> ref_int w v \<and> ref_int w v < 2 ^ (w - 1)"
  by (auto simp: ref_int_def min_def max_def split: option.splits jvalue.splits)

lemma sint_ref_int_32 [simp]: "sint (word_of_int (ref_int 32 v) :: 32 word) = ref_int 32 v"
  using ref_int_range [of 32 v] by (intro sint_word_of_int_range) auto

lemma sint_ref_int_64 [simp]: "sint (word_of_int (ref_int 64 v) :: 64 word) = ref_int 64 v"
  using ref_int_range [of 64 v] by (intro sint_word_of_int_range) auto

lemma ref_json_types: "json_types_ok ref_json"
  by (auto simp: json_types_ok_def ref_json_def)

lemma ref_int_saturates: "ref_int 32 v = max (- (2 ^ 31)) (min (2 ^ 31 - 1) (ref_int 64 v))"
  by (auto simp: ref_int_def min_def max_def split: option.splits jvalue.splits)

lemma ref_json_ints: "json_ints_ok ref_json"
  unfolding json_ints_ok_def by (simp add: ref_json_def) (simp add: ref_int_saturates)

lemma ref_json_strings: "json_strings_ok ref_json"
proof -
  have "int (length (c_str (take (2 ^ 31 - 1) s))) \<le> sint (word_of_nat (length (take (2 ^ 31 - 1) s)) :: 32 word)" for s
  proof -
    have "sint (word_of_nat (length (take (2 ^ 31 - 1) s)) :: 32 word) = int (length (take (2 ^ 31 - 1) s))"
      using sint_word_of_int_range [where 'a = 32, of "int (length (take (2 ^ 31 - 1) s))"] by simp
    then show ?thesis
      using length_c_str [of "take (2 ^ 31 - 1) s"] by simp
  qed
  then show ?thesis
    by (auto simp: json_strings_ok_def ref_json_def elim!: jtype.elims)
qed

lemmas ref_json_ok = ref_json_types ref_json_ints ref_json_strings

end
