(* ===== verification/Validation.thy ===== *)
theory Validation
  imports JsonApi
begin

text \<open>
  Model of \<open>lib/validation.c\<close> and \<open>include/apiserver/validation.h\<close>: the schema of a JSON payload, the
  type validators, the date validator, and the engine \<open>validate_json\<close>.

  A validator returns its verdict and the error buffer. The buffer is a nullable pointer to a C
  string with its capacity passed beside it. A validator that dereferences a null pointer has the
  result \<open>None\<close>, so a theorem with a \<open>Some\<close> result also says that no null pointer is read.
\<close>

section \<open>Error messages\<close>

datatype ErrorCode =
  ERR_REQUIRED | ERR_NOT_INT | ERR_NOT_DOUBLE | ERR_NOT_STRING | ERR_NOT_DATE | ERR_INVALID_DATE
| ERR_UNKNOWN_TYPE | ERR_TOO_LONG | ERR_TOO_SMALL | ERR_TOO_LARGE | ERR_MAX_ERRORS

definition field_message :: "cstring_ptr \<Rightarrow> string \<Rightarrow> string" where
  "field_message arg rest =
     ''Field '' @ [CHR 0x27] @ (case arg of None \<Rightarrow> '''' | Some a \<Rightarrow> a) @ [CHR 0x27] @ rest"

fun error_text :: "ErrorCode \<Rightarrow> cstring_ptr \<Rightarrow> string" where
  "error_text ERR_REQUIRED arg = field_message arg '' is required.''"
| "error_text ERR_NOT_INT arg = field_message arg '' must be an integer.''"
| "error_text ERR_NOT_DOUBLE arg = field_message arg '' must be a numeric decimal (double).''"
| "error_text ERR_NOT_STRING arg = field_message arg '' must be a string.''"
| "error_text ERR_NOT_DATE arg = field_message arg '' must be a date string.''"
| "error_text ERR_INVALID_DATE arg = field_message arg '' contains an invalid date format or calendar lie.''"
| "error_text ERR_UNKNOWN_TYPE arg = ''Internal error: Unknown validation type configured.''"
| "error_text ERR_TOO_LONG arg = field_message arg '' exceeds maximum allowed length.''"
| "error_text ERR_TOO_SMALL arg = field_message arg '' is below minimum allowed value.''"
| "error_text ERR_TOO_LARGE arg = field_message arg '' exceeds maximum allowed value.''"
| "error_text ERR_MAX_ERRORS arg = ''Unknown error code: 10''"

definition emit_error :: "cstring_ptr \<Rightarrow> nat \<Rightarrow> ErrorCode \<Rightarrow> cstring_ptr \<Rightarrow> bool \<times> cstring_ptr" where
  "emit_error err_buf err_len code arg =
     (if err_buf = None \<or> err_len = 0 then (False, err_buf)
      else (False, Some (snprintf (error_text code arg) err_len)))"


section \<open>Schemas\<close>

definition TYPE_INT :: nat where "TYPE_INT = 0"
definition TYPE_DOUBLE :: nat where "TYPE_DOUBLE = 1"
definition TYPE_STRING :: nat where "TYPE_STRING = 2"
definition TYPE_DATE :: nat where "TYPE_DATE = 3"
definition TYPE_MAX_TYPES :: nat where "TYPE_MAX_TYPES = 4"

lemmas field_type_defs = TYPE_INT_def TYPE_DOUBLE_def TYPE_STRING_def TYPE_DATE_def TYPE_MAX_TYPES_def

type_synonym verdict = "(bool \<times> cstring_ptr) option"

type_synonym 'j CustomValidatorFunc = "'j option \<Rightarrow> cstring_ptr \<Rightarrow> nat \<Rightarrow> verdict"

text \<open>
  The two anonymous unions are the 64 bits they occupy; the accessors below read a member out of
  them, an \<open>int\<close> from the low half (the target is little-endian).
\<close>

record 'j FieldValidator =
  field_name :: cstring
  custom_validator :: "'j CustomValidatorFunc option"
  min_bits :: "64 word"
  max_bits :: "64 word"
  field_type :: nat
  is_required :: bool
  has_min :: bool
  has_max :: bool

definition min_int :: "('j, 'z) FieldValidator_scheme \<Rightarrow> int" where
  "min_int f = sint (ucast (min_bits f) :: 32 word)"

definition min_dbl :: "('j, 'z) FieldValidator_scheme \<Rightarrow> double" where
  "min_dbl f = double_of_bits (min_bits f)"

definition max_len :: "('j, 'z) FieldValidator_scheme \<Rightarrow> nat" where
  "max_len f = unat (max_bits f)"

definition max_int :: "('j, 'z) FieldValidator_scheme \<Rightarrow> int" where
  "max_int f = sint (ucast (max_bits f) :: 32 word)"

definition max_dbl :: "('j, 'z) FieldValidator_scheme \<Rightarrow> double" where
  "max_dbl f = double_of_bits (max_bits f)"

text \<open>The pointer \<open>schema\<close> and \<open>schema_count\<close> together are a list.\<close>

record 'j ValidationContext =
  schema :: "'j FieldValidator list"
  global_validator :: "'j CustomValidatorFunc option"


section \<open>Dates\<close>

definition days_in_month :: "nat list" where
  "days_in_month = [0, 31, 28, 31, 30, 31, 30, 31, 31, 30, 31, 30, 31]"

definition validate_date_string_fast :: "cstring_ptr \<Rightarrow> bool" where
  "validate_date_string_fast date_str =
     (case date_str of
        None \<Rightarrow> False
      | Some s \<Rightarrow>
          if length s \<noteq> 10 then False
          else if \<not> (\<forall>i \<in> set [0..<10]. if i = 4 \<or> i = 7 then s ! i = CHR ''-'' else isdigit (s ! i)) then False
          else
            (let year = digit_val (s ! 0) * 1000 + digit_val (s ! 1) * 100 + digit_val (s ! 2) * 10 + digit_val (s ! 3);
                 month = digit_val (s ! 5) * 10 + digit_val (s ! 6);
                 day = digit_val (s ! 8) * 10 + digit_val (s ! 9)
             in if month < 1 \<or> month > 12 \<or> day < 1 \<or> year < 1900 \<or> year > 2199 then False
                else
                  (let max_days = days_in_month ! month;
                       is_leap = (year mod 4 = 0 \<and> (year mod 100 \<noteq> 0 \<or> year mod 400 = 0))
                   in day \<le> (if month = 2 \<and> is_leap then 29 else max_days))))"


section \<open>Type validators\<close>

definition validate_type_int ::
  "('j, 'y) json_c_scheme \<Rightarrow> 'j option \<Rightarrow> ('j, 'z) FieldValidator_scheme \<Rightarrow> cstring_ptr \<Rightarrow> nat \<Rightarrow> bool \<times> cstring_ptr"
where
  "validate_type_int J obj field err len =
     (if \<not> json_object_is_type J obj json_type_int then emit_error err len ERR_NOT_INT (Some (field_name field))
      else (let val = sint (json_object_get_int J obj)
            in if has_min field \<and> val < min_int field then emit_error err len ERR_TOO_SMALL (Some (field_name field))
               else if has_max field \<and> val > max_int field then emit_error err len ERR_TOO_LARGE (Some (field_name field))
               else (True, err)))"

definition validate_type_double ::
  "('j, 'y) json_c_scheme \<Rightarrow> 'j option \<Rightarrow> ('j, 'z) FieldValidator_scheme \<Rightarrow> cstring_ptr \<Rightarrow> nat \<Rightarrow> bool \<times> cstring_ptr"
where
  "validate_type_double J obj field err len =
     (if \<not> json_object_is_type J obj json_type_double \<and> \<not> json_object_is_type J obj json_type_int
      then emit_error err len ERR_NOT_DOUBLE (Some (field_name field))
      else (let val = json_object_get_double J obj
            in if isnan val \<or> isinf val then emit_error err len ERR_NOT_DOUBLE (Some (field_name field))
               else if has_min field \<and> dless val (min_dbl field) then emit_error err len ERR_TOO_SMALL (Some (field_name field))
               else if has_max field \<and> dless (max_dbl field) val then emit_error err len ERR_TOO_LARGE (Some (field_name field))
               else (True, err)))"

text \<open>\<open>utf8_strlen\<close> counts the bytes that are not continuation bytes.\<close>

fun utf8_strlen :: "cstring \<Rightarrow> nat" where
  "utf8_strlen [] = 0"
| "utf8_strlen (c # s) = (if (of_char c :: nat) div 64 \<noteq> 2 then 1 else 0) + utf8_strlen s"

definition validate_type_string ::
  "('j, 'y) json_c_scheme \<Rightarrow> 'j option \<Rightarrow> ('j, 'z) FieldValidator_scheme \<Rightarrow> cstring_ptr \<Rightarrow> nat \<Rightarrow> bool \<times> cstring_ptr"
where
  "validate_type_string J obj field err len =
     (if \<not> json_object_is_type J obj json_type_string then emit_error err len ERR_NOT_STRING (Some (field_name field))
      else if max_len field > 0 \<and> sint (json_object_get_string_len J obj) > sint (ucast (max_bits field) :: 32 word) then
        (case json_object_get_string J obj of
           Some str \<Rightarrow> if utf8_strlen str > max_len field then emit_error err len ERR_TOO_LONG (Some (field_name field)) else (True, err)
         | None \<Rightarrow> (True, err))
      else (True, err))"

definition validate_type_date ::
  "('j, 'y) json_c_scheme \<Rightarrow> 'j option \<Rightarrow> ('j, 'z) FieldValidator_scheme \<Rightarrow> cstring_ptr \<Rightarrow> nat \<Rightarrow> bool \<times> cstring_ptr"
where
  "validate_type_date J obj field err len =
     (if \<not> json_object_is_type J obj json_type_string then emit_error err len ERR_NOT_DATE (Some (field_name field))
      else if \<not> validate_date_string_fast (json_object_get_string J obj)
      then emit_error err len ERR_INVALID_DATE (Some (field_name field))
      else (True, err))"

definition TYPE_VALIDATOR_MAP ::
  "('j, 'y) json_c_scheme \<Rightarrow> ('j option \<Rightarrow> ('j, 'z) FieldValidator_scheme \<Rightarrow> cstring_ptr \<Rightarrow> nat \<Rightarrow> bool \<times> cstring_ptr) list"
where
  "TYPE_VALIDATOR_MAP J = [validate_type_int J, validate_type_double J, validate_type_string J, validate_type_date J]"


section \<open>The engine\<close>

definition check_field_empty :: "('j, 'y) json_c_scheme \<Rightarrow> 'j option \<Rightarrow> bool" where
  "check_field_empty J field_obj =
     (if json_object_is_type J field_obj json_type_string then
        (case json_object_get_string J field_obj of None \<Rightarrow> True | Some str \<Rightarrow> str = [])
      else if json_object_is_type J field_obj json_type_array then json_object_array_length J field_obj = 0
      else if json_object_is_type J field_obj json_type_object then json_object_object_length J field_obj = 0
      else False)"

text \<open>
  The body of the loop for one field: \<open>Some (True, err)\<close> goes on with the next field (the
  \<open>continue\<close> of an absent optional field included).
\<close>

definition validate_field ::
  "('j, 'y) json_c_scheme \<Rightarrow> 'j option \<Rightarrow> 'j FieldValidator \<Rightarrow> cstring_ptr \<Rightarrow> nat \<Rightarrow> verdict"
where
  "validate_field J root_obj field err_buf err_len =
     (case json_object_object_get_ex J root_obj (field_name field) of
        None \<Rightarrow>
          (if is_required field then Some (emit_error err_buf err_len ERR_REQUIRED (Some (field_name field)))
           else Some (True, err_buf))
      | Some None \<Rightarrow>
          (if is_required field then Some (emit_error err_buf err_len ERR_REQUIRED (Some (field_name field)))
           else Some (True, err_buf))
      | Some (Some v) \<Rightarrow>
          (if is_required field \<and> check_field_empty J (Some v)
           then Some (emit_error err_buf err_len ERR_REQUIRED (Some (field_name field)))
           else if field_type field \<ge> TYPE_MAX_TYPES
           then Some (emit_error err_buf err_len ERR_UNKNOWN_TYPE None)
           else
             (case (TYPE_VALIDATOR_MAP J ! field_type field) (Some v) field err_buf err_len of
                (False, err) \<Rightarrow> Some (False, err)
              | (True, err) \<Rightarrow>
                  (case custom_validator field of
                     None \<Rightarrow> Some (True, err)
                   | Some f \<Rightarrow> f (Some v) err err_len))))"

fun validate_fields ::
  "('j, 'y) json_c_scheme \<Rightarrow> 'j option \<Rightarrow> 'j FieldValidator list \<Rightarrow> cstring_ptr \<Rightarrow> nat \<Rightarrow> verdict"
where
  "validate_fields J root_obj [] err_buf err_len = Some (True, err_buf)"
| "validate_fields J root_obj (field # rest) err_buf err_len =
     (case validate_field J root_obj field err_buf err_len of
        None \<Rightarrow> None
      | Some (False, err) \<Rightarrow> Some (False, err)
      | Some (True, err) \<Rightarrow> validate_fields J root_obj rest err err_len)"

definition validate_json ::
  "('j, 'y) json_c_scheme \<Rightarrow> 'j ValidationContext option \<Rightarrow> 'j option \<Rightarrow> cstring_ptr \<Rightarrow> nat \<Rightarrow> verdict"
where
  "validate_json J ctx root_obj err_buf err_len =
     (case ctx of
        None \<Rightarrow> Some (False, err_buf)
      | Some c \<Rightarrow>
          (if root_obj = None \<or> err_buf = None \<or> err_len = 0 then Some (False, err_buf)
           else if \<not> json_object_is_type J root_obj json_type_object
           then Some (False, Some (snprintf ''Payload must be a JSON object.'' err_len))
           else
             (case validate_fields J root_obj (schema c) err_buf err_len of
                None \<Rightarrow> None
              | Some (False, err) \<Rightarrow> Some (False, err)
              | Some (True, err) \<Rightarrow>
                  (case global_validator c of
                     None \<Rightarrow> Some (True, err)
                   | Some g \<Rightarrow> g root_obj err err_len))))"


section \<open>Extraction\<close>

definition json_get_string :: "('j, 'y) json_c_scheme \<Rightarrow> 'j option \<Rightarrow> cstring \<Rightarrow> cstring_ptr" where
  "json_get_string J obj key =
     (case json_object_object_get_ex J obj key of None \<Rightarrow> None | Some v \<Rightarrow> json_object_get_string J v)"

text \<open>The string and the length, which is left as it is when the key does not exist.\<close>

definition json_get_string_ex ::
  "('j, 'y) json_c_scheme \<Rightarrow> 'j option \<Rightarrow> cstring \<Rightarrow> 32 word \<Rightarrow> cstring_ptr \<times> 32 word"
where
  "json_get_string_ex J obj key len =
     (case json_object_object_get_ex J obj key of
        None \<Rightarrow> (None, len)
      | Some v \<Rightarrow> (json_object_get_string J v, json_object_get_string_len J v))"

definition json_get_int :: "('j, 'y) json_c_scheme \<Rightarrow> 'j option \<Rightarrow> cstring \<Rightarrow> 64 word" where
  "json_get_int J obj key =
     (case json_object_object_get_ex J obj key of None \<Rightarrow> 0 | Some v \<Rightarrow> json_object_get_int64 J v)"

definition json_get_double :: "('j, 'y) json_c_scheme \<Rightarrow> 'j option \<Rightarrow> cstring \<Rightarrow> double" where
  "json_get_double J obj key =
     (case json_object_object_get_ex J obj key of None \<Rightarrow> Fin False 0 | Some v \<Rightarrow> json_object_get_double J v)"



section \<open>The calendar\<close>

text \<open>
  The proleptic Gregorian calendar, independently of the code: dates with their chronological
  order, month lengths, and the number of the day counted from the beginning of year 0.
\<close>

datatype date = Date (date_year: nat) (date_month: nat) (date_day: nat)

instantiation date :: linorder
begin

definition less_eq_date :: "date \<Rightarrow> date \<Rightarrow> bool" where
  "less_eq_date a b \<longleftrightarrow>
     date_year a < date_year b \<or> date_year a = date_year b \<and>
       (date_month a < date_month b \<or> date_month a = date_month b \<and> date_day a \<le> date_day b)"

definition less_date :: "date \<Rightarrow> date \<Rightarrow> bool" where
  "less_date a b \<longleftrightarrow>
     date_year a < date_year b \<or> date_year a = date_year b \<and>
       (date_month a < date_month b \<or> date_month a = date_month b \<and> date_day a < date_day b)"

instance
  by intro_classes (auto simp: less_eq_date_def less_date_def date.expand)

end

definition leap_year :: "nat \<Rightarrow> bool" where
  "leap_year y \<longleftrightarrow> 4 dvd y \<and> \<not> 100 dvd y \<or> 400 dvd y"

definition month_length :: "nat \<Rightarrow> nat \<Rightarrow> nat" where
  "month_length y m =
     (if m = 2 then (if leap_year y then 29 else 28) else if m \<in> {4, 6, 9, 11} then 30 else 31)"

definition year_length :: "nat \<Rightarrow> nat" where
  "year_length y = (\<Sum>m = 1..12. month_length y m)"

definition calendar_date :: "date \<Rightarrow> bool" where
  "calendar_date d \<longleftrightarrow> 1 \<le> date_month d \<and> date_month d \<le> 12 \<and>
     1 \<le> date_day d \<and> date_day d \<le> month_length (date_year d) (date_month d)"

definition day_number :: "date \<Rightarrow> nat" where
  "day_number d = (\<Sum>y < date_year d. year_length y) +
     (\<Sum>m = 1..<date_month d. month_length (date_year d) m) + date_day d"

definition iso_date :: "date \<Rightarrow> string" where
  "iso_date d = two_digits (date_year d div 100) @ two_digits (date_year d mod 100) @ [CHR ''-''] @
     two_digits (date_month d) @ [CHR ''-''] @ two_digits (date_day d)"

text \<open>The dates the program accepts.\<close>

definition supported_date :: "date \<Rightarrow> bool" where
  "supported_date d \<longleftrightarrow> calendar_date d \<and> 1900 \<le> date_year d \<and> date_year d \<le> 2199"

lemma days_in_month_lookup:
  assumes "1 \<le> m" "m \<le> 12"
  shows "(if m = 2 \<and> leap_year y then 29 else days_in_month ! m) = month_length y m"
proof -
  have "m = 1 \<or> m = 2 \<or> m = 3 \<or> m = 4 \<or> m = 5 \<or> m = 6 \<or> m = 7 \<or> m = 8 \<or> m = 9 \<or> m = 10 \<or> m = 11 \<or> m = 12"
    using assms by presburger
  then show ?thesis
    by (elim disjE) (simp_all add: days_in_month_def month_length_def)
qed

lemma leap_year_mod: "leap_year y \<longleftrightarrow> y mod 4 = 0 \<and> (y mod 100 \<noteq> 0 \<or> y mod 400 = 0)"
proof -
  have "400 dvd y \<Longrightarrow> 4 dvd y" "400 dvd y \<Longrightarrow> 100 dvd y"
    by (auto intro: dvd_trans [of _ 400])
  then show ?thesis
    unfolding leap_year_def dvd_eq_mod_eq_0 by metis
qed

lemma div_mod_decompose:
  fixes n :: nat
  assumes "n = q * k + r" "r < k"
  shows "n div k = q" "n mod k = r"
  using assms by auto

lemma two_digits_join: "a < 10 \<Longrightarrow> b < 10 \<Longrightarrow> two_digits (a * 10 + b) = [digit a, digit b]"
  by (simp add: two_digits_def)

lemma month_length_bounds: "28 \<le> month_length y m" "month_length y m \<le> 31"
  by (auto simp: month_length_def)

text \<open>The decimal fields of a date string.\<close>

definition date_fields :: "string \<Rightarrow> date" where
  "date_fields s = Date
     (digit_val (s ! 0) * 1000 + digit_val (s ! 1) * 100 + digit_val (s ! 2) * 10 + digit_val (s ! 3))
     (digit_val (s ! 5) * 10 + digit_val (s ! 6))
     (digit_val (s ! 8) * 10 + digit_val (s ! 9))"

definition date_shaped :: "string \<Rightarrow> bool" where
  "date_shaped s \<longleftrightarrow> length s = 10 \<and>
     (\<forall>i \<in> set [0..<10]. if i = 4 \<or> i = 7 then s ! i = CHR ''-'' else isdigit (s ! i))"

lemma validate_date_string_fast_iff:
  "validate_date_string_fast (Some s) \<longleftrightarrow> date_shaped s \<and> supported_date (date_fields s)"
proof -
  define y m d where y_def: "y = digit_val (s ! 0) * 1000 + digit_val (s ! 1) * 100 + digit_val (s ! 2) * 10 + digit_val (s ! 3)"
    and m_def: "m = digit_val (s ! 5) * 10 + digit_val (s ! 6)"
    and d_def: "d = digit_val (s ! 8) * 10 + digit_val (s ! 9)"
  have "validate_date_string_fast (Some s) \<longleftrightarrow> date_shaped s \<and> \<not> (m < 1 \<or> m > 12 \<or> d < 1 \<or> y < 1900 \<or> y > 2199) \<and>
      d \<le> (if m = 2 \<and> leap_year y then 29 else days_in_month ! m)"
    unfolding validate_date_string_fast_def Let_def leap_year_mod option.case date_shaped_def
      y_def [symmetric] m_def [symmetric] d_def [symmetric] by (simp only: if_bool_eq_conj simp_thms) blast
  also have "\<dots> \<longleftrightarrow> date_shaped s \<and> supported_date (Date y m d)"
    using days_in_month_lookup [of m y]
    by (auto simp: supported_date_def calendar_date_def)
  finally show ?thesis
    by (simp add: date_fields_def y_def m_def d_def)
qed

lemma list_of_length_10: "length s = 10 \<Longrightarrow> s = [s ! 0, s ! 1, s ! 2, s ! 3, s ! 4, s ! 5, s ! 6, s ! 7, s ! 8, s ! 9]"
  by (auto simp: numeral_eq_Suc length_Suc_conv)

lemma date_shaped_iff:
  "date_shaped s \<longleftrightarrow> length s = 10 \<and> isdigit (s ! 0) \<and> isdigit (s ! 1) \<and> isdigit (s ! 2) \<and> isdigit (s ! 3) \<and>
     s ! 4 = CHR ''-'' \<and> isdigit (s ! 5) \<and> isdigit (s ! 6) \<and> s ! 7 = CHR ''-'' \<and> isdigit (s ! 8) \<and> isdigit (s ! 9)"
proof -
  have "set [0..<10] = {0, 1, 2, 3, 4, 5, 6, 7, 8, 9 :: nat}"
    by code_simp
  then show ?thesis
    unfolding date_shaped_def by (simp only:) simp
qed

lemma iso_date_fields:
  assumes "date_shaped s"
  shows "iso_date (date_fields s) = s"
proof -
  define c where "c i = digit_val (s ! i)" for i
  have dig: "isdigit (s ! i)" if "i \<in> {0, 1, 2, 3, 5, 6, 8, 9}" for i
    using assms that by (auto simp: date_shaped_iff)
  then have c: "c i < 10" "digit (c i) = s ! i" if "i \<in> {0, 1, 2, 3, 5, 6, 8, 9}" for i
    using that by (simp_all add: c_def)
  have "date_year (date_fields s) = (c 0 * 10 + c 1) * 100 + (c 2 * 10 + c 3)"
    by (simp add: date_fields_def c_def)
  moreover have "c 2 * 10 + c 3 < 100"
    using c(1) [of 2] c(1) [of 3] by simp
  ultimately have "date_year (date_fields s) div 100 = c 0 * 10 + c 1" "date_year (date_fields s) mod 100 = c 2 * 10 + c 3"
    by (auto simp only: div_mod_decompose)
  moreover have "date_month (date_fields s) = c 5 * 10 + c 6" "date_day (date_fields s) = c 8 * 10 + c 9"
    by (simp_all add: date_fields_def c_def)
  ultimately have "iso_date (date_fields s) =
      [s ! 0, s ! 1, s ! 2, s ! 3, CHR ''-'', s ! 5, s ! 6, CHR ''-'', s ! 8, s ! 9]"
    using c by (simp add: iso_date_def two_digits_join)
  then show ?thesis
    using assms list_of_length_10 [of s] by (simp add: date_shaped_iff)
qed

lemma date_shaped_iso:
  assumes "date_year d < 10000" "date_month d < 100" "date_day d < 100"
  shows "date_shaped (iso_date d)" "date_fields (iso_date d) = d"
proof -
  have y: "date_year d div 100 < 100"
    using assms(1) by (simp add: less_mult_imp_div_less)
  with assms show "date_shaped (iso_date d)"
    by (simp add: date_shaped_iff iso_date_def two_digits_def less_mult_imp_div_less)
  have "date_year d div 100 div 10 * 10 + date_year d div 100 mod 10 = date_year d div 100"
    "date_year d mod 100 div 10 * 10 + date_year d mod 100 mod 10 = date_year d mod 100"
    "date_year d div 100 * 100 + date_year d mod 100 = date_year d"
    by (simp_all only: div_mult_mod_eq)
  then have "date_year d div 100 div 10 * 1000 + date_year d div 100 mod 10 * 100 +
      date_year d mod 100 div 10 * 10 + date_year d mod 100 mod 10 = date_year d"
    by linarith
  then show "date_fields (iso_date d) = d"
    using assms y by (cases d) (simp add: date_fields_def iso_date_def two_digits_def less_mult_imp_div_less)
qed


lemma less_by_div_mod: "x < y \<longleftrightarrow> x div k < y div k \<or> x div k = y div k \<and> x mod k < y mod k" for x y k :: nat
proof -
  have "x div k * k + x mod k = x" "y div k * k + y mod k = y"
    by simp_all
  moreover have "x div k = y div k \<Longrightarrow> x div k * k = y div k * k"
    by simp
  moreover have "x \<le> y \<Longrightarrow> x div k \<le> y div k" "y \<le> x \<Longrightarrow> y div k \<le> x div k"
    by (simp_all add: div_le_mono)
  ultimately show ?thesis
    by linarith
qed

lemma strcmp_two_digits:
  assumes "v < 100" "w < 100"
  shows "strcmp (two_digits v @ s) (two_digits w @ t) = (if v < w then - 1 else if w < v then 1 else strcmp s t)"
proof -
  have d: "(of_char (digit k) :: nat) = 48 + k" if "k < 10" for k
    using that by (simp add: digit_def of_char_of)
  have b: "v div 10 < 10" "w div 10 < 10" "v mod 10 < 10" "w mod 10 < 10"
    using assms by (auto simp: less_mult_imp_div_less)
  show ?thesis
    using less_by_div_mod [of v w 10] less_by_div_mod [of w v 10] b d by (auto simp: two_digits_def)
qed

lemma strcmp_four_digits:
  assumes "v < 10000" "w < 10000"
  shows "strcmp (two_digits (v div 100) @ two_digits (v mod 100) @ s) (two_digits (w div 100) @ two_digits (w mod 100) @ t) =
     (if v < w then - 1 else if w < v then 1 else strcmp s t)"
proof -
  have "v div 100 < 100" "w div 100 < 100"
    using assms by (auto simp: less_mult_imp_div_less)
  then show ?thesis
    using less_by_div_mod [of v w 100] less_by_div_mod [of w v 100] by (simp add: strcmp_two_digits)
qed

lemma strcmp_iso_date:
  assumes "date_year a < 10000" "date_month a < 100" "date_day a < 100"
    and "date_year b < 10000" "date_month b < 100" "date_day b < 100"
  shows "strcmp (iso_date a) (iso_date b) = (if a < b then - 1 else if b < a then 1 else 0)"
proof -
  have "strcmp (two_digits (date_day a)) (two_digits (date_day b)) =
      (if date_day a < date_day b then - 1 else if date_day b < date_day a then 1 else 0)"
    using strcmp_two_digits [of "date_day a" "date_day b" "[]" "[]"] assms by simp
  then have "strcmp (iso_date a) (iso_date b) =
      (if date_year a < date_year b then - 1 else if date_year b < date_year a then 1
       else if date_month a < date_month b then - 1 else if date_month b < date_month a then 1
       else if date_day a < date_day b then - 1 else if date_day b < date_day a then 1 else 0)"
    unfolding iso_date_def strcmp_four_digits [OF assms(1,4)] using assms(2,5) by (simp add: strcmp_two_digits)
  then show ?thesis
    by (cases rule: linorder_cases [of "date_year a" "date_year b"];
        cases rule: linorder_cases [of "date_month a" "date_month b"];
        cases rule: linorder_cases [of "date_day a" "date_day b"]) (simp_all add: less_date_def)
qed

lemma months_before_le_year:
  assumes "calendar_date d"
  shows "(\<Sum>m = 1..<date_month d. month_length (date_year d) m) + date_day d \<le> year_length (date_year d)"
proof -
  let ?f = "month_length (date_year d)"
  have "(\<Sum>m = 1..<date_month d. ?f m) + date_day d \<le> (\<Sum>m = 1..<Suc (date_month d). ?f m)"
    using assms by (simp add: calendar_date_def sum.atLeastLessThan_Suc)
  also have "\<dots> \<le> (\<Sum>m = 1..12. ?f m)"
    using assms by (intro sum_mono2) (auto simp: calendar_date_def)
  finally show ?thesis
    by (simp add: year_length_def)
qed

text \<open>The lexicographic order of dates is the order of their day numbers.\<close>

lemma day_number_less:
  assumes "calendar_date a" "calendar_date b" "a < b"
  shows "day_number a < day_number b"
proof (cases "date_year a < date_year b")
  case True
  have "day_number a \<le> (\<Sum>y < Suc (date_year a). year_length y)"
    using months_before_le_year [OF assms(1)] by (simp add: day_number_def)
  also have "\<dots> \<le> (\<Sum>y < date_year b. year_length y)"
    using True by (intro sum_mono2) auto
  also have "\<dots> < day_number b"
    using assms(2) by (simp add: day_number_def calendar_date_def)
  finally show ?thesis .
next
  case False
  then have y: "date_year a = date_year b"
    using assms(3) by (auto simp: less_date_def)
  show ?thesis
  proof (cases "date_month a = date_month b")
    case True
    then show ?thesis
      using assms(3) y by (simp add: less_date_def day_number_def)
  next
    case False
    let ?f = "month_length (date_year a)"
    have "date_month a < date_month b"
      using False y assms(3) by (auto simp: less_date_def)
    then have "(\<Sum>m = 1..<Suc (date_month a). ?f m) \<le> (\<Sum>m = 1..<date_month b. ?f m)"
      by (intro sum_mono2) auto
    moreover have "(\<Sum>m = 1..<date_month a. ?f m) + date_day a \<le> (\<Sum>m = 1..<Suc (date_month a). ?f m)"
      using assms(1) by (simp add: calendar_date_def sum.atLeastLessThan_Suc)
    moreover have "1 \<le> date_day b"
      using assms(2) by (simp add: calendar_date_def)
    ultimately show ?thesis
      unfolding day_number_def y [symmetric] by linarith
  qed
qed

lemma day_number_less_iff:
  "calendar_date a \<Longrightarrow> calendar_date b \<Longrightarrow> day_number a < day_number b \<longleftrightarrow> a < b"
  using day_number_less [of a b] day_number_less [of b a] by (metis less_asym neqE)

lemma supported_date_small:
  "supported_date d \<Longrightarrow> date_year d < 10000 \<and> date_month d < 100 \<and> date_day d < 100 \<and> calendar_date d"
  using month_length_bounds(2) [of "date_year d" "date_month d"]
  by (auto simp: supported_date_def calendar_date_def)

lemma validate_date_iff_iso:
  "validate_date_string_fast p \<longleftrightarrow> (\<exists>d. supported_date d \<and> p = Some (iso_date d))"
proof (cases p)
  case None
  then show ?thesis by (simp add: validate_date_string_fast_def)
next
  case (Some s)
  show ?thesis
  proof
    assume "validate_date_string_fast p"
    then show "\<exists>d. supported_date d \<and> p = Some (iso_date d)"
      using Some iso_date_fields [of s] by (auto simp: validate_date_string_fast_iff)
  next
    assume "\<exists>d. supported_date d \<and> p = Some (iso_date d)"
    then show "validate_date_string_fast p"
      using supported_date_small date_shaped_iso by (auto simp: validate_date_string_fast_iff)
  qed
qed

text \<open>C20: \<open>validate_date_string_fast\<close> accepts exactly the strings that write an existing day of the
  Gregorian calendar, between the years 1900 and 2199, as \<open>YYYY-MM-DD\<close>.\<close>

theorem validate_date_string_fast_correct:
  "validate_date_string_fast (Some s) \<longleftrightarrow> (\<exists>d. supported_date d \<and> s = iso_date d)"
  by (simp add: validate_date_iff_iso)

lemma validate_date_iso:
  "validate_date_string_fast (Some s) \<Longrightarrow> supported_date (date_fields s) \<and> s = iso_date (date_fields s)"
  using iso_date_fields [of s] by (simp add: validate_date_string_fast_iff)

lemmas date_eval = validate_date_string_fast_iff date_shaped_iff date_fields_def supported_date_def
  calendar_date_def month_length_def leap_year_def digit_val_def isdigit_def

text \<open>On strings the date validator accepts, the sign of \<open>strcmp\<close> is the chronological order: it is
  negative exactly when the first day comes before the second, counted in days.\<close>

theorem strcmp_chronological:
  assumes "validate_date_string_fast (Some s)" "validate_date_string_fast (Some t)"
  shows "strcmp s t < 0 \<longleftrightarrow> day_number (date_fields s) < day_number (date_fields t)"
proof -
  have d: "supported_date (date_fields s)" "supported_date (date_fields t)"
    using assms validate_date_iso by auto
  then have "strcmp s t = (if date_fields s < date_fields t then - 1 else if date_fields t < date_fields s then 1 else 0)"
    using strcmp_iso_date [of "date_fields s" "date_fields t"] supported_date_small
      validate_date_iso [OF assms(1)] validate_date_iso [OF assms(2)] by auto
  then show ?thesis
    using d supported_date_small day_number_less_iff [of "date_fields s" "date_fields t"] by auto
qed

theorem strcmp_chronological_witness:
  "strcmp ''1995-12-31'' ''1996-02-29'' < 0 \<and>
   day_number (date_fields ''1995-12-31'') < day_number (date_fields ''1996-02-29'')"
proof -
  have "validate_date_string_fast (Some ''1995-12-31'')" "validate_date_string_fast (Some ''1996-02-29'')"
    by (simp_all add: date_eval)
  then show ?thesis
    using strcmp_chronological [of "''1995-12-31''" "''1996-02-29''"] by simp
qed



section \<open>What the engine accepts\<close>

text \<open>The declared constraints of a field on a value, without the fast paths of the code.\<close>

definition type_accepts :: "('j, 'y) json_c_scheme \<Rightarrow> ('j, 'z) FieldValidator_scheme \<Rightarrow> 'j \<Rightarrow> bool" where
  "type_accepts J f v \<longleftrightarrow>
     (if field_type f = TYPE_INT then
        json_object_is_type J (Some v) json_type_int \<and>
        (has_min f \<longrightarrow> min_int f \<le> sint (json_object_get_int J (Some v))) \<and>
        (has_max f \<longrightarrow> sint (json_object_get_int J (Some v)) \<le> max_int f)
      else if field_type f = TYPE_DOUBLE then
        (json_object_is_type J (Some v) json_type_double \<or> json_object_is_type J (Some v) json_type_int) \<and>
        isfinite (json_object_get_double J (Some v)) \<and>
        (has_min f \<longrightarrow> \<not> dless (json_object_get_double J (Some v)) (min_dbl f)) \<and>
        (has_max f \<longrightarrow> \<not> dless (max_dbl f) (json_object_get_double J (Some v)))
      else if field_type f = TYPE_STRING then
        json_object_is_type J (Some v) json_type_string \<and>
        (0 < max_len f \<longrightarrow> utf8_strlen (the (json_object_get_string J (Some v))) \<le> max_len f)
      else if field_type f = TYPE_DATE then
        json_object_is_type J (Some v) json_type_string \<and>
        (\<exists>d. supported_date d \<and> json_object_get_string J (Some v) = Some (iso_date d))
      else False)"

definition field_accepts ::
  "('j, 'y) json_c_scheme \<Rightarrow> ('j FieldValidator \<Rightarrow> 'j \<Rightarrow> bool) \<Rightarrow> 'j \<Rightarrow> 'j FieldValidator \<Rightarrow> bool"
where
  "field_accepts J custom_ok r f \<longleftrightarrow>
     (case json_object_object_get_ex J (Some r) (field_name f) of
        Some (Some v) \<Rightarrow>
          (is_required f \<longrightarrow> \<not> check_field_empty J (Some v)) \<and> type_accepts J f v \<and> custom_ok f v
      | _ \<Rightarrow> \<not> is_required f)"

lemma utf8_strlen_le: "utf8_strlen s \<le> length s"
  by (induction s) auto

lemma sint_ucast_le: "0 \<le> sint (ucast (w :: 64 word) :: 32 word) \<Longrightarrow> sint (ucast w :: 32 word) \<le> int (unat w)"
proof -
  assume "0 \<le> sint (ucast w :: 32 word)"
  then have "nat (sint (ucast w :: 32 word)) = unat (ucast w :: 32 word)"
    using unat_of_nonnegative [of "ucast w :: 32 word"] by simp
  moreover have "unat (ucast w :: 32 word) \<le> unat w"
    by (simp add: unsigned_ucast_eq take_bit_nat_less_eq_self)
  ultimately show ?thesis by linarith
qed

text \<open>The byte-length shortcut never lets a string with too many characters through.\<close>

lemma validate_type_string_spec:
  assumes "json_strings_ok J" "json_object_is_type J (Some v) json_type_string"
  shows "fst (validate_type_string J (Some v) f err len) \<longleftrightarrow>
     (0 < max_len f \<longrightarrow> utf8_strlen (the (json_object_get_string J (Some v))) \<le> max_len f)"
proof -
  obtain s where s: "json_object_get_string J (Some v) = Some s" "int (length s) \<le> sint (json_object_get_string_len J (Some v))"
    using json_string_value [OF assms] .
  have "utf8_strlen s \<le> max_len f"
    if "sint (json_object_get_string_len J (Some v)) \<le> sint (ucast (max_bits f) :: 32 word)"
  proof -
    have "0 \<le> sint (ucast (max_bits f) :: 32 word)"
      using that s(2) by linarith
    from sint_ucast_le [OF this] that s(2) utf8_strlen_le [of s] show ?thesis
      unfolding max_len_def by linarith
  qed
  with assms(2) s(1) show ?thesis
    by (auto simp: validate_type_string_def emit_error_def)
qed

lemma fst_emit_error [simp]: "fst (emit_error err len code arg) = False"
  by (simp add: emit_error_def)

lemma type_validators_spec:
  assumes "json_strings_ok J" "field_type f < TYPE_MAX_TYPES"
  shows "fst ((TYPE_VALIDATOR_MAP J ! field_type f) (Some v) f err len) \<longleftrightarrow> type_accepts J f v"
proof -
  consider "field_type f = 0" | "field_type f = 1" | "field_type f = 2" | "field_type f = 3"
    using assms(2) unfolding field_type_defs by linarith
  then show ?thesis
  proof cases
    case 1
    then show ?thesis
      by (auto simp: TYPE_VALIDATOR_MAP_def type_accepts_def field_type_defs validate_type_int_def Let_def)
  next
    case 2
    then show ?thesis
      by (auto simp: TYPE_VALIDATOR_MAP_def type_accepts_def field_type_defs validate_type_double_def Let_def isfinite_def)
  next
    case 3
    then show ?thesis
      using validate_type_string_spec [OF assms(1), of v f err len]
      by (cases "json_object_is_type J (Some v) json_type_string")
         (auto simp: TYPE_VALIDATOR_MAP_def type_accepts_def field_type_defs validate_type_string_def)
  next
    case 4
    then show ?thesis
      by (auto simp: validate_date_iff_iso TYPE_VALIDATOR_MAP_def type_accepts_def field_type_defs validate_type_date_def)
  qed
qed

text \<open>A validator never drops the error buffer, and an accepting one leaves it untouched.\<close>

lemma emit_error_buffer [simp]: "\<exists>e'. emit_error (Some e) n code arg = (False, Some e')"
  by (simp add: emit_error_def)

lemma type_validators_buffer:
  assumes "field_type f < TYPE_MAX_TYPES"
  shows "\<exists>ok e'. (TYPE_VALIDATOR_MAP J ! field_type f) (Some v) f (Some e) n = (ok, Some e')"
proof -
  consider "field_type f = 0" | "field_type f = 1" | "field_type f = 2" | "field_type f = 3"
    using assms unfolding field_type_defs by linarith
  then show ?thesis
    by cases (auto simp: TYPE_VALIDATOR_MAP_def validate_type_int_def validate_type_double_def
      validate_type_string_def validate_type_date_def Let_def emit_error_def split: option.splits)
qed


lemma validate_field_spec:
  assumes J: "json_strings_ok J"
    and custom: "\<And>g v e. custom_validator f = Some g \<Longrightarrow> type_accepts J f v \<Longrightarrow>
      \<exists>e'. g (Some v) (Some e) n = Some (custom_ok f v, Some e')"
    and no_custom: "\<And>v. custom_validator f = None \<Longrightarrow> custom_ok f v"
  shows "\<exists>e'. validate_field J (Some r) f (Some e) n = Some (field_accepts J custom_ok r f, Some e')"
proof (cases "json_object_object_get_ex J (Some r) (field_name f)")
  case None
  then show ?thesis
    by (auto simp: validate_field_def field_accepts_def emit_error_def)
next
  case (Some p)
  show ?thesis
  proof (cases p)
    case None
    with Some show ?thesis
      by (auto simp: validate_field_def field_accepts_def emit_error_def)
  next
    case (Some v)
    with \<open>_ = Some p\<close> have get: "json_object_object_get_ex J (Some r) (field_name f) = Some (Some v)"
      by simp
    show ?thesis
    proof (cases "field_type f < TYPE_MAX_TYPES")
      case False
      then have "\<not> type_accepts J f v"
        by (auto simp: type_accepts_def field_type_defs)
      with False get show ?thesis
        by (auto simp: validate_field_def field_accepts_def emit_error_def)
    next
      case True
      obtain ok e' where t: "(TYPE_VALIDATOR_MAP J ! field_type f) (Some v) f (Some e) n = (ok, Some e')"
        using type_validators_buffer [OF True] by blast
      have "ok \<longleftrightarrow> type_accepts J f v"
        using type_validators_spec [OF J True, of v "Some e" n] t by simp
      with t get True custom [of _ v e'] no_custom [of v] show ?thesis
        by (cases "custom_validator f")
           (auto simp: validate_field_def field_accepts_def emit_error_def split: bool.splits)
    qed
  qed
qed

lemma validate_fields_spec:
  assumes J: "json_strings_ok J"
    and custom: "\<And>f g v e. f \<in> set fs \<Longrightarrow> custom_validator f = Some g \<Longrightarrow> type_accepts J f v \<Longrightarrow>
      \<exists>e'. g (Some v) (Some e) n = Some (custom_ok f v, Some e')"
    and no_custom: "\<And>f v. f \<in> set fs \<Longrightarrow> custom_validator f = None \<Longrightarrow> custom_ok f v"
  shows "\<exists>e'. validate_fields J (Some r) fs (Some e) n = Some (\<forall>f \<in> set fs. field_accepts J custom_ok r f, Some e')"
  using custom no_custom
proof (induction fs arbitrary: e)
  case Nil
  then show ?case by simp
next
  case (Cons f fs)
  obtain e1 where "validate_field J (Some r) f (Some e) n = Some (field_accepts J custom_ok r f, Some e1)"
    using validate_field_spec [OF J, of f n custom_ok r e] Cons.prems by (meson list.set_intros(1))
  moreover obtain e2 where "validate_fields J (Some r) fs (Some e1) n =
      Some (\<forall>f \<in> set fs. field_accepts J custom_ok r f, Some e2)"
    using Cons.IH [of e1] Cons.prems by (meson list.set_intros(2))
  ultimately show ?case
    by (cases "field_accepts J custom_ok r f") auto
qed

text \<open>
  The contract of a schema, which the handlers' contexts provide: on values that pass the type
  check its custom validators do not crash and decide \<open>custom_ok\<close>, and on payloads whose fields are all
  accepted its global validator does not crash and decides \<open>global_ok\<close>. The validators are called with
  an error buffer and rely on the documented behaviour of json-c strings.
\<close>

locale schema_contract =
  fixes J :: "('j, 'y) json_c_scheme"
    and ctx :: "'j ValidationContext"
    and custom_ok :: "'j FieldValidator \<Rightarrow> 'j \<Rightarrow> bool"
    and global_ok :: "'j \<Rightarrow> bool"
  assumes custom_decides: "json_strings_ok J \<Longrightarrow> f \<in> set (schema ctx) \<Longrightarrow> custom_validator f = Some g \<Longrightarrow>
      type_accepts J f v \<Longrightarrow> \<exists>e'. g (Some v) (Some e) n = Some (custom_ok f v, Some e')"
    and custom_absent: "f \<in> set (schema ctx) \<Longrightarrow> custom_validator f = None \<Longrightarrow> custom_ok f v"
    and global_decides: "json_strings_ok J \<Longrightarrow> global_validator ctx = Some h \<Longrightarrow>
      (\<forall>f \<in> set (schema ctx). field_accepts J custom_ok r f) \<Longrightarrow>
      \<exists>e'. h (Some r) (Some e) n = Some (global_ok r, Some e')"
    and global_absent: "global_validator ctx = None \<Longrightarrow> global_ok r"
begin

text \<open>The engine neither crashes nor errs: its verdict is the conjunction of the declared constraints.\<close>

lemma validate_decides:
  assumes "json_strings_ok J" "0 < n"
  shows "\<exists>e'. validate_json J (Some ctx) (Some r) (Some e) n =
     Some (json_object_is_type J (Some r) json_type_object \<and>
       (\<forall>f \<in> set (schema ctx). field_accepts J custom_ok r f) \<and> global_ok r, Some e')"
proof -
  obtain e1 where f: "validate_fields J (Some r) (schema ctx) (Some e) n =
      Some (\<forall>f \<in> set (schema ctx). field_accepts J custom_ok r f, Some e1)"
    using validate_fields_spec [OF assms(1), of "schema ctx" n custom_ok r e]
      custom_decides [OF assms(1)] custom_absent by meson
  show ?thesis
  proof (cases "\<forall>f \<in> set (schema ctx). field_accepts J custom_ok r f")
    case True
    show ?thesis
    proof (cases "global_validator ctx")
      case None
      with True f assms(2) global_absent show ?thesis
        by (simp add: validate_json_def)
    next
      case (Some h)
      with True f assms(2) global_decides [OF assms(1) Some True, of e1 n] show ?thesis
        by (auto simp: validate_json_def)
    qed
  next
    case False
    then have "(\<forall>f \<in> set (schema ctx). field_accepts J custom_ok r f) = False"
      by simp
    with f assms(2) show ?thesis
      by (simp add: validate_json_def)
  qed
qed

end



section \<open>Properties\<close>

text \<open>The string validator is exact: a string field with a maximum is accepted exactly when its number
  of UTF-8 characters is within the maximum, for every maximum a \<open>size_t\<close> can hold; the comparison of byte
  lengths, made on \<open>int\<close>s, never changes the verdict.\<close>

theorem validate_type_string_exact:
  assumes "json_strings_ok J" "json_object_is_type J (Some v) json_type_string"
  shows "fst (validate_type_string J (Some v) f err len) \<longleftrightarrow>
     (max_len f = 0 \<or> utf8_strlen (the (json_object_get_string J (Some v))) \<le> max_len f)"
  using validate_type_string_spec [OF assms, of f err len] by auto

theorem validate_type_string_exact_witness:
  "json_strings_ok ref_json \<and> json_object_is_type ref_json (Some (JString ''ab'')) json_type_string \<and>
   (fst (validate_type_string ref_json (Some (JString ''ab''))
      \<lparr>field_name = ''x'', custom_validator = None, min_bits = 0, max_bits = 1, field_type = 2,
       is_required = True, has_min = False, has_max = False\<rparr> (Some []) 64) \<longleftrightarrow> False)"
proof -
  have t: "json_object_is_type ref_json (Some (JString ''ab'')) json_type_string"
    by (simp add: ref_json_def)
  have "utf8_strlen (the (json_object_get_string ref_json (Some (JString ''ab'')))) = 2"
    by (simp add: ref_json_def c_str_def)
  with validate_type_string_exact [OF ref_json_strings t,
      of "\<lparr>field_name = ''x'', custom_validator = None, min_bits = 0, max_bits = 1, field_type = 2,
       is_required = True, has_min = False, has_max = False\<rparr>" "Some []" 64] ref_json_strings t
  show ?thesis
    by (simp add: max_len_def)
qed

lemma validate_field_sound:
  assumes "json_strings_ok J" "validate_field J (Some r) f err n = Some (True, e')"
  shows "field_accepts J (\<lambda>_ _. True) r f"
proof (cases "\<exists>v. json_object_object_get_ex J (Some r) (field_name f) = Some (Some v)")
  case False
  then show ?thesis
    using assms(2) by (auto simp: validate_field_def field_accepts_def emit_error_def split: option.splits if_splits)
next
  case True
  then obtain v where get: "json_object_object_get_ex J (Some r) (field_name f) = Some (Some v)"
    by blast
  obtain ok e1 where t: "(TYPE_VALIDATOR_MAP J ! field_type f) (Some v) f err n = (ok, e1)"
    by fastforce
  have "\<not> (is_required f \<and> check_field_empty J (Some v))" "field_type f < TYPE_MAX_TYPES" "ok"
    using assms(2) get t by (auto simp: validate_field_def emit_error_def split: if_splits bool.splits)
  moreover from this have "type_accepts J f v"
    using type_validators_spec [OF assms(1), of f v err n] t by simp
  ultimately show ?thesis
    using get by (simp add: field_accepts_def)
qed

lemma validate_fields_sound:
  assumes "json_strings_ok J"
  shows "validate_fields J (Some r) fs err n = Some (True, e') \<Longrightarrow> f \<in> set fs \<Longrightarrow> field_accepts J (\<lambda>_ _. True) r f"
proof (induction fs arbitrary: err)
  case (Cons g fs)
  then show ?case
    using validate_field_sound [OF assms, of r g err n] by (auto split: option.splits prod.splits bool.splits)
qed simp

lemma validate_json_accepts:
  assumes "json_strings_ok J" "validate_json J (Some c) (Some r) (Some e) n = Some (True, e')"
  shows "json_object_is_type J (Some r) json_type_object \<and>
     (\<forall>f \<in> set (schema c). field_accepts J (\<lambda>_ _. True) r f)"
  using assms(2) validate_fields_sound [OF assms(1), of r "schema c" "Some e" n]
  by (auto simp: validate_json_def split: if_splits option.splits prod.splits bool.splits)

text \<open>C19: whatever the custom validators do, a payload that \<open>validate_json\<close> accepts is a JSON object in
  which every field of the schema meets its declared constraints: a required field is there and not empty;
  a field that is there and not null has its type, its integer or floating-point range, its maximal number of
  characters, or is an existing date.\<close>

theorem validate_json_sound:
  assumes "json_strings_ok J" "validate_json J (Some c) (Some r) (Some e) n = Some (True, e')"
  shows "json_object_is_type J (Some r) json_type_object \<and>
     (\<forall>f \<in> set (schema c). field_accepts J (\<lambda>_ _. True) r f)"
  using assms by (rule validate_json_accepts)

end
