(* ===== verification/Schemas.thy ===== *)
theory Schemas
  imports Validation
begin

text \<open>
  The payload schemas of \<open>src/handlers.c\<close> with their custom and global validators, each shown to meet
  the schema contract of the validation engine: the validators never dereference a null pointer on
  the payloads the engine hands them, and the verdict on a payload is the one the schema declares.
\<close>

section \<open>Custom validators\<close>

definition reject :: "cstring_ptr \<Rightarrow> nat \<Rightarrow> string \<Rightarrow> verdict" where
  "reject err_buf err_len text = map_option (Pair False) (snprintf_to err_buf err_len text)"

definition customer_id_validator :: "('j, 'y) json_c_scheme \<Rightarrow> 'j CustomValidatorFunc" where
  "customer_id_validator J obj err_buf err_len =
     (case json_object_get_string J obj of
        None \<Rightarrow> reject err_buf err_len (''Invalid customer ID format: '' @ ''null'')
      | Some customer_id \<Rightarrow>
          if length customer_id \<noteq> 5 then reject err_buf err_len (''Invalid customer ID format: '' @ customer_id)
          else if \<exists>i \<in> set [0..<5]. \<not> isalpha (customer_id ! i)
          then reject err_buf err_len (''Invalid customer ID character: '' @ customer_id)
          else Some (True, err_buf))"

definition sales_invariant_validator :: "('j, 'y) json_c_scheme \<Rightarrow> 'j CustomValidatorFunc" where
  "sales_invariant_validator J root_obj err_buf err_len =
     (case (json_get_string J root_obj ''start_date'', json_get_string J root_obj ''end_date'') of
        (Some start_str, Some end_str) \<Rightarrow>
          if strcmp start_str end_str \<ge> 0
          then reject err_buf err_len ''Start date must strictly precede end date''
          else Some (True, err_buf)
      | _ \<Rightarrow> None)"

text \<open>\<open>(int)strtol(date_str, nullptr, 10)\<close>.\<close>

definition strtol_int :: "cstring \<Rightarrow> int" where
  "strtol_int s = sint (word_of_int (fst (strtol s)) :: 32 word)"

definition validate_sales_start_date :: "('j, 'y) json_c_scheme \<Rightarrow> 'j CustomValidatorFunc" where
  "validate_sales_start_date J obj err_buf err_len =
     (case json_object_get_string J obj of
        None \<Rightarrow> None
      | Some date_str \<Rightarrow>
          if strtol_int date_str \<le> 1993
          then reject err_buf err_len ''Start date is too early (min 1994)''
          else Some (True, err_buf))"

definition validate_sales_end_date :: "('j, 'y) json_c_scheme \<Rightarrow> 'j CustomValidatorFunc" where
  "validate_sales_end_date J obj err_buf err_len =
     (case json_object_get_string J obj of
        None \<Rightarrow> None
      | Some date_str \<Rightarrow>
          if strtol_int date_str \<ge> 1997
          then reject err_buf err_len ''End date is too late (max 1996)''
          else Some (True, err_buf))"

definition totp_custom_validator :: "('j, 'y) json_c_scheme \<Rightarrow> 'j CustomValidatorFunc" where
  "totp_custom_validator J obj err_buf err_len =
     (case json_object_get_string J obj of
        None \<Rightarrow> reject err_buf err_len (field_message (Some ''totp'') '' must be exactly 6 characters.'')
      | Some totp \<Rightarrow>
          if length totp \<noteq> 6
          then reject err_buf err_len (field_message (Some ''totp'') '' must be exactly 6 characters.'')
          else if \<exists>i \<in> set [0..<6]. \<not> isdigit (totp ! i)
          then reject err_buf err_len (field_message (Some ''totp'') '' must contain only digits.'')
          else Some (True, err_buf))"


section \<open>Schemas\<close>

text \<open>A field initialised with zero bytes, on which the designated initialisers build.\<close>

definition zero_field :: "'j FieldValidator" where
  "zero_field = \<lparr>field_name = '''', custom_validator = None, min_bits = 0, max_bits = 0,
     field_type = 0, is_required = False, has_min = False, has_max = False\<rparr>"

definition string_field :: "cstring \<Rightarrow> bool \<Rightarrow> 64 word \<Rightarrow> 'j FieldValidator" where
  "string_field name required maximum = zero_field
     \<lparr>field_name := name, field_type := TYPE_STRING, is_required := required, max_bits := maximum\<rparr>"

definition CustomerSchema :: "('j, 'y) json_c_scheme \<Rightarrow> 'j FieldValidator list" where
  "CustomerSchema J = [(string_field ''id'' True 5)\<lparr>custom_validator := Some (customer_id_validator J)\<rparr>]"

definition CustomerContext :: "('j, 'y) json_c_scheme \<Rightarrow> 'j ValidationContext" where
  "CustomerContext J = \<lparr>schema = CustomerSchema J, global_validator = None\<rparr>"

definition SalesSchema :: "('j, 'y) json_c_scheme \<Rightarrow> 'j FieldValidator list" where
  "SalesSchema J =
     [zero_field\<lparr>field_name := ''start_date'', field_type := TYPE_DATE, is_required := True,
        custom_validator := Some (validate_sales_start_date J)\<rparr>,
      zero_field\<lparr>field_name := ''end_date'', field_type := TYPE_DATE, is_required := True,
        custom_validator := Some (validate_sales_end_date J)\<rparr>]"

definition SalesContext :: "('j, 'y) json_c_scheme \<Rightarrow> 'j ValidationContext" where
  "SalesContext J = \<lparr>schema = SalesSchema J, global_validator = Some (sales_invariant_validator J)\<rparr>"

definition VerifyTotpSchema :: "('j, 'y) json_c_scheme \<Rightarrow> 'j FieldValidator list" where
  "VerifyTotpSchema J = [(string_field ''totp'' True 6)\<lparr>custom_validator := Some (totp_custom_validator J)\<rparr>]"

definition VerifyTotpContext :: "('j, 'y) json_c_scheme \<Rightarrow> 'j ValidationContext" where
  "VerifyTotpContext J = \<lparr>schema = VerifyTotpSchema J, global_validator = None\<rparr>"

definition LoginSchema :: "'j FieldValidator list" where
  "LoginSchema = [string_field ''username'' True 32, string_field ''password'' True 32]"

definition LoginContext :: "'j ValidationContext" where
  "LoginContext = \<lparr>schema = LoginSchema, global_validator = None\<rparr>"

definition EmployeeSchema :: "'j FieldValidator list" where
  "EmployeeSchema =
     [zero_field\<lparr>field_name := ''id'', field_type := TYPE_INT, is_required := True,
        has_min := True, min_bits := 1, has_max := True, max_bits := 9\<rparr>]"

definition EmployeeContext :: "'j ValidationContext" where
  "EmployeeContext = \<lparr>schema = EmployeeSchema, global_validator = None\<rparr>"

text \<open>The schema of the endpoints that take a positive number.\<close>

definition positive_field :: "cstring \<Rightarrow> 'j FieldValidator" where
  "positive_field name = zero_field
     \<lparr>field_name := name, field_type := TYPE_INT, is_required := True, has_min := True, min_bits := 1\<rparr>"

definition ProdgetSchema :: "'j FieldValidator list" where
  "ProdgetSchema = [positive_field ''id'']"

definition ProdgetContext :: "'j ValidationContext" where
  "ProdgetContext = \<lparr>schema = ProdgetSchema, global_validator = None\<rparr>"

definition SupplierSchema :: "'j FieldValidator list" where
  "SupplierSchema = [positive_field ''id'']"

definition SupplierContext :: "'j ValidationContext" where
  "SupplierContext = \<lparr>schema = SupplierSchema, global_validator = None\<rparr>"

definition CustomersSchema :: "'j FieldValidator list" where
  "CustomersSchema = [string_field ''filter'' False 10]"

definition CustomersContext :: "'j ValidationContext" where
  "CustomersContext = \<lparr>schema = CustomersSchema, global_validator = None\<rparr>"

definition UploadSchema :: "'j FieldValidator list" where
  "UploadSchema =
     [string_field ''filename'' True 250, string_field ''content_type'' True 250,
      string_field ''title'' True 250, string_field ''blob'' True 0]"

definition UploadContext :: "'j ValidationContext" where
  "UploadContext = \<lparr>schema = UploadSchema, global_validator = None\<rparr>"

definition GastoSchema :: "'j FieldValidator list" where
  "GastoSchema = [positive_field ''id'']"

definition GastoContext :: "'j ValidationContext" where
  "GastoContext = \<lparr>schema = GastoSchema, global_validator = None\<rparr>"

definition DummySchema :: "'j FieldValidator list" where
  "DummySchema = [zero_field\<lparr>field_name := ''id'', field_type := TYPE_INT, is_required := True\<rparr>]"

definition DummyContext :: "'j ValidationContext" where
  "DummyContext = \<lparr>schema = DummySchema, global_validator = None\<rparr>"

definition CoordinatorSchema :: "('j, 'y) json_c_scheme \<Rightarrow> 'j FieldValidator list" where
  "CoordinatorSchema J =
     [positive_field ''gasto_id'',
      (string_field ''customer_id'' True 5)\<lparr>custom_validator := Some (customer_id_validator J)\<rparr>]"

definition CoordinatorContext :: "('j, 'y) json_c_scheme \<Rightarrow> 'j ValidationContext" where
  "CoordinatorContext J = \<lparr>schema = CoordinatorSchema J, global_validator = None\<rparr>"

named_theorems schema_defs \<open>definitions of the payload schemas\<close>

lemmas [schema_defs] = zero_field_def string_field_def positive_field_def
  CustomerSchema_def CustomerContext_def SalesSchema_def SalesContext_def
  VerifyTotpSchema_def VerifyTotpContext_def LoginSchema_def LoginContext_def
  EmployeeSchema_def EmployeeContext_def ProdgetSchema_def ProdgetContext_def
  SupplierSchema_def SupplierContext_def CustomersSchema_def CustomersContext_def
  UploadSchema_def UploadContext_def GastoSchema_def GastoContext_def
  DummySchema_def DummyContext_def CoordinatorSchema_def CoordinatorContext_def


section \<open>The validators decide\<close>

lemma reject_decides [simp]: "\<exists>e'. reject (Some e) n text = Some (False, Some e')"
  by (simp add: reject_def snprintf_to_def)

lemma reject_chain:
  "\<exists>e'. (if A then reject (Some e) n t else if B then reject (Some e) n u else Some (True, Some e)) =
     Some (\<not> A \<and> \<not> B, Some e')"
  by (cases A; cases B) simp_all

lemma all_nth_set: "n = length s \<Longrightarrow> (\<exists>i \<in> set [0..<n]. \<not> P (s ! i)) \<longleftrightarrow> \<not> (\<forall>c \<in> set s. P c)"
  by (auto simp: all_set_conv_all_nth)

definition customer_id_ok :: "cstring \<Rightarrow> bool" where
  "customer_id_ok s \<longleftrightarrow> length s = 5 \<and> (\<forall>c \<in> set s. isalpha c)"

definition totp_ok :: "cstring \<Rightarrow> bool" where
  "totp_ok s \<longleftrightarrow> length s = 6 \<and> (\<forall>c \<in> set s. isdigit c)"

lemma customer_id_validator_decides:
  assumes "json_object_get_string J obj = Some s"
  shows "\<exists>e'. customer_id_validator J obj (Some e) n = Some (customer_id_ok s, Some e')"
proof -
  have "customer_id_ok s \<longleftrightarrow> \<not> length s \<noteq> 5 \<and> \<not> (\<exists>i \<in> set [0..<5]. \<not> isalpha (s ! i))"
    using all_nth_set [of 5 s isalpha] by (auto simp: customer_id_ok_def)
  with reject_chain show ?thesis
    by (simp only: customer_id_validator_def assms option.case)
qed

lemma totp_custom_validator_decides:
  assumes "json_object_get_string J obj = Some s"
  shows "\<exists>e'. totp_custom_validator J obj (Some e) n = Some (totp_ok s, Some e')"
proof -
  have "totp_ok s \<longleftrightarrow> \<not> length s \<noteq> 6 \<and> \<not> (\<exists>i \<in> set [0..<6]. \<not> isdigit (s ! i))"
    using all_nth_set [of 6 s isdigit] by (auto simp: totp_ok_def)
  with reject_chain show ?thesis
    by (simp only: totp_custom_validator_def assms option.case)
qed


lemma digits_value_two_digits: "v < 100 \<Longrightarrow> digits_value (two_digits v @ s) acc = digits_value s (100 * acc + v)"
  by (simp add: two_digits_def less_mult_imp_div_less add.commute)

lemma strtol_iso_date:
  assumes "date_year d < 10000"
  shows "strtol_int (iso_date d) = int (date_year d)"
proof -
  define y where "y = two_digits (date_year d div 100) @ two_digits (date_year d mod 100)"
  have "date_year d div 100 < 100"
    using assms by (simp add: less_mult_imp_div_less)
  then have dig: "\<forall>c \<in> set y. isdigit c" and val: "digits_value y 0 = date_year d"
    using digits_value_two_digits [of "date_year d mod 100" "[]"]
    by (auto simp: y_def two_digits_def less_mult_imp_div_less digits_value_two_digits)
  obtain c cs where y: "y = c # cs"
    by (auto simp: y_def two_digits_def)
  have iso: "iso_date d = y @ CHR ''-'' # (two_digits (date_month d) @ [CHR ''-''] @ two_digits (date_day d))"
    by (simp add: iso_date_def y_def)
  have c: "isdigit c"
    using dig y by simp
  then have "\<not> isspace c" "c \<noteq> CHR ''-''" "c \<noteq> CHR ''+''"
    by (auto simp: isdigit_not_space isdigit_def)
  moreover have "takeWhile isdigit (iso_date d) = y"
    unfolding iso using dig by (subst takeWhile_append2) (auto simp: isdigit_def)
  ultimately have "fst (scan_int (iso_date d)) = False" "fst (snd (scan_int (iso_date d))) = date_year d"
    using iso y val by (simp_all add: scan_int_def Let_def)
  then have "fst (strtol (iso_date d)) = int (date_year d)"
    using assms by (auto simp: strtol_def Let_def split: prod.splits)
  then show ?thesis
    using assms sint_word_of_int_range [where 'a = 32, of "int (date_year d)"] by (simp add: strtol_int_def)
qed

text \<open>Schemas without validators of their own.\<close>

lemma plain_schema_contract:
  assumes "\<forall>f \<in> set (schema c). custom_validator f = None" "global_validator c = None"
  shows "schema_contract J c (\<lambda>_ _. True) (\<lambda>_. True)"
  using assms by unfold_locales auto

interpretation login: schema_contract J LoginContext "\<lambda>_ _. True" "\<lambda>_. True" for J
  by (rule plain_schema_contract) (simp_all add: schema_defs)

interpretation employee: schema_contract J EmployeeContext "\<lambda>_ _. True" "\<lambda>_. True" for J
  by (rule plain_schema_contract) (simp_all add: schema_defs)

interpretation prodget: schema_contract J ProdgetContext "\<lambda>_ _. True" "\<lambda>_. True" for J
  by (rule plain_schema_contract) (simp_all add: schema_defs)

interpretation supplier: schema_contract J SupplierContext "\<lambda>_ _. True" "\<lambda>_. True" for J
  by (rule plain_schema_contract) (simp_all add: schema_defs)

interpretation customers: schema_contract J CustomersContext "\<lambda>_ _. True" "\<lambda>_. True" for J
  by (rule plain_schema_contract) (simp_all add: schema_defs)

interpretation upload: schema_contract J UploadContext "\<lambda>_ _. True" "\<lambda>_. True" for J
  by (rule plain_schema_contract) (simp_all add: schema_defs)

interpretation gasto: schema_contract J GastoContext "\<lambda>_ _. True" "\<lambda>_. True" for J
  by (rule plain_schema_contract) (simp_all add: schema_defs)

interpretation dummy: schema_contract J DummyContext "\<lambda>_ _. True" "\<lambda>_. True" for J
  by (rule plain_schema_contract) (simp_all add: schema_defs)

text \<open>Schemas whose string fields have the customer identifier or one-time password validator.\<close>

lemma type_accepts_string:
  assumes "json_strings_ok J" "field_type f = TYPE_STRING" "type_accepts J f v"
  obtains s where "json_object_get_string J (Some v) = Some s"
  using assms by (auto simp: type_accepts_def field_type_defs json_strings_ok_def)

definition customer_custom_ok :: "('j, 'y) json_c_scheme \<Rightarrow> 'j FieldValidator \<Rightarrow> 'j \<Rightarrow> bool" where
  "customer_custom_ok J f v \<longleftrightarrow>
     (custom_validator f = None \<or> customer_id_ok (the (json_object_get_string J (Some v))))"

interpretation customer: schema_contract J "CustomerContext J" "customer_custom_ok J" "\<lambda>_. True" for J
proof unfold_locales
  fix f g v e n
  assume *: "json_strings_ok J" "f \<in> set (schema (CustomerContext J))" "custom_validator f = Some g" "type_accepts J f v"
  then have "field_type f = TYPE_STRING" "g = customer_id_validator J"
    by (auto simp: schema_defs)
  with * show "\<exists>e'. g (Some v) (Some e) n = Some (customer_custom_ok J f v, Some e')"
    by (elim type_accepts_string) (auto simp: customer_custom_ok_def customer_id_validator_decides)
qed (auto simp: schema_defs)

interpretation coordinator: schema_contract J "CoordinatorContext J" "customer_custom_ok J" "\<lambda>_. True" for J
proof unfold_locales
  fix f g v e n
  assume *: "json_strings_ok J" "f \<in> set (schema (CoordinatorContext J))" "custom_validator f = Some g" "type_accepts J f v"
  then have "field_type f = TYPE_STRING" "g = customer_id_validator J"
    by (auto simp: schema_defs)
  with * show "\<exists>e'. g (Some v) (Some e) n = Some (customer_custom_ok J f v, Some e')"
    by (elim type_accepts_string) (auto simp: customer_custom_ok_def customer_id_validator_decides)
qed (auto simp: schema_defs customer_custom_ok_def)


definition totp_field_ok :: "('j, 'y) json_c_scheme \<Rightarrow> 'j FieldValidator \<Rightarrow> 'j \<Rightarrow> bool" where
  "totp_field_ok J f v \<longleftrightarrow> totp_ok (the (json_object_get_string J (Some v)))"

interpretation verifytotp: schema_contract J "VerifyTotpContext J" "totp_field_ok J" "\<lambda>_. True" for J
proof unfold_locales
  fix f g v e n
  assume *: "json_strings_ok J" "f \<in> set (schema (VerifyTotpContext J))" "custom_validator f = Some g" "type_accepts J f v"
  then have "field_type f = TYPE_STRING" "g = totp_custom_validator J"
    by (auto simp: schema_defs)
  with * show "\<exists>e'. g (Some v) (Some e) n = Some (totp_field_ok J f v, Some e')"
    by (elim type_accepts_string) (auto simp: totp_field_ok_def totp_custom_validator_decides)
qed (auto simp: schema_defs)


section \<open>Sales queries\<close>

definition sales_date_ok :: "('j, 'y) json_c_scheme \<Rightarrow> 'j FieldValidator \<Rightarrow> 'j \<Rightarrow> bool" where
  "sales_date_ok J f v \<longleftrightarrow>
     (let y = date_year (date_fields (the (json_object_get_string J (Some v))))
      in if field_name f = ''start_date'' then 1994 \<le> y else y \<le> 1996)"

definition sales_range_ok :: "('j, 'y) json_c_scheme \<Rightarrow> 'j \<Rightarrow> bool" where
  "sales_range_ok J r \<longleftrightarrow>
     strcmp (the (json_get_string J (Some r) ''start_date'')) (the (json_get_string J (Some r) ''end_date'')) < 0"

lemma type_accepts_date:
  assumes "field_type f = TYPE_DATE" "type_accepts J f v"
  obtains d where "supported_date d" "json_object_get_string J (Some v) = Some (iso_date d)"
  using assms by (auto simp: type_accepts_def field_type_defs)

lemma sales_dates_decide:
  assumes "supported_date d" "json_object_get_string J (Some v) = Some (iso_date d)"
  shows "\<exists>e'. validate_sales_start_date J (Some v) (Some e) n = Some (1994 \<le> date_year d, Some e')"
    and "\<exists>e'. validate_sales_end_date J (Some v) (Some e) n = Some (date_year d \<le> 1996, Some e')"
  using assms supported_date_small [OF assms(1)] strtol_iso_date [of d]
  by (auto simp: validate_sales_start_date_def validate_sales_end_date_def)

text \<open>The payload has a member that is a string with the given text.\<close>

definition string_member :: "('j, 'y) json_c_scheme \<Rightarrow> 'j \<Rightarrow> cstring \<Rightarrow> cstring \<Rightarrow> bool" where
  "string_member J r key s \<longleftrightarrow>
     (\<exists>v. json_object_object_get_ex J (Some r) key = Some (Some v) \<and>
        json_object_is_type J (Some v) json_type_string \<and> json_object_get_string J (Some v) = Some s)"

lemma string_member_get: "string_member J r key s \<Longrightarrow> json_get_string J (Some r) key = Some s"
  by (auto simp: string_member_def json_get_string_def)

lemma date_fields_iso [simp]: "supported_date d \<Longrightarrow> date_fields (iso_date d) = d"
  using supported_date_small date_shaped_iso by blast

lemma iso_date_inject [simp]: "supported_date a \<Longrightarrow> supported_date b \<Longrightarrow> iso_date a = iso_date b \<longleftrightarrow> a = b"
  by (metis date_fields_iso)

lemma iso_date_nonempty [simp]: "iso_date d \<noteq> []"
  by (simp add: iso_date_def two_digits_def)

lemma sales_field_iff:
  assumes "f \<in> set (SalesSchema J)"
  shows "field_accepts J (sales_date_ok J) r f \<longleftrightarrow>
     (\<exists>d. supported_date d \<and> string_member J r (field_name f) (iso_date d) \<and>
        (if field_name f = ''start_date'' then 1994 \<le> date_year d else date_year d \<le> 1996))"
proof -
  have f: "is_required f" "field_type f = TYPE_DATE"
    using assms by (auto simp: schema_defs)
  show ?thesis
  proof (cases "\<exists>v. json_object_object_get_ex J (Some r) (field_name f) = Some (Some v)")
    case True
    then obtain v where get: "json_object_object_get_ex J (Some r) (field_name f) = Some (Some v)"
      by blast
    have "type_accepts J f v \<longleftrightarrow> json_object_is_type J (Some v) json_type_string \<and>
        (\<exists>d. supported_date d \<and> json_object_get_string J (Some v) = Some (iso_date d))"
      using f by (auto simp: type_accepts_def field_type_defs)
    with get f show ?thesis
      by (auto simp: field_accepts_def string_member_def sales_date_ok_def check_field_empty_def Let_def)
  next
    case False
    with f show ?thesis
      by (auto simp: field_accepts_def string_member_def split: option.splits)
  qed
qed

lemma sales_fields_iff:
  "(\<forall>f \<in> set (SalesSchema J). field_accepts J (sales_date_ok J) r f) \<longleftrightarrow>
     (\<exists>a b. supported_date a \<and> supported_date b \<and> 1994 \<le> date_year a \<and> date_year b \<le> 1996 \<and>
        string_member J r ''start_date'' (iso_date a) \<and> string_member J r ''end_date'' (iso_date b))"
proof -
  have "(\<forall>f \<in> set (SalesSchema J). field_accepts J (sales_date_ok J) r f) \<longleftrightarrow>
     (\<forall>f \<in> set (SalesSchema J). \<exists>d. supported_date d \<and> string_member J r (field_name f) (iso_date d) \<and>
        (if field_name f = ''start_date'' then 1994 \<le> date_year d else date_year d \<le> 1996))"
    by (intro ball_cong refl sales_field_iff)
  also have "\<dots> \<longleftrightarrow> (\<exists>a. supported_date a \<and> string_member J r ''start_date'' (iso_date a) \<and> 1994 \<le> date_year a) \<and>
     (\<exists>b. supported_date b \<and> string_member J r ''end_date'' (iso_date b) \<and> date_year b \<le> 1996)"
    by (simp add: schema_defs)
  finally show ?thesis by blast
qed

interpretation sales: schema_contract J "SalesContext J" "sales_date_ok J" "sales_range_ok J" for J
proof unfold_locales
  fix f g v e n
  assume *: "f \<in> set (schema (SalesContext J))" "custom_validator f = Some g" "type_accepts J f v"
  then have "field_type f = TYPE_DATE"
    by (auto simp: schema_defs)
  with * obtain d where d: "supported_date d" "json_object_get_string J (Some v) = Some (iso_date d)"
    by (elim type_accepts_date)
  with * show "\<exists>e'. g (Some v) (Some e) n = Some (sales_date_ok J f v, Some e')"
    using sales_dates_decide [OF d] by (auto simp: schema_defs sales_date_ok_def)
next
  fix h r e n
  assume h: "global_validator (SalesContext J) = Some h"
    and "\<forall>f \<in> set (schema (SalesContext J)). field_accepts J (sales_date_ok J) r f"
  then obtain a b where "json_get_string J (Some r) ''start_date'' = Some (iso_date a)"
      "json_get_string J (Some r) ''end_date'' = Some (iso_date b)"
    using sales_fields_iff [of J r] string_member_get by (fastforce simp: SalesContext_def)
  with h show "\<exists>e'. h (Some r) (Some e) n = Some (sales_range_ok J r, Some e')"
    by (auto simp: SalesContext_def sales_invariant_validator_def sales_range_ok_def)
qed (auto simp: schema_defs)


section \<open>Properties\<close>

text \<open>C9: the sales schema, with its two date validators and its range validator, never dereferences a
  null pointer, and accepts a payload exactly when it is an object whose \<open>start_date\<close> and \<open>end_date\<close> are strings
  that write existing days, the first in 1994 or later, the second in 1996 or earlier, the first strictly
  before the second in time.\<close>

theorem sales_payload:
  assumes "json_strings_ok J" "0 < n"
  shows "\<exists>e'. validate_json J (Some (SalesContext J)) (Some r) (Some e) n =
     Some (json_object_is_type J (Some r) json_type_object \<and>
       (\<exists>a b. supported_date a \<and> supported_date b \<and> 1994 \<le> date_year a \<and> date_year b \<le> 1996 \<and>
          string_member J r ''start_date'' (iso_date a) \<and> string_member J r ''end_date'' (iso_date b) \<and>
          day_number a < day_number b), Some e')"
proof -
  have range: "sales_range_ok J r \<longleftrightarrow> day_number a < day_number b"
    if "supported_date a" "supported_date b" "string_member J r ''start_date'' (iso_date a)"
      "string_member J r ''end_date'' (iso_date b)" for a b
    using strcmp_iso_date [of a b] supported_date_small [OF that(1)] supported_date_small [OF that(2)]
      day_number_less_iff [of a b] string_member_get [OF that(3)] string_member_get [OF that(4)]
    by (auto simp: sales_range_ok_def)
  have sch: "schema (SalesContext J) = SalesSchema J"
    by (simp add: SalesContext_def)
  have eq: "(\<forall>f \<in> set (schema (SalesContext J)). field_accepts J (sales_date_ok J) r f) \<and> sales_range_ok J r \<longleftrightarrow>
     (\<exists>a b. supported_date a \<and> supported_date b \<and> 1994 \<le> date_year a \<and> date_year b \<le> 1996 \<and>
        string_member J r ''start_date'' (iso_date a) \<and> string_member J r ''end_date'' (iso_date b) \<and>
        day_number a < day_number b)"
    unfolding sch sales_fields_iff using range by blast
  show ?thesis
    using sales.validate_decides [OF assms, of r e] by (simp only: eq)
qed


definition sample_sales :: jvalue where
  "sample_sales = JObject [(''start_date'', Some (JString ''1995-12-31'')), (''end_date'', Some (JString ''1996-02-29''))]"

lemma sample_sales_supported:
  "supported_date (date_fields ''1995-12-31'')" "supported_date (date_fields ''1996-02-29'')"
  by (simp_all add: date_eval)

lemma sample_sales_iso:
  "iso_date (date_fields ''1995-12-31'') = ''1995-12-31''" "iso_date (date_fields ''1996-02-29'') = ''1996-02-29''"
  by (rule iso_date_fields, simp add: date_eval)+

lemma sample_sales_members:
  "string_member ref_json sample_sales ''start_date'' ''1995-12-31''"
  "string_member ref_json sample_sales ''end_date'' ''1996-02-29''"
  by (simp_all add: string_member_def sample_sales_def ref_json_def c_str_def)

theorem sales_payload_witness:
  "\<exists>e'. validate_json ref_json (Some (SalesContext ref_json)) (Some sample_sales) (Some []) 256 = Some (True, Some e')"
proof -
  have "day_number (date_fields ''1995-12-31'') < day_number (date_fields ''1996-02-29'')"
    using sample_sales_supported supported_date_small
    by (subst day_number_less_iff) (auto simp: less_date_def date_fields_def digit_val_def)
  moreover have "1994 \<le> date_year (date_fields ''1995-12-31'')" "date_year (date_fields ''1996-02-29'') \<le> 1996"
    by (simp_all add: date_fields_def digit_val_def)
  moreover have "json_object_is_type ref_json (Some sample_sales) json_type_object"
    by (simp add: ref_json_def sample_sales_def)
  ultimately have "(json_object_is_type ref_json (Some sample_sales) json_type_object \<and>
      (\<exists>a b. supported_date a \<and> supported_date b \<and> 1994 \<le> date_year a \<and> date_year b \<le> 1996 \<and>
         string_member ref_json sample_sales ''start_date'' (iso_date a) \<and>
         string_member ref_json sample_sales ''end_date'' (iso_date b) \<and> day_number a < day_number b)) = True"
    using sample_sales_supported sample_sales_members
    by (intro iffD2 [OF eq_True] conjI exI [of _ "date_fields ''1995-12-31''"] exI [of _ "date_fields ''1996-02-29''"])
       (simp_all only: sample_sales_iso)
  then show ?thesis
    using sales_payload [OF ref_json_strings zero_less_numeral, where r = sample_sales and e = "[]"] by (simp only:)
qed

lemma customer_field_iff:
  assumes "f \<in> set (CustomerSchema J)" "json_strings_ok J"
  shows "field_accepts J (customer_custom_ok J) r f \<longleftrightarrow>
     (\<exists>s. string_member J r (field_name f) s \<and> length s = 5 \<and> (\<forall>c \<in> set s. isalpha c))"
proof -
  have f: "is_required f" "field_type f = TYPE_STRING" "max_len f = 5" "custom_validator f \<noteq> None"
    using assms by (auto simp: schema_defs max_len_def)
  show ?thesis
  proof (cases "\<exists>v. json_object_object_get_ex J (Some r) (field_name f) = Some (Some v)")
    case True
    then obtain v where get: "json_object_object_get_ex J (Some r) (field_name f) = Some (Some v)"
      by blast
    have "type_accepts J f v \<longleftrightarrow> json_object_is_type J (Some v) json_type_string \<and>
        (\<exists>s. json_object_get_string J (Some v) = Some s \<and> utf8_strlen s \<le> 5)"
      using f assms(2) by (auto simp: type_accepts_def field_type_defs elim!: json_string_value)
    moreover have "field_accepts J (customer_custom_ok J) r f \<longleftrightarrow> \<not> check_field_empty J (Some v) \<and> type_accepts J f v \<and>
        customer_id_ok (the (json_object_get_string J (Some v)))"
      using get f by (auto simp: field_accepts_def customer_custom_ok_def)
    moreover have "string_member J r (field_name f) s \<longleftrightarrow>
        json_object_is_type J (Some v) json_type_string \<and> json_object_get_string J (Some v) = Some s" for s
      using get by (simp add: string_member_def)
    moreover have "length s = 5 \<Longrightarrow> utf8_strlen s \<le> 5" for s
      using utf8_strlen_le [of s] by simp
    ultimately show ?thesis
      by (auto simp: customer_id_ok_def check_field_empty_def)
  next
    case False
    with f show ?thesis
      by (auto simp: field_accepts_def string_member_def split: option.splits)
  qed
qed

text \<open>The customer schema accepts a payload exactly when it is an object whose member \<open>id\<close> is a string
  of five ASCII letters, and its validator never dereferences a null pointer.\<close>

theorem customer_payload:
  assumes "json_strings_ok J" "0 < n"
  shows "\<exists>e'. validate_json J (Some (CustomerContext J)) (Some r) (Some e) n =
     Some (json_object_is_type J (Some r) json_type_object \<and>
       (\<exists>s. string_member J r ''id'' s \<and> length s = 5 \<and> (\<forall>c \<in> set s. isalpha c)), Some e')"
proof -
  have eq: "(\<forall>f \<in> set (schema (CustomerContext J)). field_accepts J (customer_custom_ok J) r f) \<longleftrightarrow>
      (\<exists>s. string_member J r ''id'' s \<and> length s = 5 \<and> (\<forall>c \<in> set s. isalpha c))"
    using customer_field_iff [OF _ assms(1), of "hd (CustomerSchema J)" r] by (simp add: schema_defs)
  show ?thesis
    using customer.validate_decides [OF assms, of r e] by (simp only: eq simp_thms)
qed

definition sample_customer :: jvalue where
  "sample_customer = JObject [(''id'', Some (JString ''ALFKI''))]"

theorem customer_payload_witness:
  "\<exists>e'. validate_json ref_json (Some (CustomerContext ref_json)) (Some sample_customer) (Some []) 256 = Some (True, Some e')"
proof -
  have "string_member ref_json sample_customer ''id'' ''ALFKI''"
    by (simp add: string_member_def sample_customer_def ref_json_def c_str_def)
  moreover have "\<forall>c \<in> set ''ALFKI''. isalpha c"
    by (simp add: isalpha_def)
  moreover have "json_object_is_type ref_json (Some sample_customer) json_type_object"
    by (simp add: ref_json_def sample_customer_def)
  ultimately have "(json_object_is_type ref_json (Some sample_customer) json_type_object \<and>
      (\<exists>s. string_member ref_json sample_customer ''id'' s \<and> length s = 5 \<and> (\<forall>c \<in> set s. isalpha c))) = True"
    by (intro iffD2 [OF eq_True] conjI exI [of _ "''ALFKI''"]) simp_all
  then show ?thesis
    using customer_payload [OF ref_json_strings zero_less_numeral, where r = sample_customer and e = "[]"] by (simp only:)
qed

definition sample_employee :: jvalue where
  "sample_employee = JObject [(''id'', Some (JInt 5))]"

theorem validate_json_sound_witness:
  "validate_json ref_json (Some EmployeeContext) (Some sample_employee) (Some []) 256 = Some (True, Some []) \<and>
   field_accepts ref_json (\<lambda>_ _. True) sample_employee (hd EmployeeSchema)"
proof -
  have "validate_json ref_json (Some EmployeeContext) (Some sample_employee) (Some []) 256 = Some (True, Some [])"
    by (simp add: schema_defs sample_employee_def validate_json_def validate_field_def TYPE_VALIDATOR_MAP_def
      field_type_defs check_field_empty_def validate_type_int_def ref_json_def ref_int_def min_int_def max_int_def)
  moreover have "hd EmployeeSchema \<in> set (schema EmployeeContext)"
    by (simp add: schema_defs)
  ultimately show ?thesis
    using validate_json_sound [OF ref_json_strings] by blast
qed

end
