(* ===== verification/HttpTask.thy ===== *)
theory HttpTask
  imports Prelude
begin

text \<open>
  The request object \<open>http_task_t\<close> of \<open>include/apiserver/worker_pool.h\<close>, which every component passes
  around. A task is known by its address; the tasks live in the slab of the task pool, so an address
  is an index into the slab. The libevent request and the route context are known by handles; the output
  \<open>evbuffer\<close> is known by the bytes added to it since it was last drained.
\<close>

record 'j http_task =
  start_time :: "int \<times> int"
  req :: "nat option"
  parsed_body :: "'j option"
  middleware_ctx :: "nat option"
  status_txt :: cstring_ptr
  worker_buf :: "string option"
  next_task :: "nat option"
  reactor_id :: nat
  status_code :: int
  cancelled :: bool
  out_content_type :: cstring
  username :: cstring
  session_id :: cstring
  client_ip :: cstring
  request_id :: cstring
  uri :: cstring

text \<open>All bytes zero, as \<open>memset\<close> leaves a task.\<close>

definition zero_task :: "'j http_task" where
  "zero_task = \<lparr>start_time = (0, 0), req = None, parsed_body = None, middleware_ctx = None, status_txt = None,
     worker_buf = None, next_task = None, reactor_id = 0, status_code = 0, cancelled = False,
     out_content_type = [], username = [], session_id = [], client_ip = [], request_id = [], uri = []\<rparr>"

end
