(* ===== verification/TaskPool.thy ===== *)
theory TaskPool
  imports HttpTask
begin

text \<open>
  Model of \<open>lib/task_pool.c\<close>: the slab allocator for tasks with its global free stack, its free flags
  and the per-thread caches.

  A task pointer is an index into the slab; an index at or past the pool size is a pointer outside the
  slab. A thread's cache is the list of the first \<open>tl_cache_count\<close> entries of its array, its top at the
  end. Whether the allocations of the C library and of libevent succeed is an argument. The result of an
  operation is its value, \<open>Abort\<close> where the code calls \<open>abort()\<close>, or \<open>Fault\<close> for an access outside an array.
  The free flags are atomic and the stack is guarded by the mutex, so an operation that touches them acts
  as one step.
\<close>

section \<open>State and operations\<close>

datatype 'a outcome = Ret 'a | Abort | Fault

fun bind_outcome :: "'a outcome \<Rightarrow> ('a \<Rightarrow> 'b outcome) \<Rightarrow> 'b outcome" where
  "bind_outcome (Ret x) f = f x"
| "bind_outcome Abort f = Abort"
| "bind_outcome Fault f = Fault"

record 'j task_pool =
  g_task_slab :: "'j http_task list"
  g_free_stack :: "nat list"
  g_is_free_flag :: "bool list"
  g_stack_top :: nat
  g_pool_size :: nat
  tl_cache :: "nat \<Rightarrow> nat list"

definition TL_CACHE_SIZE :: nat where
  "TL_CACHE_SIZE = 64"

definition empty_pool :: "'j task_pool" where
  "empty_pool = \<lparr>g_task_slab = [], g_free_stack = [], g_is_free_flag = [], g_stack_top = 0, g_pool_size = 0,
     tl_cache = (\<lambda>_. [])\<rparr>"

text \<open>
  \<open>task_pool_init\<close>; the three flags say whether the slab, the stack and the flag array could be allocated. Its two
  failures are logged with \<open>LOG_FATAL\<close>, which ends the process before the code can return -1: \<open>None\<close>. The size of the
  slab is not checked for overflow, but a pool for which it overflows has a stack of more than \<open>2 ^ 50\<close> pointers, which
  \<open>malloc\<close> refuses.
\<close>

definition task_pool_init :: "64 word \<Rightarrow> bool \<Rightarrow> bool \<Rightarrow> bool \<Rightarrow> 'j task_pool \<Rightarrow> (int \<times> 'j task_pool) option" where
  "task_pool_init pool_size slab_ok stack_ok flag_ok st =
     (let n = (if pool_size = 0 then 100000 else unat pool_size)
      in if n * 8 \<ge> 2 ^ 64 then None
         else if \<not> slab_ok \<or> \<not> stack_ok \<or> \<not> flag_ok then None
         else Some (0, st\<lparr>g_pool_size := n, g_task_slab := replicate n zero_task, g_free_stack := [0..<n],
                          g_is_free_flag := replicate n True, g_stack_top := n\<rparr>))"

definition task_pool_shutdown :: "'j task_pool \<Rightarrow> 'j task_pool" where
  "task_pool_shutdown st = st\<lparr>g_free_stack := [], g_task_slab := [], g_is_free_flag := []\<rparr>"

definition set_flag :: "nat \<Rightarrow> bool \<Rightarrow> 'j task_pool \<Rightarrow> 'j task_pool outcome" where
  "set_flag idx b st =
     (case store (g_is_free_flag st) idx b of None \<Rightarrow> Fault | Some fl \<Rightarrow> Ret (st\<lparr>g_is_free_flag := fl\<rparr>))"

definition set_cache :: "nat \<Rightarrow> nat list \<Rightarrow> 'j task_pool \<Rightarrow> 'j task_pool" where
  "set_cache tid xs st = st\<lparr>tl_cache := (tl_cache st)(tid := xs)\<rparr>"

text \<open>The loop of \<open>task_pool_alloc\<close> that moves tasks from the global stack to the thread's cache.\<close>

fun refill :: "nat \<Rightarrow> nat \<Rightarrow> 'j task_pool \<Rightarrow> 'j task_pool outcome" where
  "refill tid 0 st = Ret st"
| "refill tid (Suc n) st =
     (let top = g_stack_top st - 1
      in if g_stack_top st = 0 \<or> top \<ge> length (g_free_stack st) then Fault
         else
           (let t = g_free_stack st ! top
            in bind_outcome (set_flag t False (st\<lparr>g_stack_top := top\<rparr>))
                 (\<lambda>st1. refill tid n (set_cache tid (tl_cache st1 tid @ [t]) st1))))"

text \<open>The fields \<open>task_pool_alloc\<close> resets; the output buffer is handled separately.\<close>

definition reset_task :: "'j http_task \<Rightarrow> 'j http_task" where
  "reset_task task = task\<lparr>start_time := (0, 0), req := None, parsed_body := None, middleware_ctx := None,
     status_txt := None, next_task := None, reactor_id := 0, status_code := 0, cancelled := False,
     out_content_type := [], username := [], session_id := [], client_ip := [], request_id := [], uri := []\<rparr>"

definition update_task :: "nat \<Rightarrow> ('j http_task \<Rightarrow> 'j http_task) \<Rightarrow> 'j task_pool \<Rightarrow> 'j task_pool outcome" where
  "update_task idx f st =
     (if idx < length (g_task_slab st)
      then Ret (st\<lparr>g_task_slab := (g_task_slab st)[idx := f (g_task_slab st ! idx)]\<rparr>) else Fault)"

text \<open>The loop of \<open>task_pool_free\<close> that moves a full cache to the global stack.\<close>

fun flush :: "nat list \<Rightarrow> 'j task_pool \<Rightarrow> 'j task_pool outcome" where
  "flush [] st = Ret st"
| "flush (t # ts) st =
     (case store (g_free_stack st) (g_stack_top st) t of
        None \<Rightarrow> Fault
      | Some fs \<Rightarrow> flush ts (st\<lparr>g_free_stack := fs, g_stack_top := g_stack_top st + 1\<rparr>))"

definition task_pool_free :: "nat \<Rightarrow> nat option \<Rightarrow> 'j task_pool \<Rightarrow> 'j task_pool outcome" where
  "task_pool_free tid task st =
     (case task of
        None \<Rightarrow> Ret st
      | Some idx \<Rightarrow>
          (if idx \<ge> g_pool_size st then Ret st
           else
             bind_outcome (update_task idx (\<lambda>t. t\<lparr>req := None, parsed_body := None\<rparr>) st) (\<lambda>st1.
             if idx \<ge> length (g_is_free_flag st1) then Fault
             else if g_is_free_flag st1 ! idx then Abort
             else
               bind_outcome (set_flag idx True st1) (\<lambda>st2.
               if length (tl_cache st2 tid) < TL_CACHE_SIZE
               then Ret (set_cache tid (tl_cache st2 tid @ [idx]) st2)
               else if g_stack_top st2 + length (tl_cache st2 tid) > g_pool_size st2 then Abort
               else
                 bind_outcome (flush (tl_cache st2 tid) st2) (\<lambda>st3.
                 Ret (set_cache tid [idx] st3))))))"

text \<open>
  \<open>task_pool_alloc\<close> by thread \<open>tid\<close>: the leased task or null, and the pool. \<open>buf_ok\<close>: whether
  \<open>evbuffer_new\<close> succeeds.
\<close>

definition take_cached :: "nat \<Rightarrow> 'j task_pool \<Rightarrow> (nat option \<times> 'j task_pool) outcome" where
  "take_cached tid st =
     (case tl_cache st tid of
        [] \<Rightarrow>
          (let batch = (if g_stack_top st < TL_CACHE_SIZE then g_stack_top st else TL_CACHE_SIZE)
           in bind_outcome (refill tid batch st) (\<lambda>st1.
              if batch > 0
              then Ret (Some (last (tl_cache st1 tid)), set_cache tid (butlast (tl_cache st1 tid)) st1)
              else Ret (None, st1)))
      | _ # _ \<Rightarrow> Ret (Some (last (tl_cache st tid)), set_cache tid (butlast (tl_cache st tid)) st))"

definition task_pool_alloc :: "nat \<Rightarrow> bool \<Rightarrow> 'j task_pool \<Rightarrow> (nat option \<times> 'j task_pool) outcome" where
  "task_pool_alloc tid buf_ok st =
     bind_outcome (take_cached tid st) (\<lambda>(task, st1).
     case task of
       None \<Rightarrow> Ret (None, st1)
     | Some idx \<Rightarrow>
         bind_outcome (set_flag idx False st1) (\<lambda>st2.
         bind_outcome (update_task idx reset_task st2) (\<lambda>st3.
         case worker_buf (g_task_slab st3 ! idx) of
           Some _ \<Rightarrow>
             bind_outcome (update_task idx (\<lambda>t. t\<lparr>worker_buf := Some []\<rparr>) st3) (\<lambda>st4. Ret (Some idx, st4))
         | None \<Rightarrow>
             (if buf_ok
              then bind_outcome (update_task idx (\<lambda>t. t\<lparr>worker_buf := Some []\<rparr>) st3) (\<lambda>st4. Ret (Some idx, st4))
              else bind_outcome (task_pool_free tid (Some idx) st3) (\<lambda>st4. Ret (None, st4))))))"


section \<open>The invariant\<close>

text \<open>
  Every task of the slab is in exactly one place: on the global stack, in one thread's cache, or leased.
  No leased task carries the free flag.
\<close>

definition stacked :: "('j, 'z) task_pool_scheme \<Rightarrow> nat list" where
  "stacked st = take (g_stack_top st) (g_free_stack st)"

definition pool_shape :: "('j, 'z) task_pool_scheme \<Rightarrow> bool" where
  "pool_shape st \<longleftrightarrow>
     length (g_task_slab st) = g_pool_size st \<and> length (g_free_stack st) = g_pool_size st \<and>
     length (g_is_free_flag st) = g_pool_size st \<and> g_stack_top st \<le> g_pool_size st \<and>
     (\<forall>tid. length (tl_cache st tid) \<le> TL_CACHE_SIZE) \<and>
     distinct (stacked st) \<and> (\<forall>tid. distinct (tl_cache st tid))"

datatype place = On_Stack | In_Cache nat | Leased

definition partitioned :: "nat set \<Rightarrow> (nat \<Rightarrow> nat set) \<Rightarrow> nat set \<Rightarrow> nat \<Rightarrow> bool" where
  "partitioned S C L n \<longleftrightarrow>
     (\<exists>own. S = {x. x < n \<and> own x = On_Stack} \<and> (\<forall>t. C t = {x. x < n \<and> own x = In_Cache t}) \<and>
        L = {x. x < n \<and> own x = Leased})"

definition caches :: "('j, 'z) task_pool_scheme \<Rightarrow> nat \<Rightarrow> nat set" where
  "caches st tid = set (tl_cache st tid)"

definition pool_inv :: "nat set \<Rightarrow> ('j, 'z) task_pool_scheme \<Rightarrow> bool" where
  "pool_inv leased st \<longleftrightarrow> pool_shape st \<and> partitioned (set (stacked st)) (caches st) leased (g_pool_size st) \<and>
     (\<forall>i \<in> leased. \<not> g_is_free_flag st ! i)"

text \<open>Moving one task, or one cache, keeps the partition.\<close>

lemma partitioned_refill:
  assumes "partitioned S C L n" "x \<in> S"
  shows "partitioned (S - {x}) (C(t := insert x (C t))) L n"
proof -
  obtain own where "S = {x. x < n \<and> own x = On_Stack}" "\<forall>t. C t = {x. x < n \<and> own x = In_Cache t}"
      "L = {x. x < n \<and> own x = Leased}"
    using assms(1) by (auto simp: partitioned_def)
  with assms(2) show ?thesis
    unfolding partitioned_def by (intro exI [of _ "own(x := In_Cache t)"]) auto
qed

lemma partitioned_lease:
  assumes "partitioned S C L n" "x \<in> C t"
  shows "partitioned S (C(t := C t - {x})) (insert x L) n"
proof -
  obtain own where "S = {x. x < n \<and> own x = On_Stack}" "\<forall>t. C t = {x. x < n \<and> own x = In_Cache t}"
      "L = {x. x < n \<and> own x = Leased}"
    using assms(1) by (auto simp: partitioned_def)
  with assms(2) show ?thesis
    unfolding partitioned_def by (intro exI [of _ "own(x := Leased)"]) auto
qed

lemma partitioned_release:
  assumes "partitioned S C L n" "x \<in> L"
  shows "partitioned S (C(t := insert x (C t))) (L - {x}) n"
proof -
  obtain own where "S = {x. x < n \<and> own x = On_Stack}" "\<forall>t. C t = {x. x < n \<and> own x = In_Cache t}"
      "L = {x. x < n \<and> own x = Leased}"
    using assms(1) by (auto simp: partitioned_def)
  with assms(2) show ?thesis
    unfolding partitioned_def by (intro exI [of _ "own(x := In_Cache t)"]) auto
qed

lemma partitioned_flush:
  assumes "partitioned S C L n"
  shows "partitioned (S \<union> C t) (C(t := {})) L n"
proof -
  obtain own where "S = {x. x < n \<and> own x = On_Stack}" "\<forall>t. C t = {x. x < n \<and> own x = In_Cache t}"
      "L = {x. x < n \<and> own x = Leased}"
    using assms(1) by (auto simp: partitioned_def)
  then show ?thesis
    unfolding partitioned_def
    by (intro exI [of _ "\<lambda>x. if own x = In_Cache t then On_Stack else own x"]) auto
qed

lemma partitioned_disjoint:
  assumes "partitioned S C L n"
  shows "x \<in> C t \<Longrightarrow> x \<notin> S \<and> x \<notin> L \<and> x < n" "x \<in> S \<Longrightarrow> x \<notin> L \<and> x < n" "x \<in> L \<Longrightarrow> x < n"
  using assms by (auto simp: partitioned_def)


section \<open>The loops\<close>

lemma set_flag_ok [simp]:
  "idx < length (g_is_free_flag st) \<Longrightarrow> set_flag idx b st = Ret (st\<lparr>g_is_free_flag := (g_is_free_flag st)[idx := b]\<rparr>)"
  by (simp add: set_flag_def store_def)

lemma update_task_ok [simp]:
  "idx < length (g_task_slab st) \<Longrightarrow>
   update_task idx f st = Ret (st\<lparr>g_task_slab := (g_task_slab st)[idx := f (g_task_slab st ! idx)]\<rparr>)"
  by (simp add: update_task_def)

text \<open>One turn of the refill loop.\<close>

lemma refill_turn:
  assumes inv: "pool_inv L st" and top: "0 < g_stack_top st" and room: "length (tl_cache st tid) < TL_CACHE_SIZE"
  defines "t \<equiv> g_free_stack st ! (g_stack_top st - 1)"
  defines "st1 \<equiv> set_cache tid (tl_cache st tid @ [t])
    (st\<lparr>g_stack_top := g_stack_top st - 1, g_is_free_flag := (g_is_free_flag st)[t := False]\<rparr>)"
  shows "pool_inv L st1" "g_stack_top st - 1 < length (g_free_stack st)" "t < length (g_is_free_flag st)"
proof -
  have shape: "g_stack_top st \<le> length (g_free_stack st)" "length (g_is_free_flag st) = g_pool_size st"
      "distinct (stacked st)"
    using inv by (auto simp: pool_inv_def pool_shape_def)
  then show lt: "g_stack_top st - 1 < length (g_free_stack st)"
    using top by simp
  have split: "stacked st = take (g_stack_top st - 1) (g_free_stack st) @ [t]"
    using top lt take_Suc_conv_app_nth [of "g_stack_top st - 1" "g_free_stack st"] by (simp add: stacked_def t_def)
  then have t: "t \<in> set (stacked st)" "t \<notin> set (take (g_stack_top st - 1) (g_free_stack st))"
    using shape(3) by auto
  have part: "partitioned (set (stacked st)) (caches st) L (g_pool_size st)"
    using inv by (simp add: pool_inv_def)
  note disj = partitioned_disjoint [OF part]
  show "t < length (g_is_free_flag st)"
    using disj(2) [OF t(1)] shape by simp
  have s1: "stacked st1 = take (g_stack_top st - 1) (g_free_stack st)"
    by (simp add: st1_def stacked_def set_cache_def)
  have "set (stacked st1) = set (stacked st) - {t}"
    using split t s1 by auto
  moreover have "caches st1 = (caches st)(tid := insert t (caches st tid))"
    by (auto simp: caches_def st1_def set_cache_def fun_eq_iff)
  ultimately have "partitioned (set (stacked st1)) (caches st1) L (g_pool_size st)"
    using partitioned_refill [OF part t(1)] by simp
  moreover have "distinct (stacked st1)"
    using shape(3) split s1 by simp
  moreover from this have "pool_shape st1"
    using inv room top disj(1) [of t tid] t(1) shape
    by (auto simp: pool_inv_def pool_shape_def st1_def set_cache_def caches_def)
  moreover have "\<forall>i \<in> L. \<not> g_is_free_flag st1 ! i"
    using inv disj(2) [OF t(1)] by (auto simp: pool_inv_def st1_def set_cache_def) (metis nth_list_update_neq)
  ultimately show "pool_inv L st1"
    by (simp add: pool_inv_def st1_def set_cache_def)
qed

lemma refill_spec:
  "pool_inv L st \<Longrightarrow> n \<le> g_stack_top st \<Longrightarrow> length (tl_cache st tid) + n \<le> TL_CACHE_SIZE \<Longrightarrow>
   \<exists>st'. refill tid n st = Ret st' \<and> pool_inv L st' \<and> length (tl_cache st' tid) = length (tl_cache st tid) + n \<and>
     g_task_slab st' = g_task_slab st \<and> g_pool_size st' = g_pool_size st"
proof (induction n arbitrary: st)
  case (Suc n)
  define t where "t = g_free_stack st ! (g_stack_top st - 1)"
  define st1 where "st1 = set_cache tid (tl_cache st tid @ [t])
    (st\<lparr>g_stack_top := g_stack_top st - 1, g_is_free_flag := (g_is_free_flag st)[t := False]\<rparr>)"
  have turn: "pool_inv L st1" "g_stack_top st - 1 < length (g_free_stack st)" "t < length (g_is_free_flag st)"
    using refill_turn [of L st tid] Suc.prems by (auto simp: t_def st1_def)
  have "refill tid (Suc n) st = refill tid n st1"
    using turn(2,3) Suc.prems by (simp add: Let_def t_def st1_def set_cache_def)
  moreover have "\<exists>st'. refill tid n st1 = Ret st' \<and> pool_inv L st' \<and>
      length (tl_cache st' tid) = length (tl_cache st1 tid) + n \<and> g_task_slab st' = g_task_slab st1 \<and> g_pool_size st' = g_pool_size st1"
    using turn(1) Suc.prems by (intro Suc.IH) (auto simp: st1_def set_cache_def)
  ultimately show ?case
    by (auto simp: st1_def set_cache_def)
qed simp


lemma flush_spec:
  "g_stack_top st + length ts \<le> length (g_free_stack st) \<Longrightarrow>
   \<exists>fs. flush ts st = Ret (st\<lparr>g_free_stack := fs, g_stack_top := g_stack_top st + length ts\<rparr>) \<and>
     length fs = length (g_free_stack st) \<and> take (g_stack_top st + length ts) fs = stacked st @ ts"
proof (induction ts arbitrary: st)
  case Nil
  then show ?case by (intro exI [of _ "g_free_stack st"]) (simp add: stacked_def)
next
  case (Cons t ts)
  define st1 where "st1 = st\<lparr>g_free_stack := (g_free_stack st)[g_stack_top st := t], g_stack_top := g_stack_top st + 1\<rparr>"
  have "flush (t # ts) st = flush ts st1"
    using Cons.prems by (simp add: st1_def store_def)
  moreover have "stacked st1 = stacked st @ [t]"
    using Cons.prems by (simp add: stacked_def st1_def take_Suc_conv_app_nth)
  ultimately show ?case
    using Cons.IH [of st1] Cons.prems by (auto simp: st1_def)
qed

text \<open>There is always room on the stack for a cache: its tasks are not on the stack.\<close>

lemma stack_room:
  assumes "pool_inv L st"
  shows "g_stack_top st + length (tl_cache st tid) \<le> g_pool_size st"
proof -
  have part: "partitioned (set (stacked st)) (caches st) L (g_pool_size st)"
    and dist: "distinct (stacked st)" "distinct (tl_cache st tid)" and top: "length (stacked st) = g_stack_top st"
    using assms by (auto simp: pool_inv_def pool_shape_def stacked_def)
  have "distinct (stacked st @ tl_cache st tid)"
    using dist partitioned_disjoint(1) [OF part, of _ tid] by (auto simp: caches_def)
  moreover have "set (stacked st @ tl_cache st tid) \<subseteq> {..<g_pool_size st}"
    using partitioned_disjoint(1) [OF part, of _ tid] partitioned_disjoint(2) [OF part] by (auto simp: caches_def)
  ultimately have "length (stacked st @ tl_cache st tid) \<le> card {..<g_pool_size st}"
    by (metis card_mono distinct_card finite_lessThan)
  with top show ?thesis by simp
qed


section \<open>The operations keep the invariant\<close>

lemma free_leased:
  assumes inv: "pool_inv L st" and i: "i \<in> L"
  shows "\<exists>st'. task_pool_free tid (Some i) st = Ret st' \<and> pool_inv (L - {i}) st' \<and>
     i \<in> set (tl_cache st' tid) \<and> g_is_free_flag st' ! i \<and> g_pool_size st' = g_pool_size st \<and>
     (\<forall>k. k \<noteq> i \<longrightarrow> g_task_slab st' ! k = g_task_slab st ! k)"
proof -
  have part: "partitioned (set (stacked st)) (caches st) L (g_pool_size st)" and shape: "pool_shape st"
    and flags: "\<forall>k \<in> L. \<not> g_is_free_flag st ! k"
    using inv by (auto simp: pool_inv_def)
  have lt: "i < g_pool_size st" "i < length (g_task_slab st)" "i < length (g_is_free_flag st)"
    using partitioned_disjoint(3) [OF part i] shape by (auto simp: pool_shape_def)
  define st2 where "st2 = st\<lparr>g_task_slab := (g_task_slab st)[i := (g_task_slab st ! i)\<lparr>req := None, parsed_body := None\<rparr>],
    g_is_free_flag := (g_is_free_flag st)[i := True]\<rparr>"
  have same: "stacked st2 = stacked st" "tl_cache st2 = tl_cache st" "g_pool_size st2 = g_pool_size st" "caches st2 = caches st"
    by (auto simp: st2_def stacked_def caches_def)
  have shape2: "pool_shape st2"
    using shape by (simp add: pool_shape_def st2_def stacked_def)
  have flags2: "\<forall>k \<in> L - {i}. \<not> g_is_free_flag st2 ! k" "g_is_free_flag st2 ! i"
    using flags lt by (auto simp: st2_def)
  have run: "task_pool_free tid (Some i) st =
      (if length (tl_cache st tid) < TL_CACHE_SIZE then Ret (set_cache tid (tl_cache st tid @ [i]) st2)
       else bind_outcome (flush (tl_cache st tid) st2) (\<lambda>st3. Ret (set_cache tid [i] st3)))"
    using lt flags i stack_room [OF inv, of tid]
    by (simp add: task_pool_free_def Let_def st2_def)
  have notin: "i \<notin> set (tl_cache st tid)" "i \<notin> set (stacked st)"
    using partitioned_disjoint [OF part] i by (auto simp: caches_def)
  show ?thesis
  proof (cases "length (tl_cache st tid) < TL_CACHE_SIZE")
    case True
    let ?st = "set_cache tid (tl_cache st tid @ [i]) st2"
    have "caches ?st = (caches st)(tid := insert i (caches st tid))" "stacked ?st = stacked st"
      using same by (auto simp: caches_def set_cache_def stacked_def fun_eq_iff)
    moreover have "pool_shape ?st"
      using shape2 same True notin by (auto simp: pool_shape_def set_cache_def stacked_def)
    ultimately have "pool_inv (L - {i}) ?st"
      using partitioned_release [OF part i, of tid] flags2 same by (simp add: pool_inv_def set_cache_def)
    with True run flags2 same show ?thesis
      by (auto simp: set_cache_def st2_def)
  next
    case False
    have "g_stack_top st2 + length (tl_cache st tid) \<le> length (g_free_stack st2)"
      using stack_room [OF inv, of tid] shape by (simp add: st2_def pool_shape_def)
    then obtain fs where fs: "flush (tl_cache st tid) st2 =
          Ret (st2\<lparr>g_free_stack := fs, g_stack_top := g_stack_top st2 + length (tl_cache st tid)\<rparr>)"
        "length fs = length (g_free_stack st2)" "take (g_stack_top st2 + length (tl_cache st tid)) fs = stacked st @ tl_cache st tid"
      using flush_spec [of st2 "tl_cache st tid"] same by auto
    let ?st = "set_cache tid [i] (st2\<lparr>g_free_stack := fs, g_stack_top := g_stack_top st2 + length (tl_cache st tid)\<rparr>)"
    have c: "caches ?st = ((caches st)(tid := {}))(tid := insert i {})" and k: "stacked ?st = stacked st @ tl_cache st tid"
      using same fs(3) by (auto simp: caches_def set_cache_def stacked_def fun_eq_iff)
    have "pool_shape ?st"
      using shape2 same fs(2) k stack_room [OF inv, of tid] partitioned_disjoint(1) [OF part, of _ tid]
      by (auto simp: pool_shape_def set_cache_def caches_def TL_CACHE_SIZE_def st2_def)
    moreover have "partitioned (set (stacked ?st)) (caches ?st) (L - {i}) (g_pool_size st)"
      using partitioned_release [OF partitioned_flush [OF part, of tid] i, of tid] k c by (simp add: caches_def)
    ultimately have "pool_inv (L - {i}) ?st"
      using flags2 same by (simp add: pool_inv_def set_cache_def)
    with False run fs(1) flags2 same show ?thesis
      by (auto simp: set_cache_def st2_def)
  qed
qed


lemma pop_cached:
  assumes inv: "pool_inv L st" and ne: "tl_cache st tid \<noteq> []"
  defines "i \<equiv> last (tl_cache st tid)"
  defines "st1 \<equiv> set_cache tid (butlast (tl_cache st tid)) st"
  shows "i \<notin> L" "i < g_pool_size st" "pool_inv (insert i L) (st1\<lparr>g_is_free_flag := (g_is_free_flag st)[i := False]\<rparr>)"
proof -
  let ?st = "st1\<lparr>g_is_free_flag := (g_is_free_flag st)[i := False]\<rparr>"
  have part: "partitioned (set (stacked st)) (caches st) L (g_pool_size st)" and shape: "pool_shape st"
    using inv by (auto simp: pool_inv_def)
  have i: "i \<in> caches st tid"
    using ne by (simp add: caches_def i_def)
  then show "i \<notin> L" "i < g_pool_size st"
    using partitioned_disjoint(1) [OF part] by auto
  have split: "tl_cache st tid = butlast (tl_cache st tid) @ [i]" "distinct (tl_cache st tid)"
    using ne shape by (simp_all add: i_def pool_shape_def)
  then have "i \<notin> set (butlast (tl_cache st tid))" "set (tl_cache st tid) = insert i (set (butlast (tl_cache st tid)))"
    by (metis distinct_append disjoint_insert(2) list.set(2)) (metis split(1) Un_insert_right set_append list.set sup_bot_right)
  then have "caches ?st = (caches st)(tid := caches st tid - {i})" "stacked ?st = stacked st"
    by (auto simp: caches_def st1_def set_cache_def stacked_def fun_eq_iff)
  then have "partitioned (set (stacked ?st)) (caches ?st) (insert i L) (g_pool_size st)"
    using partitioned_lease [OF part i] by simp
  moreover have "pool_shape ?st"
    using shape by (auto simp: pool_shape_def st1_def set_cache_def stacked_def distinct_butlast intro: le_trans [OF diff_le_self])
  moreover have "\<forall>k \<in> insert i L. \<not> g_is_free_flag ?st ! k"
    using inv \<open>i < g_pool_size st\<close> shape by (auto simp: pool_inv_def nth_list_update pool_shape_def)
  ultimately show "pool_inv (insert i L) ?st"
    by (simp add: pool_inv_def st1_def set_cache_def)
qed

text \<open>Taking a task and clearing its flag leases it; nothing is taken only when nothing is at hand.\<close>

lemma take_cached_spec:
  assumes inv: "pool_inv L st"
  shows "(\<exists>st1. take_cached tid st = Ret (None, st1) \<and> tl_cache st tid = [] \<and> g_stack_top st = 0 \<and> pool_inv L st1 \<and> g_task_slab st1 = g_task_slab st) \<or>
    (\<exists>i st1 st2. take_cached tid st = Ret (Some i, st1) \<and> set_flag i False st1 = Ret st2 \<and>
      pool_inv (insert i L) st2 \<and> i \<notin> L \<and> i < g_pool_size st \<and> g_task_slab st2 = g_task_slab st \<and> g_pool_size st2 = g_pool_size st)"
proof -
  have pop: "\<exists>i st1 st2. (Some (last (tl_cache st0 tid)), set_cache tid (butlast (tl_cache st0 tid)) st0) = (Some i, st1) \<and>
      set_flag i False st1 = Ret st2 \<and> pool_inv (insert i L) st2 \<and> i \<notin> L \<and> i < g_pool_size st0 \<and>
      g_task_slab st2 = g_task_slab st0 \<and> g_pool_size st2 = g_pool_size st0"
    if "pool_inv L st0" "tl_cache st0 tid \<noteq> []" for st0
    using pop_cached [OF that] that(1)
    by (auto simp: set_cache_def pool_inv_def pool_shape_def)
  show ?thesis
  proof (cases "tl_cache st tid")
    case (Cons x xs)
    then show ?thesis
      using pop [OF inv] by (auto simp: take_cached_def)
  next
    case Nil
    define batch where "batch = (if g_stack_top st < TL_CACHE_SIZE then g_stack_top st else TL_CACHE_SIZE)"
    have "batch \<le> g_stack_top st" "length (tl_cache st tid) + batch \<le> TL_CACHE_SIZE" "batch = 0 \<longleftrightarrow> g_stack_top st = 0"
      using Nil by (auto simp: batch_def TL_CACHE_SIZE_def)
    with refill_spec [OF inv, of batch tid] Nil obtain st0 where r: "refill tid batch st = Ret st0" "pool_inv L st0"
        "length (tl_cache st0 tid) = batch" "g_task_slab st0 = g_task_slab st" "g_pool_size st0 = g_pool_size st"
      by auto
    show ?thesis
    proof (cases "batch = 0")
      case True
      with Nil r \<open>batch = 0 \<longleftrightarrow> g_stack_top st = 0\<close> show ?thesis
        by (auto simp: take_cached_def batch_def [symmetric])
    next
      case False
      then have "tl_cache st0 tid \<noteq> []"
        using r(3) by auto
      with pop [OF r(2)] False r Nil show ?thesis
        by (auto simp: take_cached_def batch_def [symmetric])
    qed
  qed
qed


text \<open>What a leased task looks like: every field zero, an empty output buffer.\<close>

definition fresh_task :: "'j http_task" where
  "fresh_task = zero_task\<lparr>worker_buf := Some []\<rparr>"

lemma reset_task_fresh: "(reset_task t)\<lparr>worker_buf := Some []\<rparr> = fresh_task"
  by (cases t) (simp add: reset_task_def fresh_task_def zero_task_def)

lemma worker_buf_reset [simp]: "worker_buf (reset_task t) = worker_buf t"
  by (simp add: reset_task_def)

lemma pool_inv_update_slab:
  assumes "length xs = length (g_task_slab st)"
  shows "pool_inv L (st\<lparr>g_task_slab := xs\<rparr>) \<longleftrightarrow> pool_inv L st"
proof -
  have "caches (st\<lparr>g_task_slab := xs\<rparr>) = caches st"
    by (simp add: caches_def fun_eq_iff)
  with assms show ?thesis
    by (simp add: pool_inv_def pool_shape_def stacked_def)
qed

lemma alloc_spec:
  assumes inv: "pool_inv L st"
  obtains (none) st' where "task_pool_alloc tid buf_ok st = Ret (None, st')" "pool_inv L st'"
      "buf_ok \<longrightarrow> tl_cache st tid = [] \<and> g_stack_top st = 0" "\<forall>k \<in> L. g_task_slab st' ! k = g_task_slab st ! k"
  | (leased) i st' where "task_pool_alloc tid buf_ok st = Ret (Some i, st')" "pool_inv (insert i L) st'"
      "i \<notin> L" "g_task_slab st' ! i = fresh_task" "\<forall>k \<in> L. g_task_slab st' ! k = g_task_slab st ! k"
proof (cases "\<exists>st1. take_cached tid st = Ret (None, st1)")
  case True
  with take_cached_spec [OF inv, of tid] obtain st1 where "take_cached tid st = Ret (None, st1)"
      "tl_cache st tid = []" "g_stack_top st = 0" "pool_inv L st1" "g_task_slab st1 = g_task_slab st"
    by auto
  then show thesis
    by (intro none [of st1]) (auto simp: task_pool_alloc_def)
next
  case False
  with take_cached_spec [OF inv, of tid] obtain i st1 st2 where t: "take_cached tid st = Ret (Some i, st1)"
      "set_flag i False st1 = Ret st2" "pool_inv (insert i L) st2" "i \<notin> L" "i < g_pool_size st"
      "g_task_slab st2 = g_task_slab st" "g_pool_size st2 = g_pool_size st"
    by auto
  define st3 where "st3 = st2\<lparr>g_task_slab := (g_task_slab st)[i := reset_task (g_task_slab st ! i)]\<rparr>"
  define st4 where "st4 = st2\<lparr>g_task_slab := (g_task_slab st)[i := fresh_task]\<rparr>"
  have len: "i < length (g_task_slab st)"
    using t inv by (simp add: pool_inv_def pool_shape_def)
  have inv3: "pool_inv (insert i L) st3" and inv4: "pool_inv (insert i L) st4"
    using t(3,6) by (simp_all add: st3_def st4_def pool_inv_update_slab)
  have others: "\<forall>k \<in> L. g_task_slab st3 ! k = g_task_slab st ! k" "\<forall>k \<in> L. g_task_slab st4 ! k = g_task_slab st ! k"
    using t(4) by (auto simp: st3_def st4_def) (metis nth_list_update_neq)+
  have run: "task_pool_alloc tid buf_ok st =
      (if buf_ok \<or> worker_buf (g_task_slab st ! i) \<noteq> None then Ret (Some i, st4)
       else bind_outcome (task_pool_free tid (Some i) st3) (\<lambda>st4. Ret (None, st4)))"
    using t(1,2,6) len
    by (auto simp: task_pool_alloc_def st3_def st4_def reset_task_fresh split: option.splits)
  show thesis
  proof (cases "buf_ok \<or> worker_buf (g_task_slab st ! i) \<noteq> None")
    case True
    with run inv4 t(4) others len show thesis
      by (intro leased [of i st4]) (auto simp: st4_def)
  next
    case False
    obtain st5 where "task_pool_free tid (Some i) st3 = Ret st5" "pool_inv (insert i L - {i}) st5"
        "\<forall>k. k \<noteq> i \<longrightarrow> g_task_slab st5 ! k = g_task_slab st3 ! k"
      using free_leased [OF inv3, of i tid] by auto
    moreover have "insert i L - {i} = L"
      using t(4) by auto
    ultimately show thesis
      using False run t(4) others by (intro none [of st5]) auto
  qed
qed



section \<open>The pool as a transition system\<close>

text \<open>
  Threads lease and return tasks in any interleaving. A state is the pool and the set of leased tasks. The
  threads that hold a leased task write to it as they like, return it once, and may pass null or pointers
  outside the slab to \<open>task_pool_free\<close>.
\<close>

inductive pool_step :: "'j task_pool \<times> nat set \<Rightarrow> 'j task_pool \<times> nat set \<Rightarrow> bool" where
  lease: "task_pool_alloc tid buf_ok st = Ret (Some i, st') \<Longrightarrow> pool_step (st, L) (st', insert i L)"
| lease_fails: "task_pool_alloc tid buf_ok st = Ret (None, st') \<Longrightarrow> pool_step (st, L) (st', L)"
| give_back: "i \<in> L \<Longrightarrow> task_pool_free tid (Some i) st = Ret st' \<Longrightarrow> pool_step (st, L) (st', L - {i})"
| ignored: "p = None \<or> p = Some i \<and> g_pool_size st \<le> i \<Longrightarrow> task_pool_free tid p st = Ret st' \<Longrightarrow> pool_step (st, L) (st', L)"
| work: "i \<in> L \<Longrightarrow> pool_step (st, L) (st\<lparr>g_task_slab := (g_task_slab st)[i := t]\<rparr>, L)"

definition pool_start :: "'j task_pool \<times> nat set \<Rightarrow> bool" where
  "pool_start s \<longleftrightarrow> (\<exists>n. task_pool_init n True True True empty_pool = Some (0, fst s)) \<and> snd s = {}"

definition pool_system_inv :: "'j task_pool \<times> nat set \<Rightarrow> bool" where
  "pool_system_inv s \<longleftrightarrow> pool_inv (snd s) (fst s)"

lemma pool_init_inv:
  assumes "task_pool_init n True True True empty_pool = Some (0, st)"
  shows "pool_inv {} st"
proof -
  obtain m where st: "st = \<lparr>g_task_slab = replicate m zero_task, g_free_stack = [0..<m], g_is_free_flag = replicate m True,
      g_stack_top = m, g_pool_size = m, tl_cache = (\<lambda>_. [])\<rparr>"
    using assms by (auto simp: task_pool_init_def Let_def empty_pool_def split: if_splits)
  then have "stacked st = [0..<m]" "caches st = (\<lambda>_. {})"
    by (auto simp: stacked_def caches_def fun_eq_iff)
  with st show ?thesis
    unfolding pool_inv_def pool_shape_def partitioned_def
    by (auto intro!: exI [of _ "\<lambda>_. On_Stack"])
qed

lemma pool_step_inv:
  "pool_step s t \<Longrightarrow> pool_system_inv s \<Longrightarrow> pool_system_inv t"
proof (induction rule: pool_step.induct)
  case (lease tid buf_ok st i st' L)
  then show ?case
    using alloc_spec [of L st tid buf_ok] by (auto simp: pool_system_inv_def)
next
  case (lease_fails tid buf_ok st st' L)
  then show ?case
    using alloc_spec [of L st tid buf_ok] by (auto simp: pool_system_inv_def)
next
  case (give_back i L tid st st')
  then show ?case
    using free_leased [of L st i tid] by (auto simp: pool_system_inv_def)
next
  case (ignored p i st tid st' L)
  then show ?case
    by (auto simp: pool_system_inv_def task_pool_free_def)
next
  case (work i L st t)
  then show ?case
    by (simp add: pool_system_inv_def pool_inv_update_slab)
qed

interpretation pool: invariant_system pool_start pool_step pool_system_inv
proof
  show "pool_start s \<Longrightarrow> pool_system_inv s" for s :: "'a task_pool \<times> nat set"
    using pool_init_inv by (auto simp: pool_start_def pool_system_inv_def)
qed (rule pool_step_inv)


section \<open>Properties\<close>

text \<open>C6: whatever the threads do, in any interleaving, a call of \<open>task_pool_alloc\<close> neither aborts nor leaves
  its arrays; it leases a task that no thread holds, with every field reset and an empty output buffer, and
  does not touch the tasks that are leased; it returns null only when the output buffer cannot be allocated or
  both the thread's cache and the global stack are empty.\<close>

theorem task_pool_alloc_safe:
  assumes "reach pool_start pool_step (st, L)"
  shows "\<exists>r st'. task_pool_alloc tid buf_ok st = Ret (r, st') \<and>
     (\<forall>i. r = Some i \<longrightarrow> i \<notin> L \<and> g_task_slab st' ! i = fresh_task) \<and>
     (r = None \<longrightarrow> \<not> buf_ok \<or> tl_cache st tid = [] \<and> g_stack_top st = 0) \<and>
     (\<forall>k \<in> L. g_task_slab st' ! k = g_task_slab st ! k)"
proof -
  have "pool_inv L st"
    using pool.reach_inv [OF assms] by (simp add: pool_system_inv_def)
  then show ?thesis
    by (rule alloc_spec [of L st tid buf_ok]) auto
qed

text \<open>A pool of two tasks, and the same pool after thread 0 leased one.\<close>

definition small_pool :: "nat task_pool" where
  "small_pool = snd (the (task_pool_init 2 True True True empty_pool))"

definition small_pool_leased :: "nat task_pool" where
  "small_pool_leased = \<lparr>g_task_slab = [fresh_task, zero_task], g_free_stack = [0, 1], g_is_free_flag = [False, False],
     g_stack_top = 0, g_pool_size = 2, tl_cache = (\<lambda>_. [])(0 := [1])\<rparr>"

lemma small_pool_eq: "small_pool = \<lparr>g_task_slab = [zero_task, zero_task], g_free_stack = [0, 1],
    g_is_free_flag = [True, True], g_stack_top = 2, g_pool_size = 2, tl_cache = (\<lambda>_. [])\<rparr>"
  by (simp add: small_pool_def task_pool_init_def empty_pool_def Let_def) (simp add: numeral_2_eq_2)

lemma small_pool_reachable: "reach pool_start pool_step (small_pool, {})"
proof (rule reach_init)
  have "task_pool_init 2 True True True empty_pool = Some (0, small_pool)"
    by (simp add: small_pool_def task_pool_init_def empty_pool_def Let_def)
  then show "pool_start (small_pool, {})"
    unfolding pool_start_def by auto
qed

lemma small_pool_lease: "task_pool_alloc 0 True small_pool = Ret (Some 0, small_pool_leased)"
  by (simp add: small_pool_eq small_pool_leased_def task_pool_alloc_def take_cached_def TL_CACHE_SIZE_def
    numeral_2_eq_2 set_cache_def reset_task_fresh zero_task_def reset_task_def fresh_task_def)

theorem task_pool_alloc_safe_witness:
  "\<exists>r st'. task_pool_alloc 0 True small_pool = Ret (r, st') \<and>
     (\<forall>i. r = Some i \<longrightarrow> i \<notin> {} \<and> g_task_slab st' ! i = fresh_task) \<and>
     (r = None \<longrightarrow> \<not> True \<or> tl_cache small_pool 0 = [] \<and> g_stack_top small_pool = 0) \<and>
     (\<forall>k \<in> {}. g_task_slab st' ! k = g_task_slab small_pool ! k)"
  by (rule task_pool_alloc_safe [OF small_pool_reachable])

text \<open> returning a leased task never aborts, neither by the double-free check nor by the stack-overflow
  check, and makes the task available again; returning it a second time at once, by any thread, aborts.\<close>

theorem task_pool_free_safe:
  assumes "reach pool_start pool_step (st, L)" "i \<in> L"
  shows "\<exists>st'. task_pool_free tid (Some i) st = Ret st' \<and> i \<in> set (tl_cache st' tid) \<and>
     task_pool_free tid' (Some i) st' = Abort"
proof -
  have inv: "pool_inv L st"
    using pool.reach_inv [OF assms(1)] by (simp add: pool_system_inv_def)
  obtain st' where f: "task_pool_free tid (Some i) st = Ret st'" "pool_inv (L - {i}) st'" "i \<in> set (tl_cache st' tid)"
      "g_is_free_flag st' ! i" "g_pool_size st' = g_pool_size st"
    using free_leased [OF inv assms(2), of tid] by auto
  have "i < g_pool_size st'"
    using partitioned_disjoint(1) [of _ "caches st'" _ _ i tid] f(2,3) by (auto simp: pool_inv_def caches_def)
  moreover from this have "i < length (g_task_slab st')" "i < length (g_is_free_flag st')"
    using f(2) by (auto simp: pool_inv_def pool_shape_def)
  ultimately have "task_pool_free tid' (Some i) st' = Abort"
    using f(4) by (simp add: task_pool_free_def)
  with f show ?thesis by auto
qed


theorem task_pool_free_safe_witness:
  "\<exists>st'. task_pool_free 0 (Some 0) small_pool_leased = Ret st' \<and> 0 \<in> set (tl_cache st' 0) \<and>
     task_pool_free 1 (Some 0) st' = Abort"
proof -
  have "reach pool_start pool_step (small_pool_leased, {0})"
    using reach_step [OF small_pool_reachable pool_step.lease [OF small_pool_lease, of "{}"]] by simp
  then show ?thesis
    by (rule task_pool_free_safe) simp
qed

end
