(* ===== verification/TaskQueue.thy ===== *)
theory TaskQueue
  imports HttpTask
begin

text \<open>
  Intrusive singly linked lists of tasks, as the worker queues and the completion queues use them: a head
  pointer, a tail pointer, and the \<open>next\<close> field inside the tasks. A heap maps task addresses to tasks. The
  predicate \<open>linked\<close> relates the pointers to the list they represent, and the lemmas give the effect of the
  two pointer manipulations in terms of that list.
\<close>

type_synonym 'j task_heap = "nat \<Rightarrow> 'j http_task"

fun path :: "'j task_heap \<Rightarrow> nat option \<Rightarrow> nat list \<Rightarrow> bool" where
  "path h p [] \<longleftrightarrow> p = None"
| "path h p (x # xs) \<longleftrightarrow> p = Some x \<and> path h (next_task (h x)) xs"

definition linked :: "'j task_heap \<Rightarrow> nat option \<Rightarrow> nat option \<Rightarrow> nat list \<Rightarrow> bool" where
  "linked h hd_ptr tl_ptr xs \<longleftrightarrow>
     path h hd_ptr xs \<and> distinct xs \<and> tl_ptr = (if xs = [] then None else Some (last xs))"

definition set_next :: "nat \<Rightarrow> nat option \<Rightarrow> 'j task_heap \<Rightarrow> 'j task_heap" where
  "set_next a p h = h(a := (h a)\<lparr>next_task := p\<rparr>)"

lemma path_cong: "(\<And>x. x \<in> set xs \<Longrightarrow> next_task (h x) = next_task (h' x)) \<Longrightarrow> path h p xs \<longleftrightarrow> path h' p xs"
  by (induction xs arbitrary: p) auto

lemma path_set_next: "a \<notin> set xs \<Longrightarrow> path (set_next a q h) p xs \<longleftrightarrow> path h p xs"
  by (rule path_cong) (auto simp: set_next_def)

lemma path_append_last:
  assumes "path h p (xs @ [b])" "distinct (xs @ [b])" "a \<notin> set (xs @ [b])" "next_task (h a) = None"
  shows "path (set_next b (Some a) h) p (xs @ [b, a])"
  using assms
proof (induction xs arbitrary: p)
  case Nil
  then show ?case by (auto simp: set_next_def)
next
  case (Cons x xs)
  then have "path h (next_task (h x)) (xs @ [b])" "p = Some x" "x \<noteq> b"
    by auto
  then show ?case
    using Cons.IH [of "next_task (h x)"] Cons.prems by (auto simp: set_next_def)
qed

lemma path_unique: "path h p xs \<Longrightarrow> path h p ys \<Longrightarrow> xs = ys"
proof (induction xs arbitrary: p ys)
  case Nil
  then show ?case by (cases ys) auto
next
  case (Cons x xs)
  then show ?case by (cases ys) auto
qed

lemma linked_empty: "linked h p q xs \<Longrightarrow> p = None \<longleftrightarrow> xs = []" "linked h p q xs \<Longrightarrow> q = None \<longleftrightarrow> xs = []"
  by (cases xs; auto simp: linked_def)+

lemma linked_first: "linked h (Some a) q xs \<Longrightarrow> \<exists>ys. xs = a # ys"
  by (cases xs) (auto simp: linked_def)

text \<open>Appending to the empty list and to a list with a tail.\<close>

lemma linked_append_empty:
  "linked h p None xs \<Longrightarrow> linked (set_next a None h) (Some a) (Some a) [a] \<and> xs = []"
  by (cases xs) (auto simp: linked_def set_next_def)

lemma linked_append:
  assumes "linked h p (Some b) xs" "a \<notin> set xs"
  shows "linked (set_next b (Some a) (set_next a None h)) p (Some a) (xs @ [a])"
proof -
  obtain ys where xs: "xs = ys @ [b]"
    using assms(1) by (cases xs rule: rev_cases) (auto simp: linked_def)
  have "path (set_next a None h) p (ys @ [b])"
    using assms xs by (simp add: linked_def path_set_next)
  then have "path (set_next b (Some a) (set_next a None h)) p (ys @ [b, a])"
    using assms xs by (intro path_append_last) (auto simp: linked_def set_next_def)
  with assms xs show ?thesis
    by (simp add: linked_def)
qed

text \<open>Taking the first element.\<close>

lemma linked_pop:
  assumes "linked h (Some a) q xs"
  shows "linked h (next_task (h a)) (if next_task (h a) = None then None else q) (tl xs)" "xs = a # tl xs"
  using assms by (cases xs; cases "tl xs"; auto simp: linked_def)+

text \<open>Changing anything but the links leaves the list as it is.\<close>

lemma linked_cong:
  "(\<And>x. x \<in> set xs \<Longrightarrow> next_task (h x) = next_task (h' x)) \<Longrightarrow> linked h p q xs \<longleftrightarrow> linked h' p q xs"
  unfolding linked_def using path_cong [of xs h h' p] by simp

text \<open>The list the pointers represent, for lists that end within the given number of links.\<close>

fun walk :: "nat \<Rightarrow> 'j task_heap \<Rightarrow> nat option \<Rightarrow> nat list" where
  "walk n h None = []"
| "walk 0 h (Some a) = []"
| "walk (Suc n) h (Some a) = a # walk n h (next_task (h a))"

lemma walk_path: "path h p xs \<Longrightarrow> length xs \<le> n \<Longrightarrow> walk n h p = xs"
proof (induction n arbitrary: p xs)
  case 0
  then show ?case by simp
next
  case (Suc n)
  then show ?case by (cases xs) auto
qed

end
