(* ===== verification/WorkerPool.thy ===== *)
theory WorkerPool
  imports TaskQueue
begin

text \<open>
  Model of the queues and threads of \<open>lib/worker_pool.c\<close>: the two bounded queues (fast and slow pool), the
  worker loop, initialisation, stop and shutdown. What a worker does with a task is in the theory of the request
  pipeline.

  The mutex makes a critical section one step. The condition variable is modelled explicitly: a worker that waits
  is in the state \<open>Waiting\<close> until a signal wakes it, and the signal of \<open>worker_pool_enqueue\<close> comes after the
  mutex is released, as a step of its own.
\<close>

section \<open>Pools\<close>

record pool_t =
  pool_head :: "nat option"
  pool_tail :: "nat option"
  pool_workers :: "nat option"
  pool_size :: nat
  num_workers :: nat
  pool_shutdown :: bool
  pool_initialized :: bool

definition zero_pool :: pool_t where
  "zero_pool = \<lparr>pool_head = None, pool_tail = None, pool_workers = None, pool_size = 0, num_workers = 0,
     pool_shutdown = False, pool_initialized = False\<rparr>"

text \<open>The critical section of \<open>worker_pool_enqueue\<close> on the pool it chose.\<close>

definition pool_enqueue :: "nat \<Rightarrow> nat \<Rightarrow> 'j task_heap \<times> pool_t \<Rightarrow> bool \<times> 'j task_heap \<times> pool_t" where
  "pool_enqueue max_size task q =
     (let (h, pool) = q
      in if pool_shutdown pool then (False, h, pool)
         else if max_size > 0 \<and> pool_size pool \<ge> max_size then (False, h, pool)
         else
           (let h1 = set_next task None h
            in case pool_tail pool of
                 None \<Rightarrow> (True, h1, pool\<lparr>pool_tail := Some task, pool_head := Some task, pool_size := pool_size pool + 1\<rparr>)
               | Some t \<Rightarrow> (True, set_next t (Some task) h1, pool\<lparr>pool_tail := Some task, pool_size := pool_size pool + 1\<rparr>)))"

text \<open>The part of the worker's critical section that takes the first task.\<close>

definition pool_dequeue :: "'j task_heap \<times> pool_t \<Rightarrow> (nat \<times> 'j task_heap \<times> pool_t) option" where
  "pool_dequeue q =
     (let (h, pool) = q
      in case pool_head pool of
           None \<Rightarrow> None
         | Some task \<Rightarrow>
             (let nx = next_task (h task)
              in Some (task, h, pool\<lparr>pool_head := nx, pool_tail := (if nx = None then None else pool_tail pool),
                                     pool_size := pool_size pool - 1\<rparr>)))"

text \<open>One pass of a worker through its critical section.\<close>

datatype worker_action = Wait | Quit | Process nat

definition worker_take :: "'j task_heap \<times> pool_t \<Rightarrow> worker_action \<times> 'j task_heap \<times> pool_t" where
  "worker_take q =
     (case pool_dequeue q of
        None \<Rightarrow> (if pool_shutdown (snd q) then Quit else Wait, q)
      | Some (task, q') \<Rightarrow> (Process task, q'))"


section \<open>Both pools\<close>

record 'j worker_pools =
  wp_heap :: "'j task_heap"
  g_fast_pool :: pool_t
  g_slow_pool :: pool_t

text \<open>
  \<open>worker_pool_enqueue\<close>: \<open>is_fast\<close> is what the task's route says (false without a route), \<open>max_size\<close> the
  configured queue size.
\<close>

definition worker_pool_enqueue ::
  "(nat \<Rightarrow> bool) \<Rightarrow> nat \<Rightarrow> nat \<Rightarrow> 'j worker_pools \<Rightarrow> bool \<times> 'j worker_pools"
where
  "worker_pool_enqueue is_fast max_size task w =
     (let fast = (case middleware_ctx (wp_heap w task) of None \<Rightarrow> False | Some ctx \<Rightarrow> is_fast ctx);
          pool = (if fast then g_fast_pool w else g_slow_pool w);
          (ok, h, pool') = pool_enqueue max_size task (wp_heap w, pool)
      in (ok, if fast then w\<lparr>wp_heap := h, g_fast_pool := pool'\<rparr> else w\<lparr>wp_heap := h, g_slow_pool := pool'\<rparr>))"

text \<open>
  \<open>init_pool\<close>: \<open>alloc_ok\<close> says whether \<open>calloc\<close> succeeds and \<open>created\<close> how many of the threads can be
  created before \<open>pthread_create\<close> fails. Without memory the code calls \<open>LOG_FATAL\<close>, which ends the process: \<open>None\<close>.
\<close>

definition init_pool :: "pool_t \<Rightarrow> nat \<Rightarrow> bool \<Rightarrow> nat \<Rightarrow> (int \<times> pool_t) option" where
  "init_pool pool n alloc_ok created =
     (let p = pool\<lparr>pool_initialized := True, num_workers := n\<rparr>
      in if \<not> alloc_ok then None
         else if created < n then Some (- 1, p\<lparr>pool_workers := Some n, num_workers := created\<rparr>)
         else Some (0, p\<lparr>pool_workers := Some n\<rparr>))"

definition stop_pool :: "pool_t \<Rightarrow> pool_t" where
  "stop_pool pool = (if pool_initialized pool then pool\<lparr>pool_shutdown := True\<rparr> else pool)\<lparr>pool_workers := None\<rparr>"

text \<open>The fields after \<open>worker_pool_stop\<close> returned, all workers joined and their arrays freed.\<close>

definition worker_pool_stop :: "'j worker_pools \<Rightarrow> 'j worker_pools" where
  "worker_pool_stop w = w\<lparr>g_fast_pool := stop_pool (g_fast_pool w), g_slow_pool := stop_pool (g_slow_pool w)\<rparr>"

definition worker_pool_shutdown :: "'j worker_pools \<Rightarrow> 'j worker_pools" where
  "worker_pool_shutdown w =
     (let w1 = worker_pool_stop w
      in w1\<lparr>g_fast_pool := (g_fast_pool w1)\<lparr>pool_initialized := False\<rparr>,
            g_slow_pool := (g_slow_pool w1)\<lparr>pool_initialized := False\<rparr>\<rparr>)"

text \<open>How \<open>worker_pool_init\<close> splits the workers.\<close>

definition split_workers :: "nat \<Rightarrow> nat \<Rightarrow> nat \<times> nat" where
  "split_workers n pct =
     (let f0 = n * pct div 100;
          f1 = (if f0 = 0 then 1 else f0);
          fast = (if f1 = n \<and> n > 1 then n - 1 else f1);
          slow = (if n > fast then n - fast else 1)
      in (fast, slow))"

definition worker_pool_init ::
  "nat \<Rightarrow> nat \<Rightarrow> bool \<times> nat \<Rightarrow> bool \<times> nat \<Rightarrow> 'j worker_pools \<Rightarrow> (int \<times> 'j worker_pools) option"
where
  "worker_pool_init n pct fast_env slow_env w =
     (let (fast, slow) = split_workers n pct
      in case init_pool (g_fast_pool w) fast (fst fast_env) (snd fast_env) of
           None \<Rightarrow> None
         | Some (rf, pf) \<Rightarrow>
             (let w1 = w\<lparr>g_fast_pool := pf\<rparr>
              in if rf \<noteq> 0 then Some (- 1, worker_pool_shutdown w1)
                 else
                   (case init_pool (g_slow_pool w1) slow (fst slow_env) (snd slow_env) of
                      None \<Rightarrow> None
                    | Some (rs, ps) \<Rightarrow>
                        (let w2 = w1\<lparr>g_slow_pool := ps\<rparr>
                         in if rs \<noteq> 0 then Some (- 1, worker_pool_shutdown w2) else Some (0, w2)))))"

definition worker_pool_get_size :: "'j worker_pools \<Rightarrow> nat" where
  "worker_pool_get_size w = num_workers (g_fast_pool w) + num_workers (g_slow_pool w)"


section \<open>The queue contract\<close>

definition pool_contents :: "'j task_heap \<times> pool_t \<Rightarrow> nat list" where
  "pool_contents q = walk (pool_size (snd q)) (fst q) (pool_head (snd q))"

definition queue_inv :: "'j task_heap \<times> pool_t \<Rightarrow> bool" where
  "queue_inv q \<longleftrightarrow> linked (fst q) (pool_head (snd q)) (pool_tail (snd q)) (pool_contents q) \<and>
     pool_size (snd q) = length (pool_contents q)"

lemma pool_contents_linked:
  "linked h (pool_head p) (pool_tail p) xs \<Longrightarrow> pool_size p = length xs \<Longrightarrow> pool_contents (h, p) = xs \<and> queue_inv (h, p)"
  by (auto simp: pool_contents_def queue_inv_def linked_def walk_path)

lemma pool_enqueue_spec:
  assumes "queue_inv (h, p)" "task \<notin> set (pool_contents (h, p))"
    and e: "pool_enqueue max_size task (h, p) = (ok, q)"
  shows "queue_inv q" "pool_contents q = (if ok then pool_contents (h, p) @ [task] else pool_contents (h, p))"
    "ok \<longleftrightarrow> \<not> pool_shutdown p \<and> (max_size = 0 \<or> pool_size p < max_size)"
    "pool_shutdown (snd q) = pool_shutdown p"
proof -
  let ?xs = "pool_contents (h, p)"
  have l: "linked h (pool_head p) (pool_tail p) ?xs" and n: "pool_size p = length ?xs"
    using assms(1) by (auto simp: queue_inv_def)
  show ok: "ok \<longleftrightarrow> \<not> pool_shutdown p \<and> (max_size = 0 \<or> pool_size p < max_size)" "pool_shutdown (snd q) = pool_shutdown p"
    using e by (auto simp: pool_enqueue_def Let_def split: if_splits option.splits)
  have "queue_inv q \<and> pool_contents q = (if ok then ?xs @ [task] else ?xs)"
  proof (cases ok)
    case False
    then have "q = (h, p)"
      using e by (auto simp: pool_enqueue_def Let_def split: if_splits option.splits)
    with False assms(1) show ?thesis by simp
  next
    case True
    show ?thesis
    proof (cases "pool_tail p")
      case None
      then have "q = (set_next task None h, p\<lparr>pool_tail := Some task, pool_head := Some task, pool_size := pool_size p + 1\<rparr>)"
        using True e by (auto simp: pool_enqueue_def Let_def split: if_splits)
      moreover have "linked (set_next task None h) (Some task) (Some task) [task]" "?xs = []"
        using linked_append_empty [of h "pool_head p" ?xs task] l None by auto
      ultimately show ?thesis
        using True n pool_contents_linked [of "fst q" "snd q" "[task]"] by simp
    next
      case (Some t)
      then have "q = (set_next t (Some task) (set_next task None h), p\<lparr>pool_tail := Some task, pool_size := pool_size p + 1\<rparr>)"
        using True e by (auto simp: pool_enqueue_def Let_def split: if_splits)
      moreover have "linked (set_next t (Some task) (set_next task None h)) (pool_head p) (Some task) (?xs @ [task])"
        using linked_append [of h "pool_head p" t ?xs task] l Some assms(2) by simp
      ultimately show ?thesis
        using True n pool_contents_linked [of "fst q" "snd q" "?xs @ [task]"] by simp
    qed
  qed
  then show "queue_inv q" "pool_contents q = (if ok then ?xs @ [task] else ?xs)"
    by auto
qed

lemma pool_dequeue_spec:
  assumes "queue_inv (h, p)"
  shows "pool_dequeue (h, p) = None \<longleftrightarrow> pool_contents (h, p) = []"
    "pool_dequeue (h, p) = Some (task, q) \<Longrightarrow> queue_inv q \<and> pool_contents (h, p) = task # pool_contents q \<and>
       fst q = h \<and> pool_shutdown (snd q) = pool_shutdown p"
proof -
  let ?xs = "pool_contents (h, p)"
  have l: "linked h (pool_head p) (pool_tail p) ?xs" and n: "pool_size p = length ?xs"
    using assms by (auto simp: queue_inv_def)
  show "pool_dequeue (h, p) = None \<longleftrightarrow> ?xs = []"
    using linked_empty(1) [OF l] by (auto simp: pool_dequeue_def Let_def split: option.splits)
  assume d: "pool_dequeue (h, p) = Some (task, q)"
  then have hd: "pool_head p = Some task"
    and q: "q = (h, p\<lparr>pool_head := next_task (h task),
        pool_tail := (if next_task (h task) = None then None else pool_tail p), pool_size := pool_size p - 1\<rparr>)"
    by (auto simp: pool_dequeue_def Let_def split: option.splits)
  have "linked h (next_task (h task)) (if next_task (h task) = None then None else pool_tail p) (tl ?xs)" "?xs = task # tl ?xs"
    using linked_pop [of h task "pool_tail p" ?xs] l hd by auto
  then show "queue_inv q \<and> ?xs = task # pool_contents q \<and> fst q = h \<and> pool_shutdown (snd q) = pool_shutdown p"
    using pool_contents_linked [of "fst q" "snd q" "tl ?xs"] q n by (auto simp: length_tl)
qed

interpretation worker_queue: fifo pool_contents queue_inv "\<lambda>task q. task \<notin> set (pool_contents q)" "pool_enqueue max_size" pool_dequeue
  for max_size
proof
  fix q :: "'a task_heap \<times> pool_t" and x
  assume *: "queue_inv q" "x \<notin> set (pool_contents q)"
  obtain ok q' where e: "pool_enqueue max_size x q = (ok, q')"
    by (cases "pool_enqueue max_size x q") auto
  obtain h p where q: "q = (h, p)"
    by (cases q)
  note spec = pool_enqueue_spec [OF *[unfolded q] e[unfolded q]]
  show "queue_inv (snd (pool_enqueue max_size x q))"
    unfolding e snd_conv by (rule spec(1))
  show "fst (pool_enqueue max_size x q) \<Longrightarrow> pool_contents (snd (pool_enqueue max_size x q)) = pool_contents q @ [x]"
    "\<not> fst (pool_enqueue max_size x q) \<Longrightarrow> pool_contents (snd (pool_enqueue max_size x q)) = pool_contents q"
    using spec(2) by (simp_all add: e q [symmetric])
next
  fix q :: "'a task_heap \<times> pool_t" and x q'
  assume *: "queue_inv q"
  obtain h p where q: "q = (h, p)"
    by (cases q)
  show "pool_dequeue q = None \<longleftrightarrow> pool_contents q = []"
    unfolding q by (rule pool_dequeue_spec(1) [OF *[unfolded q]])
  show "pool_dequeue q = Some (x, q') \<Longrightarrow> queue_inv q' \<and> pool_contents q = x # pool_contents q'"
    unfolding q using pool_dequeue_spec(2) [OF *[unfolded q]] by blast
qed



section \<open>A pool and its threads as a transition system\<close>

text \<open>
  \<open>N\<close> workers of one pool, any number of threads that enqueue, and the thread that stops the pool. A signal or
  broadcast that has been decided (the mutex is released) but not yet issued is counted as pending. The ghost
  lists record the accepted tasks and the tasks handed to workers. Threads that own tasks outside the queue
  change them freely.
\<close>

datatype worker_state = Waiting | Ready | Busy nat | Exited

record 'j pool_system =
  ps_queue :: "'j task_heap \<times> pool_t"
  ps_worker :: "nat \<Rightarrow> worker_state"
  ps_signals :: nat
  ps_broadcasts :: nat
  ps_accepted :: "nat list"
  ps_taken :: "nat list"

definition set_worker :: "nat \<Rightarrow> worker_state \<Rightarrow> 'j pool_system \<Rightarrow> 'j pool_system" where
  "set_worker w x s = s\<lparr>ps_worker := (ps_worker s)(w := x)\<rparr>"

definition wake_all :: "(nat \<Rightarrow> worker_state) \<Rightarrow> nat \<Rightarrow> worker_state" where
  "wake_all f w = (if f w = Waiting then Ready else f w)"

inductive worker_step :: "nat \<Rightarrow> nat \<Rightarrow> 'j pool_system \<Rightarrow> 'j pool_system \<Rightarrow> bool" for N :: nat and max_size :: nat where
  enqueue: "task \<notin> set (pool_contents (ps_queue s)) \<Longrightarrow> pool_enqueue max_size task (ps_queue s) = (True, q) \<Longrightarrow>
     worker_step N max_size s (s\<lparr>ps_queue := q, ps_signals := ps_signals s + 1, ps_accepted := ps_accepted s @ [task]\<rparr>)"
| refuse: "task \<notin> set (pool_contents (ps_queue s)) \<Longrightarrow> pool_enqueue max_size task (ps_queue s) = (False, q) \<Longrightarrow>
     worker_step N max_size s (s\<lparr>ps_queue := q\<rparr>)"
| signal: "0 < ps_signals s \<Longrightarrow> w < N \<Longrightarrow> ps_worker s w = Waiting \<Longrightarrow>
     worker_step N max_size s (set_worker w Ready (s\<lparr>ps_signals := ps_signals s - 1\<rparr>))"
| signal_nobody: "0 < ps_signals s \<Longrightarrow> \<forall>w < N. ps_worker s w \<noteq> Waiting \<Longrightarrow>
     worker_step N max_size s (s\<lparr>ps_signals := ps_signals s - 1\<rparr>)"
| spurious: "w < N \<Longrightarrow> ps_worker s w = Waiting \<Longrightarrow> worker_step N max_size s (set_worker w Ready s)"
| take: "w < N \<Longrightarrow> ps_worker s w = Ready \<Longrightarrow> worker_take (ps_queue s) = (Process task, q) \<Longrightarrow>
     worker_step N max_size s (set_worker w (Busy task) (s\<lparr>ps_queue := q, ps_taken := ps_taken s @ [task]\<rparr>))"
| wait: "w < N \<Longrightarrow> ps_worker s w = Ready \<Longrightarrow> worker_take (ps_queue s) = (Wait, q) \<Longrightarrow>
     worker_step N max_size s (set_worker w Waiting (s\<lparr>ps_queue := q\<rparr>))"
| quit: "w < N \<Longrightarrow> ps_worker s w = Ready \<Longrightarrow> worker_take (ps_queue s) = (Quit, q) \<Longrightarrow>
     worker_step N max_size s (set_worker w Exited (s\<lparr>ps_queue := q\<rparr>))"
| finish: "w < N \<Longrightarrow> ps_worker s w = Busy task \<Longrightarrow> worker_step N max_size s (set_worker w Ready s)"
| stop: "ps_queue s = (h, p) \<Longrightarrow>
     worker_step N max_size s (s\<lparr>ps_queue := (h, p\<lparr>pool_shutdown := True\<rparr>), ps_broadcasts := ps_broadcasts s + 1\<rparr>)"
| broadcast: "0 < ps_broadcasts s \<Longrightarrow>
     worker_step N max_size s (s\<lparr>ps_broadcasts := ps_broadcasts s - 1, ps_worker := wake_all (ps_worker s)\<rparr>)"
| outside: "ps_queue s = (h, p) \<Longrightarrow> a \<notin> set (pool_contents (ps_queue s)) \<Longrightarrow>
     worker_step N max_size s (s\<lparr>ps_queue := (h(a := t), p)\<rparr>)"

definition worker_start :: "nat \<Rightarrow> 'j pool_system \<Rightarrow> bool" where
  "worker_start N s \<longleftrightarrow>
     (\<exists>h. ps_queue s = (h, zero_pool)) \<and> ps_worker s = (\<lambda>w. if w < N then Ready else Exited) \<and>
     ps_signals s = 0 \<and> ps_broadcasts s = 0 \<and> ps_accepted s = [] \<and> ps_taken s = []"

definition awake :: "nat \<Rightarrow> 'j pool_system \<Rightarrow> nat set" where
  "awake N s = {w. w < N \<and> ps_worker s w \<noteq> Waiting \<and> ps_worker s w \<noteq> Exited}"

abbreviation stopped :: "'j pool_system \<Rightarrow> bool" where
  "stopped s \<equiv> pool_shutdown (snd (ps_queue s))"

abbreviation queued :: "'j pool_system \<Rightarrow> nat list" where
  "queued s \<equiv> pool_contents (ps_queue s)"

definition worker_inv :: "nat \<Rightarrow> nat \<Rightarrow> 'j pool_system \<Rightarrow> bool" where
  "worker_inv N max_size s \<longleftrightarrow>
     queue_inv (ps_queue s) \<and> ps_accepted s = ps_taken s @ queued s \<and>
     (max_size > 0 \<longrightarrow> length (queued s) \<le> max_size) \<and>
     ((\<exists>w < N. ps_worker s w = Waiting) \<longrightarrow> length (queued s) \<le> ps_signals s + card (awake N s)) \<and>
     ((\<exists>w < N. ps_worker s w = Exited) \<longrightarrow> stopped s \<and> queued s = []) \<and>
     (stopped s \<and> ps_broadcasts s = 0 \<longrightarrow> (\<forall>w < N. ps_worker s w \<noteq> Waiting))"

lemma finite_awake [simp]: "finite (awake N s)"
  by (simp add: awake_def)

lemma worker_take_cases:
  assumes "queue_inv q"
  shows "worker_take q = (Process task, q') \<Longrightarrow> queue_inv q' \<and> pool_contents q = task # pool_contents q' \<and>
      pool_shutdown (snd q') = pool_shutdown (snd q)"
    "worker_take q = (Wait, q') \<Longrightarrow> q' = q \<and> pool_contents q = [] \<and> \<not> pool_shutdown (snd q)"
    "worker_take q = (Quit, q') \<Longrightarrow> q' = q \<and> pool_contents q = [] \<and> pool_shutdown (snd q)"
proof -
  obtain h p where q: "q = (h, p)"
    by (cases q)
  note spec = pool_dequeue_spec [OF assms [unfolded q]]
  show "worker_take q = (Process task, q') \<Longrightarrow> queue_inv q' \<and> pool_contents q = task # pool_contents q' \<and>
      pool_shutdown (snd q') = pool_shutdown (snd q)"
    unfolding q using spec(2) by (auto simp: worker_take_def split: option.splits if_splits)
  show "worker_take q = (Wait, q') \<Longrightarrow> q' = q \<and> pool_contents q = [] \<and> \<not> pool_shutdown (snd q)"
    "worker_take q = (Quit, q') \<Longrightarrow> q' = q \<and> pool_contents q = [] \<and> pool_shutdown (snd q)"
    unfolding q using spec(1) by (auto simp: worker_take_def split: option.splits if_splits)
qed

lemma awake_set_worker:
  assumes "w < N"
  shows "awake N (set_worker w x s) = (if x \<noteq> Waiting \<and> x \<noteq> Exited then insert w (awake N s) else awake N s - {w})"
  using assms by (auto simp: awake_def set_worker_def)

lemma pool_enqueue_True:
  assumes "queue_inv q" "task \<notin> set (pool_contents q)" "pool_enqueue max_size task q = (True, q')"
  shows "queue_inv q' \<and> pool_contents q' = pool_contents q @ [task] \<and> \<not> pool_shutdown (snd q) \<and> \<not> pool_shutdown (snd q') \<and>
     (max_size > 0 \<longrightarrow> length (pool_contents q) < max_size)"
proof -
  obtain h p where q: "q = (h, p)"
    by (cases q)
  show ?thesis
    using pool_enqueue_spec [of h p task max_size True q'] assms unfolding q by (auto simp: queue_inv_def)
qed

lemma pool_enqueue_False:
  assumes "pool_enqueue max_size task q = (False, q')"
  shows "q' = q"
  using assms by (auto simp: pool_enqueue_def Let_def split: prod.splits if_splits option.splits)


lemma worker_inv_dest:
  assumes "worker_inv N max_size s"
  shows "queue_inv (ps_queue s)" "ps_accepted s = ps_taken s @ queued s" "max_size > 0 \<Longrightarrow> length (queued s) \<le> max_size"
    "w < N \<Longrightarrow> ps_worker s w = Waiting \<Longrightarrow> length (queued s) \<le> ps_signals s + card (awake N s)"
    "w < N \<Longrightarrow> ps_worker s w = Exited \<Longrightarrow> stopped s \<and> queued s = []"
    "stopped s \<Longrightarrow> ps_broadcasts s = 0 \<Longrightarrow> w < N \<Longrightarrow> ps_worker s w \<noteq> Waiting"
  using assms by (auto simp: worker_inv_def)

text \<open>Steps that change neither the queue nor the ghost lists, only threads and pending wake-ups.\<close>

lemma worker_inv_threads:
  assumes inv: "worker_inv N max_size s"
    and same: "ps_queue t = ps_queue s" "ps_accepted t = ps_accepted s" "ps_taken t = ps_taken s"
    and wait: "\<And>w. w < N \<Longrightarrow> ps_worker t w = Waiting \<Longrightarrow>
      length (queued s) \<le> ps_signals t + card (awake N t) \<and> (\<not> stopped s \<or> ps_broadcasts t > 0)"
    and exit: "\<And>w. w < N \<Longrightarrow> ps_worker t w = Exited \<Longrightarrow> stopped s \<and> queued s = []"
  shows "worker_inv N max_size t"
  using inv wait exit unfolding worker_inv_def same by (metis neq0_conv)

lemma awake_insert: "w < N \<Longrightarrow> ps_worker s w = Waiting \<Longrightarrow> card (insert w (awake N s)) = Suc (card (awake N s))"
  by (simp add: awake_def)

lemma worker_step_inv:
  assumes "worker_step N max_size s t" and inv: "worker_inv N max_size s"
  shows "worker_inv N max_size t"
  using assms(1)
proof cases
  case (enqueue task q)
  note e = pool_enqueue_True [OF worker_inv_dest(1) [OF inv] enqueue(2,3)]
  then have "\<forall>w < N. ps_worker s w \<noteq> Exited"
    using worker_inv_dest(5) [OF inv] by blast
  with inv e show ?thesis
    unfolding worker_inv_def enqueue(1) by (auto simp: awake_def)
next
  case (refuse task q)
  with inv pool_enqueue_False [OF refuse(3)] show ?thesis
    by simp
next
  case (signal w)
  have "awake N t = insert w (awake N s)"
    using signal by (auto simp: awake_def set_worker_def)
  then have "card (awake N t) = Suc (card (awake N s))" "ps_signals t = ps_signals s - 1" "ps_broadcasts t = ps_broadcasts s"
      "ps_worker t = (ps_worker s)(w := Ready)" "ps_queue t = ps_queue s" "ps_accepted t = ps_accepted s" "ps_taken t = ps_taken s"
    using signal awake_insert [of w N s] by (auto simp: set_worker_def)
  then show ?thesis
    using worker_inv_dest [OF inv] signal(2,3,4)
    by (intro worker_inv_threads [OF inv]) (fastforce split: if_splits)+
next
  case signal_nobody
  then show ?thesis
    using worker_inv_dest(5) [OF inv] by (intro worker_inv_threads [OF inv]) auto
next
  case (spurious w)
  have "awake N t = insert w (awake N s)"
    using spurious by (auto simp: awake_def set_worker_def)
  then have "card (awake N t) = Suc (card (awake N s))" "ps_signals t = ps_signals s" "ps_broadcasts t = ps_broadcasts s"
      "ps_worker t = (ps_worker s)(w := Ready)" "ps_queue t = ps_queue s" "ps_accepted t = ps_accepted s" "ps_taken t = ps_taken s"
    using spurious awake_insert [of w N s] by (auto simp: set_worker_def)
  then show ?thesis
    using worker_inv_dest [OF inv] spurious(2,3)
    by (intro worker_inv_threads [OF inv]) (fastforce split: if_splits)+
next
  case (take w task q)
  note t = worker_take_cases(1) [OF worker_inv_dest(1) [OF inv] take(4)]
  then have "\<forall>w < N. ps_worker s w \<noteq> Exited"
    using worker_inv_dest(5) [OF inv] by (metis list.distinct(1))
  moreover have "awake N t = awake N s"
    using take by (auto simp: awake_def set_worker_def)
  ultimately show ?thesis
    using inv t take(2,3) unfolding worker_inv_def take(1) by (auto simp: set_worker_def)
next
  case (wait w q)
  note t = worker_take_cases(2) [OF worker_inv_dest(1) [OF inv] wait(4)]
  show ?thesis
    unfolding wait(1)
    using worker_inv_dest [OF inv] t wait(2,3)
    by (intro worker_inv_threads [OF inv]) (auto simp: set_worker_def split: if_splits)
next
  case (quit w q)
  note t = worker_take_cases(3) [OF worker_inv_dest(1) [OF inv] quit(4)]
  show ?thesis
    unfolding quit(1)
    using worker_inv_dest [OF inv] t quit(2,3)
    by (intro worker_inv_threads [OF inv]) (auto simp: set_worker_def split: if_splits)
next
  case (finish w task)
  have "awake N t = awake N s"
    using finish by (auto simp: awake_def set_worker_def)
  then show ?thesis
    unfolding finish(1)
    using worker_inv_dest [OF inv] finish(2,3)
    by (intro worker_inv_threads [OF inv]) (auto simp: set_worker_def split: if_splits)
next
  case (stop h p)
  then show ?thesis
    using inv by (auto simp: worker_inv_def queue_inv_def pool_contents_def awake_def)
next
  case broadcast
  have "ps_worker t w \<noteq> Waiting" "ps_worker t w = Exited \<longleftrightarrow> ps_worker s w = Exited" for w
    unfolding broadcast(1) by (auto simp: wake_all_def)
  then show ?thesis
    using worker_inv_dest(5) [OF inv] broadcast by (intro worker_inv_threads [OF inv]) auto
next
  case (outside h p a x)
  have "next_task (h y) = next_task ((h(a := x)) y)" if "y \<in> set (queued s)" for y
    using outside(3) that by auto
  then have "linked (h(a := x)) (pool_head p) (pool_tail p) (queued s)"
    using worker_inv_dest(1) [OF inv] outside(2) linked_cong [of "queued s" h "h(a := x)"] by (simp add: queue_inv_def)
  then have "pool_contents (h(a := x), p) = queued s \<and> queue_inv (h(a := x), p)"
    using worker_inv_dest(1) [OF inv] outside(2) by (intro pool_contents_linked) (auto simp: queue_inv_def)
  then show ?thesis
    using inv outside(2) unfolding worker_inv_def outside(1) by (auto simp: awake_def)
qed


interpretation workers: invariant_system "worker_start N" "worker_step N max_size" "worker_inv N max_size" for N max_size
proof
  show "worker_inv N max_size s" if "worker_start N s" for s :: "'a pool_system"
  proof -
    from that obtain h where s: "ps_queue s = (h, zero_pool)" "ps_worker s = (\<lambda>w. if w < N then Ready else Exited)"
        "ps_accepted s = []" "ps_taken s = []"
      by (auto simp: worker_start_def)
    moreover from s(1) have "queued s = []" "queue_inv (ps_queue s)"
      using pool_contents_linked [of h zero_pool "[]"] by (auto simp: zero_pool_def linked_def)
    ultimately show ?thesis
      by (auto simp: worker_inv_def zero_pool_def)
  qed
qed (rule worker_step_inv)


section \<open>Properties\<close>

text \<open>C7: first in, first out, nothing lost and nothing twice: in every reachable state of a pool the accepted
  tasks are those handed to workers, in order, followed by those in the queue, and the queue respects its bound.\<close>

theorem worker_pool_exactly_once:
  assumes "reach (worker_start N) (worker_step N max_size) s"
  shows "ps_accepted s = ps_taken s @ pool_contents (ps_queue s) \<and>
     (0 < max_size \<longrightarrow> length (pool_contents (ps_queue s)) \<le> max_size)"
  using workers.reach_inv [OF assms] by (simp add: worker_inv_def)

text \<open>One worker: asleep, then with a task queued for it, and after a stop.\<close>

definition idle_pool :: "nat pool_system" where
  "idle_pool = \<lparr>ps_queue = (\<lambda>_. zero_task, zero_pool), ps_worker = (\<lambda>w. if w < 1 then Ready else Exited),
     ps_signals = 0, ps_broadcasts = 0, ps_accepted = [], ps_taken = []\<rparr>"

definition asleep_pool :: "nat pool_system" where
  "asleep_pool = set_worker 0 Waiting idle_pool"

definition loaded_pool :: "nat pool_system" where
  "loaded_pool = asleep_pool\<lparr>ps_queue := snd (pool_enqueue 10 7 (ps_queue idle_pool)), ps_signals := 1, ps_accepted := [7]\<rparr>"

definition stopped_pool :: "nat pool_system" where
  "stopped_pool = idle_pool\<lparr>ps_queue := (\<lambda>_. zero_task, zero_pool\<lparr>pool_shutdown := True\<rparr>), ps_broadcasts := 1\<rparr>"

lemmas sample_pool_defs = idle_pool_def asleep_pool_def loaded_pool_def stopped_pool_def zero_pool_def set_worker_def
  pool_contents_def worker_take_def pool_dequeue_def pool_enqueue_def set_next_def zero_task_def

lemma idle_reach: "reach (worker_start 1) (worker_step 1 10) idle_pool"
  by (rule reach_init) (auto simp: worker_start_def idle_pool_def)

lemma asleep_reach: "reach (worker_start 1) (worker_step 1 10) asleep_pool"
proof (rule reach_step [OF idle_reach])
  have "worker_step 1 10 idle_pool (set_worker 0 Waiting (idle_pool\<lparr>ps_queue := ps_queue idle_pool\<rparr>))"
    by (rule worker_step.wait) (simp_all add: sample_pool_defs)
  then show "worker_step 1 10 idle_pool asleep_pool"
    by (simp add: asleep_pool_def)
qed

lemma loaded_reach: "reach (worker_start 1) (worker_step 1 10) loaded_pool"
proof (rule reach_step [OF asleep_reach])
  have "worker_step 1 10 asleep_pool (asleep_pool\<lparr>ps_queue := snd (pool_enqueue 10 7 (ps_queue idle_pool)),
      ps_signals := ps_signals asleep_pool + 1, ps_accepted := ps_accepted asleep_pool @ [7]\<rparr>)"
    by (rule worker_step.enqueue) (simp_all add: sample_pool_defs Let_def)
  then show "worker_step 1 10 asleep_pool loaded_pool"
    by (simp add: sample_pool_defs)
qed

lemma exited_reach: "reach (worker_start 1) (worker_step 1 10) (set_worker 0 Exited stopped_pool)"
proof -
  have "worker_step 1 10 idle_pool (idle_pool\<lparr>ps_queue := (\<lambda>_. zero_task, zero_pool\<lparr>pool_shutdown := True\<rparr>),
      ps_broadcasts := ps_broadcasts idle_pool + 1\<rparr>)"
    by (rule worker_step.stop) (simp add: idle_pool_def)
  then have "worker_step 1 10 idle_pool stopped_pool"
    by (simp add: stopped_pool_def idle_pool_def)
  moreover have "worker_step 1 10 stopped_pool (set_worker 0 Exited (stopped_pool\<lparr>ps_queue := ps_queue stopped_pool\<rparr>))"
    by (rule worker_step.quit) (simp_all add: sample_pool_defs)
  ultimately show ?thesis
    using reach_step [OF reach_step [OF idle_reach]] by simp
qed

theorem worker_pool_exactly_once_witness:
  "ps_accepted loaded_pool = [7] \<and> ps_accepted loaded_pool = ps_taken loaded_pool @ pool_contents (ps_queue loaded_pool) \<and>
   length (pool_contents (ps_queue loaded_pool)) \<le> 10"
  using worker_pool_exactly_once [OF loaded_reach] by (simp add: loaded_pool_def)

text \<open>C17: no wake-up is lost although the signal comes after the mutex is released: as long as some worker
  sleeps, the queued tasks are at most the pending signals and the workers that are awake; so when every worker sleeps
  and no signal is pending, the queue is empty.\<close>

theorem worker_pool_no_lost_wakeup:
  assumes "reach (worker_start N) (worker_step N max_size) s" "w < N" "ps_worker s w = Waiting"
  shows "length (pool_contents (ps_queue s)) \<le> ps_signals s + card (awake N s)"
  using worker_inv_dest(4) [OF workers.reach_inv [OF assms(1)] assms(2,3)] .

theorem worker_pool_no_lost_wakeup_witness:
  "ps_worker loaded_pool 0 = Waiting \<and>
   length (pool_contents (ps_queue loaded_pool)) \<le> ps_signals loaded_pool + card (awake 1 loaded_pool)"
proof -
  have "ps_worker loaded_pool 0 = Waiting"
    by (simp add: loaded_pool_def asleep_pool_def set_worker_def)
  with worker_pool_no_lost_wakeup [OF loaded_reach, of 0] show ?thesis by simp
qed

text \<open>C18: a graceful stop loses no task: a worker leaves its loop only after the pool was stopped and its queue
  is empty, so every accepted task has been handed to a worker; and once the stop has been broadcast no worker sleeps.\<close>

theorem worker_pool_graceful_stop:
  assumes "reach (worker_start N) (worker_step N max_size) s" "w < N"
  shows "(ps_worker s w = Exited \<longrightarrow> pool_shutdown (snd (ps_queue s)) \<and> ps_accepted s = ps_taken s) \<and>
     (pool_shutdown (snd (ps_queue s)) \<and> ps_broadcasts s = 0 \<longrightarrow> ps_worker s w \<noteq> Waiting)"
  using worker_inv_dest(2,5,6) [OF workers.reach_inv [OF assms(1)]] assms(2) by fastforce

theorem worker_pool_graceful_stop_witness:
  "ps_worker (set_worker 0 Exited stopped_pool) 0 = Exited \<and>
   ps_accepted (set_worker 0 Exited stopped_pool) = ps_taken (set_worker 0 Exited stopped_pool)"
  using worker_pool_graceful_stop [OF exited_reach, of 0] by (simp add: set_worker_def)

text \<open> both pools get at least one worker, and from two workers on the configured number is divided exactly
  between them, whatever the percentage up to 100.\<close>

theorem split_workers_sound:
  "fst (split_workers n pct) \<ge> 1 \<and> snd (split_workers n pct) \<ge> 1 \<and>
   (2 \<le> n \<and> pct \<le> 100 \<longrightarrow> fst (split_workers n pct) + snd (split_workers n pct) = n)"
proof -
  have "n * pct div 100 \<le> n" if "pct \<le> 100"
    using that by (metis div_le_mono mult_le_mono2 nonzero_mult_div_cancel_right zero_neq_numeral)
  then show ?thesis
    by (auto simp: split_workers_def Let_def)
qed


theorem split_workers_sound_witness:
  "split_workers 8 75 = (6, 2) \<and> fst (split_workers 8 75) + snd (split_workers 8 75) = 8"
  using split_workers_sound [of 8 75] by (simp add: split_workers_def)

end
