(* ===== verification/Context.thy ===== *)
theory Context
  imports CLib
begin

text \<open>
  Model of \<open>lib/context.c\<close> and \<open>lib/thread_error.c\<close>: the thread-local state a worker thread carries while it
  processes one request. Each buffer is the C string it holds.
\<close>

section \<open>The request context\<close>

record request_context =
  tl_user :: cstring
  tl_session :: cstring
  tl_client_ip :: cstring
  tl_uri :: cstring
  tl_content_type :: cstring

definition copy_or_empty :: "cstring_ptr \<Rightarrow> nat \<Rightarrow> cstring" where
  "copy_or_empty src n = (case src of None \<Rightarrow> [] | Some s \<Rightarrow> strlcpy s n)"

definition context_set :: "cstring_ptr \<Rightarrow> cstring_ptr \<Rightarrow> cstring_ptr \<Rightarrow> cstring_ptr \<Rightarrow> request_context \<Rightarrow> request_context" where
  "context_set user session ip request_uri c =
     c\<lparr>tl_user := copy_or_empty user 33, tl_session := copy_or_empty session 37,
       tl_client_ip := copy_or_empty ip 64, tl_uri := copy_or_empty request_uri 1024\<rparr>"

definition context_clear :: "request_context \<Rightarrow> request_context" where
  "context_clear c = c\<lparr>tl_user := [], tl_session := [], tl_client_ip := [], tl_uri := [], tl_content_type := []\<rparr>"

definition or_null :: "cstring \<Rightarrow> cstring_ptr" where
  "or_null s = (if s = [] then None else Some s)"

definition context_get_user :: "request_context \<Rightarrow> cstring_ptr" where
  "context_get_user c = or_null (tl_user c)"

definition context_get_session_id :: "request_context \<Rightarrow> cstring_ptr" where
  "context_get_session_id c = or_null (tl_session c)"

definition context_get_client_ip :: "request_context \<Rightarrow> cstring_ptr" where
  "context_get_client_ip c = or_null (tl_client_ip c)"

definition context_set_content_type :: "cstring_ptr \<Rightarrow> request_context \<Rightarrow> request_context" where
  "context_set_content_type ctype c = c\<lparr>tl_content_type := copy_or_empty ctype 128\<rparr>"

definition context_get_content_type :: "request_context \<Rightarrow> cstring_ptr" where
  "context_get_content_type c = or_null (tl_content_type c)"


section \<open>The thread error\<close>

datatype ThreadErrorLevel = TL_ERR_NONE | TL_ERR_WARN | TL_ERR_ERROR

record thread_error =
  tl_err_level :: ThreadErrorLevel
  tl_err_msg :: cstring

definition MAX_ERR_MSG_LEN :: nat where
  "MAX_ERR_MSG_LEN = 1024"

text \<open>The argument is the formatted text.\<close>

definition set_thread_error :: "ThreadErrorLevel \<Rightarrow> string \<Rightarrow> thread_error \<Rightarrow> thread_error" where
  "set_thread_error level text e = e\<lparr>tl_err_level := level, tl_err_msg := snprintf text MAX_ERR_MSG_LEN\<rparr>"

definition get_thread_error_msg :: "thread_error \<Rightarrow> cstring" where
  "get_thread_error_msg e = tl_err_msg e"

definition get_thread_error_level :: "thread_error \<Rightarrow> ThreadErrorLevel" where
  "get_thread_error_level e = tl_err_level e"

definition clear_thread_error :: "thread_error \<Rightarrow> thread_error" where
  "clear_thread_error e = e\<lparr>tl_err_level := TL_ERR_NONE, tl_err_msg := []\<rparr>"

text \<open>The state of a thread between requests.\<close>

definition no_context :: request_context where
  "no_context = \<lparr>tl_user = [], tl_session = [], tl_client_ip = [], tl_uri = [], tl_content_type = []\<rparr>"

definition no_error :: thread_error where
  "no_error = \<lparr>tl_err_level = TL_ERR_NONE, tl_err_msg = []\<rparr>"

lemma context_clear_eq [simp]: "context_clear c = no_context"
  by (cases c) (simp add: context_clear_def no_context_def)

lemma clear_thread_error_eq [simp]: "clear_thread_error e = no_error"
  by (cases e) (simp add: clear_thread_error_def no_error_def)

lemma context_set_user:
  "context_get_user (context_set (Some u) s i r c) = (if u = [] then None else Some (take 32 u))"
  "context_get_user (context_set None s i r c) = None"
  by (auto simp: context_get_user_def context_set_def copy_or_empty_def or_null_def strlcpy_def)

end
