(* ===== verification/Logger.thy ===== *)
theory Logger
  imports JsonUtil
begin

text \<open>
  Model of \<open>lib/logger.c\<close>: the fixed pool of log records with its free stack, the ring of queued records, the
  logger thread that writes them in batches, and the formatting of a record as a JSON line.

  A \<open>log_entry_t *\<close> is an index into \<open>g_log_buffers\<close>. The mutex makes a critical section one step. The results of
  the \<open>write\<close> and \<open>writev\<close> system calls are arguments; what reaches \<open>stderr\<close> is the list of bytes written.
\<close>

section \<open>State\<close>

definition POOL_SIZE :: nat where
  "POOL_SIZE = 4096"

definition SYNC_BUF_SIZE :: nat where
  "SYNC_BUF_SIZE = 4096"

definition BATCH_SIZE :: nat where
  "BATCH_SIZE = 128"

text \<open>A record's \<open>data\<close> up to its \<open>len\<close> is a string.\<close>

record logger =
  g_log_buffers :: "string list"
  log_free_stack :: "nat list"
  g_free_top :: nat
  g_log_queue :: "nat list"
  g_log_head :: nat
  g_log_tail :: nat
  g_log_count :: nat
  g_logger_running :: bool
  g_dropped_logs :: "64 word"
  g_shutdown_done :: bool

definition static_logger :: logger where
  "static_logger = \<lparr>g_log_buffers = replicate POOL_SIZE [], log_free_stack = replicate POOL_SIZE 0, g_free_top = 0,
     g_log_queue = replicate POOL_SIZE 0, g_log_head = 0, g_log_tail = 0, g_log_count = 0,
     g_logger_running = False, g_dropped_logs = 0, g_shutdown_done = False\<rparr>"

text \<open>\<open>logger_init_routine\<close>; the flag says whether the thread could be created.\<close>

definition logger_init_routine :: "bool \<Rightarrow> logger \<Rightarrow> logger" where
  "logger_init_routine created st =
     st\<lparr>log_free_stack := [0..<POOL_SIZE], g_free_top := POOL_SIZE, g_logger_running := created\<rparr>"


section \<open>The ring\<close>

text \<open>The end of the producer's critical section: the record goes to the head of the ring.\<close>

definition log_push :: "nat \<Rightarrow> logger \<Rightarrow> bool \<times> logger" where
  "log_push entry st =
     (if g_log_count st < POOL_SIZE
      then (True, st\<lparr>g_log_queue := (g_log_queue st)[g_log_head st := entry],
                     g_log_head := (g_log_head st + 1) mod POOL_SIZE, g_log_count := g_log_count st + 1\<rparr>)
      else (False, st))"

text \<open>One turn of the logger thread's collecting loop.\<close>

definition log_pop :: "logger \<Rightarrow> (nat \<times> logger) option" where
  "log_pop st =
     (if g_log_count st > 0
      then Some (g_log_queue st ! g_log_tail st,
                 st\<lparr>g_log_tail := (g_log_tail st + 1) mod POOL_SIZE, g_log_count := g_log_count st - 1\<rparr>)
      else None)"

text \<open>
  The critical section of \<open>try_enqueue_log\<close>; its test of \<open>g_logger_running\<close> comes before the lock.
\<close>

definition enqueue_section :: "string \<Rightarrow> logger \<Rightarrow> bool \<times> logger" where
  "enqueue_section line st =
     (if g_free_top st > 0 \<and> g_log_count st < POOL_SIZE
      then
        (let top = g_free_top st - 1;
             entry = log_free_stack st ! top
         in log_push entry (st\<lparr>g_free_top := top, g_log_buffers := (g_log_buffers st)[entry := line]\<rparr>))
      else (False, st))"

definition try_enqueue_log :: "string \<Rightarrow> logger \<Rightarrow> bool \<times> logger" where
  "try_enqueue_log line st = (if \<not> g_logger_running st then (False, st) else enqueue_section line st)"

text \<open>The loop that collects a batch; the number is the room left in the batch.\<close>

fun collect_batch :: "nat \<Rightarrow> logger \<Rightarrow> nat list \<times> logger" where
  "collect_batch 0 st = ([], st)"
| "collect_batch (Suc n) st =
     (case log_pop st of
        None \<Rightarrow> ([], st)
      | Some (e, st1) \<Rightarrow> (let (es, st2) = collect_batch n st1 in (e # es, st2)))"

fun return_batch_to_pool :: "nat list \<Rightarrow> logger \<Rightarrow> logger" where
  "return_batch_to_pool [] st = st"
| "return_batch_to_pool (b # bs) st =
     return_batch_to_pool bs
       (if g_free_top st < POOL_SIZE
        then st\<lparr>log_free_stack := (log_free_stack st)[g_free_top st := b], g_free_top := g_free_top st + 1\<rparr>
        else st)"


section \<open>Writing\<close>

text \<open>
  The outcome of a \<open>write\<close> or \<open>writev\<close>: the number of bytes the kernel took, an interruption, or another error.
  A list of outcomes drives a loop; a loop that still runs when the list ends is \<open>Writing\<close>.
\<close>

datatype io_result = Wrote nat | Interrupted | Io_error

datatype write_state = Completed | Failed | Writing

text \<open>\<open>robust_write\<close>: the bytes written and how it ended.\<close>

fun robust_write :: "io_result list \<Rightarrow> string \<Rightarrow> string \<times> write_state" where
  "robust_write rs [] = ([], Completed)"
| "robust_write [] buf = ([], Writing)"
| "robust_write (r # rs) buf =
     (case r of
        Wrote n \<Rightarrow>
          (let k = min n (length buf); (out, s) = robust_write rs (drop k buf) in (take k buf @ out, s))
      | Interrupted \<Rightarrow> robust_write rs buf
      | Io_error \<Rightarrow> ([], Failed))"

text \<open>
  \<open>advance_iovecs\<close>: the vectors from \<open>iov_offset\<close> on are a list of the byte blocks they still point to.
\<close>

fun advance_iovecs :: "string list \<Rightarrow> nat \<Rightarrow> string list" where
  "advance_iovecs [] n = []"
| "advance_iovecs (v # vs) n =
     (if n = 0 then v # vs
      else if n \<ge> length v then advance_iovecs vs (n - length v)
      else drop n v # vs)"

text \<open>
  \<open>write_batch_iovecs\<close>: \<open>left\<close> is \<open>total_to_write - total_written\<close>. \<open>writev\<close> takes the bytes of the vectors in order.
\<close>

fun write_batch_iovecs :: "io_result list \<Rightarrow> string list \<Rightarrow> nat \<Rightarrow> string \<times> write_state" where
  "write_batch_iovecs rs iov left =
     (if left = 0 \<or> iov = [] then ([], Completed)
      else
        (case rs of
           [] \<Rightarrow> ([], Writing)
         | Wrote n # rs' \<Rightarrow>
             (let k = min n (length (concat iov));
                  (out, s) = write_batch_iovecs rs' (advance_iovecs iov k) (left - k)
              in (take k (concat iov) @ out, s))
         | Interrupted # rs' \<Rightarrow> write_batch_iovecs rs' iov left
         | Io_error # rs' \<Rightarrow> ([], Failed)))"

declare write_batch_iovecs.simps [simp del]


section \<open>Formatting\<close>

text \<open>The thread's request id, \<open>tl_request_id\<close> of 128 bytes.\<close>

definition logger_set_request_id :: "cstring_ptr \<Rightarrow> string" where
  "logger_set_request_id req_id = (case req_id of Some r \<Rightarrow> strlcpy r 128 | None \<Rightarrow> [])"

definition logger_clear_request_id :: string where
  "logger_clear_request_id = []"

datatype LogLevel = LOG_LEVEL_INFO | LOG_LEVEL_WARN | LOG_LEVEL_AUDIT | LOG_LEVEL_ERROR | LOG_LEVEL_FATAL

fun level_string :: "LogLevel \<Rightarrow> string" where
  "level_string LOG_LEVEL_INFO = ''INFO''"
| "level_string LOG_LEVEL_WARN = ''WARN''"
| "level_string LOG_LEVEL_AUDIT = ''AUDIT''"
| "level_string LOG_LEVEL_ERROR = ''ERROR''"
| "level_string LOG_LEVEL_FATAL = ''FATAL''"

text \<open>The message in \<open>msg_buf\<close> (2048 bytes): a longer one is cut and marked.\<close>

definition log_message :: "string \<Rightarrow> string" where
  "log_message text =
     (if length text \<ge> 2048 then take (2048 - 15 - 1) text @ ''... [TRUNCATED]'' else text)"

definition quoted :: "string \<Rightarrow> string" where
  "quoted s = [CHR 0x22] @ s @ [CHR 0x22]"

text \<open>The whole line, before it is cut to the size of \<open>sync_buf\<close>.\<close>

definition log_line :: "LogLevel \<Rightarrow> string \<Rightarrow> string \<Rightarrow> string \<Rightarrow> string" where
  "log_line level request_id tid text =
     (let escaped_msg = the (json_encode_string (Some (log_message text)) (Some []) 12288)
      in if request_id \<noteq> [] then
           (let escaped_req_id = the (json_encode_string (Some request_id) (Some []) 256)
            in ''{'' @ quoted ''level'' @ '':'' @ quoted (level_string level) @
               '','' @ quoted ''reqID'' @ '':'' @ quoted escaped_req_id @
               '','' @ quoted ''msg'' @ '':'' @ quoted escaped_msg @
               '','' @ quoted ''threadID'' @ '':'' @ quoted tid @ ''}'' @ [CHR 0x0A])
         else
           ''{'' @ quoted ''level'' @ '':'' @ quoted (level_string level) @
           '','' @ quoted ''msg'' @ '':'' @ quoted escaped_msg @
           '','' @ quoted ''threadID'' @ '':'' @ quoted tid @ ''}'' @ [CHR 0x0A])"

text \<open>What \<open>snprintf\<close> leaves in \<open>sync_buf\<close>, which is what is logged.\<close>

definition sync_line :: "LogLevel \<Rightarrow> string \<Rightarrow> string \<Rightarrow> string \<Rightarrow> string" where
  "sync_line level request_id tid text = snprintf (log_line level request_id tid text) SYNC_BUF_SIZE"

text \<open>\<open>fallback_write_log\<close>: the bytes it writes (with writes that succeed) and the drop counter.\<close>

definition fallback_write_log :: "LogLevel \<Rightarrow> string \<Rightarrow> logger \<Rightarrow> string \<times> logger" where
  "fallback_write_log level line st =
     (if level = LOG_LEVEL_FATAL \<or> level = LOG_LEVEL_ERROR \<or> level = LOG_LEVEL_WARN \<or> level = LOG_LEVEL_AUDIT
      then (line, st)
      else
        (let drops = g_dropped_logs st + 1;
             msg = ''{'' @ quoted ''level'' @ '':'' @ quoted ''WARN'' @ '','' @ quoted ''msg'' @ '':'' @ [CHR 0x22] @
               ''Logger dropping messages. Total dropped: '' @ dec (unat drops) @ [CHR 0x22] @ ''}'' @ [CHR 0x0A]
         in (if drops mod 100 = 0 then snprintf msg 128 else [], st\<lparr>g_dropped_logs := drops\<rparr>)))"

text \<open>
  \<open>logger_log\<close> without the delays of other threads: the bytes it writes itself, the state, and whether the
  process exits.
\<close>

definition logger_shutdown :: "logger \<Rightarrow> logger" where
  "logger_shutdown st =
     (if g_shutdown_done st then st
      else if g_logger_running st then st\<lparr>g_shutdown_done := True, g_logger_running := False\<rparr>
      else st\<lparr>g_shutdown_done := True\<rparr>)"

definition logger_log :: "LogLevel \<Rightarrow> string \<Rightarrow> string \<Rightarrow> string \<Rightarrow> logger \<Rightarrow> string \<times> logger \<times> bool" where
  "logger_log level request_id tid text st =
     (let line = sync_line level request_id tid text;
          (ok, st1) = try_enqueue_log line st;
          (out, st2) = (if ok then ([], st1) else fallback_write_log level line st1)
      in if level = LOG_LEVEL_FATAL then (out, logger_shutdown st2, True) else (out, st2, False))"


section \<open>The ring is a queue\<close>

definition ring_contents :: "logger \<Rightarrow> nat list" where
  "ring_contents st = map (\<lambda>i. g_log_queue st ! ((g_log_tail st + i) mod POOL_SIZE)) [0..<g_log_count st]"

definition ring_inv :: "logger \<Rightarrow> bool" where
  "ring_inv st \<longleftrightarrow> length (g_log_queue st) = POOL_SIZE \<and> g_log_count st \<le> POOL_SIZE \<and> g_log_tail st < POOL_SIZE \<and>
     g_log_head st = (g_log_tail st + g_log_count st) mod POOL_SIZE"

lemma pool_size_pos [simp]: "0 < POOL_SIZE"
  by (simp add: POOL_SIZE_def)

lemma ring_index_distinct:
  assumes "i < j" "j < n" "(t + i) mod n = (t + j) mod (n :: nat)"
  shows False
proof -
  have "n dvd (t + j) - (t + i)"
    using assms(3) by (metis mod_eq_dvd_iff_nat add_le_cancel_left assms(1) less_imp_le)
  then have "n dvd j - i"
    by simp
  with assms(1,2) show False
    by (auto dest: dvd_imp_le)
qed

lemma log_push_spec:
  assumes "ring_inv st" "log_push e st = (ok, st')"
  shows "ring_inv st'" "ring_contents st' = (if ok then ring_contents st @ [e] else ring_contents st)"
    "ok \<longleftrightarrow> g_log_count st < POOL_SIZE"
proof -
  show ok: "ok \<longleftrightarrow> g_log_count st < POOL_SIZE"
    using assms(2) by (auto simp: log_push_def split: if_splits)
  have "ring_inv st' \<and> ring_contents st' = (if ok then ring_contents st @ [e] else ring_contents st)"
  proof (cases ok)
    case False
    with assms show ?thesis by (auto simp: log_push_def split: if_splits)
  next
    case True
    then have st': "st' = st\<lparr>g_log_queue := (g_log_queue st)[g_log_head st := e],
        g_log_head := (g_log_head st + 1) mod POOL_SIZE, g_log_count := g_log_count st + 1\<rparr>"
      using assms(2) by (auto simp: log_push_def split: if_splits)
    have "g_log_head st \<noteq> (g_log_tail st + i) mod POOL_SIZE" if "i < g_log_count st" for i
      using ring_index_distinct [OF that, of POOL_SIZE "g_log_tail st"] assms(1) ok True by (auto simp: ring_inv_def)
    moreover have "g_log_head st < length (g_log_queue st)"
      using assms(1) by (simp add: ring_inv_def)
    ultimately show ?thesis
      using assms(1) ok True by (auto simp: st' ring_inv_def ring_contents_def mod_simps)
  qed
  then show "ring_inv st'" "ring_contents st' = (if ok then ring_contents st @ [e] else ring_contents st)"
    by auto
qed

lemma log_pop_spec:
  assumes "ring_inv st"
  shows "log_pop st = None \<longleftrightarrow> ring_contents st = []"
    "log_pop st = Some (e, st') \<Longrightarrow> ring_inv st' \<and> ring_contents st = e # ring_contents st'"
proof -
  show "log_pop st = None \<longleftrightarrow> ring_contents st = []"
    by (simp add: log_pop_def ring_contents_def)
  assume d: "log_pop st = Some (e, st')"
  then obtain n where n: "g_log_count st = Suc n" and e: "e = g_log_queue st ! g_log_tail st"
    and st': "st' = st\<lparr>g_log_tail := (g_log_tail st + 1) mod POOL_SIZE, g_log_count := n\<rparr>"
    by (cases "g_log_count st") (auto simp: log_pop_def)
  have "ring_contents st = e # map (\<lambda>i. g_log_queue st ! ((g_log_tail st + Suc i) mod POOL_SIZE)) [0..<n]"
    using assms n e unfolding ring_contents_def
    by (simp add: ring_inv_def upt_conv_Cons map_Suc_upt [symmetric] comp_def del: upt_Suc)
  with n assms show "ring_inv st' \<and> ring_contents st = e # ring_contents st'"
    by (auto simp: st' ring_inv_def ring_contents_def mod_simps)
qed

interpretation log_ring: fifo ring_contents ring_inv "\<lambda>_ _. True" log_push log_pop
proof
  fix q x
  assume "ring_inv q"
  note spec = log_push_spec [OF this, of x "fst (log_push x q)" "snd (log_push x q)", OF prod.collapse [symmetric]]
  show "ring_inv (snd (log_push x q))"
    "fst (log_push x q) \<Longrightarrow> ring_contents (snd (log_push x q)) = ring_contents q @ [x]"
    "\<not> fst (log_push x q) \<Longrightarrow> ring_contents (snd (log_push x q)) = ring_contents q"
    using spec by simp_all
qed (use log_pop_spec in auto)


section \<open>Short writes\<close>

lemma concat_advance: "k \<le> length (concat iov) \<Longrightarrow> concat (advance_iovecs iov k) = drop k (concat iov)"
  by (induction iov k rule: advance_iovecs.induct) auto

lemma write_batch_end [simp]:
  "write_batch_iovecs rs iov 0 = ([], Completed)" "write_batch_iovecs rs [] left = ([], Completed)"
  by (simp_all add: write_batch_iovecs.simps)

lemma write_batch_step [simp]:
  assumes "left \<noteq> 0" "iov \<noteq> []"
  shows "write_batch_iovecs [] iov left = ([], Writing)"
    "write_batch_iovecs (Interrupted # rs) iov left = write_batch_iovecs rs iov left"
    "write_batch_iovecs (Io_error # rs) iov left = ([], Failed)"
    "write_batch_iovecs (Wrote n # rs) iov left =
       (let k = min n (length (concat iov)); (out, s) = write_batch_iovecs rs (advance_iovecs iov k) (left - k)
        in (take k (concat iov) @ out, s))"
  using assms by (simp_all add: write_batch_iovecs.simps [of "_ # _"] write_batch_iovecs.simps [of "[]"])

text \<open>The first result of a loop that has bytes left, with the rest of the loop.\<close>

lemma write_batch_wrote:
  assumes "concat iov \<noteq> []" "k = min n (length (concat iov))"
  shows "write_batch_iovecs (Wrote n # rs) iov (length (concat iov)) =
      apfst ((@) (take k (concat iov)))
        (write_batch_iovecs rs (advance_iovecs iov k) (length (concat (advance_iovecs iov k))))"
    and "concat (advance_iovecs iov k) = drop k (concat iov)"
proof -
  show adv: "concat (advance_iovecs iov k) = drop k (concat iov)"
    using assms(2) by (intro concat_advance) simp
  have "length (concat iov) - k = length (concat (advance_iovecs iov k))"
    unfolding adv by simp
  moreover have "length (concat iov) \<noteq> 0" "iov \<noteq> []"
    using assms(1) by (simp_all only: length_0_conv) auto
  ultimately show "write_batch_iovecs (Wrote n # rs) iov (length (concat iov)) =
      apfst ((@) (take k (concat iov)))
        (write_batch_iovecs rs (advance_iovecs iov k) (length (concat (advance_iovecs iov k))))"
    using write_batch_step(4) [of "length (concat iov)" iov n rs] assms(2)
    by (simp add: Let_def split_def apfst_def map_prod_def del: length_concat)
qed

lemma write_batch_prefix:
  assumes "write_batch_iovecs rs iov (length (concat iov)) = (out, w)"
  shows "\<exists>k. out = take k (concat iov) \<and> (w = Completed \<longrightarrow> out = concat iov)"
  using assms
proof (induction rs arbitrary: iov out)
  case Nil
  show ?case
  proof (cases "concat iov = []")
    case True
    with Nil show ?thesis by (simp del: concat_eq_Nil_conv length_concat)
  next
    case False
    then have "length (concat iov) \<noteq> 0" "iov \<noteq> []" by auto
    with Nil write_batch_step(1) show ?thesis by auto
  qed
next
  case (Cons r rs)
  show ?case
  proof (cases "concat iov = []")
    case True
    with Cons.prems show ?thesis by (simp del: concat_eq_Nil_conv length_concat)
  next
    case False
    then have ne: "length (concat iov) \<noteq> 0" "iov \<noteq> []"
      by auto
    show ?thesis
    proof (cases r)
      case (Wrote n)
      obtain k where k: "k = min n (length (concat iov))" by blast
      note w = write_batch_wrote [OF False k]
      obtain out' where o: "out = take k (concat iov) @ out'"
        "write_batch_iovecs rs (advance_iovecs iov k) (length (concat (advance_iovecs iov k))) = (out', w)"
        using Cons.prems w(1) Wrote by (cases "write_batch_iovecs rs (advance_iovecs iov k)
          (length (concat (advance_iovecs iov k)))") auto
      obtain j where "out' = take j (drop k (concat iov))" "w = Completed \<longrightarrow> out' = drop k (concat iov)"
        using Cons.IH [OF o(2)] unfolding w(2) by blast
      then show ?thesis
        using o(1) by (intro exI [of _ "k + j"]) (auto simp: take_add simp del: length_concat)
    next
      case Interrupted
      then show ?thesis using Cons.IH Cons.prems write_batch_step(2) [OF ne] by simp
    next
      case Io_error
      then show ?thesis using Cons.prems write_batch_step(3) [OF ne] by auto
    qed
  qed
qed

text \<open>\<open>robust_write\<close> is a batch of one vector.\<close>

lemma robust_write_batch: "robust_write rs buf = write_batch_iovecs rs [buf] (length buf)"
proof (induction rs buf rule: robust_write.induct)
  case (3 r rs c cs)
  let ?buf = "c # cs"
  show ?case
  proof (cases r)
    case (Wrote n)
    obtain k where k: "k = min n (length ?buf)" by blast
    have IH: "robust_write rs (drop k ?buf) = write_batch_iovecs rs [drop k ?buf] (length (drop k ?buf))"
      unfolding k by (rule "3.IH"(1) [OF Wrote]) simp_all
    have "robust_write (r # rs) ?buf = apfst ((@) (take k ?buf)) (robust_write rs (drop k ?buf))"
      using Wrote k by (simp add: Let_def split_def apfst_def map_prod_def)
    also have "\<dots> = apfst ((@) (take k ?buf)) (write_batch_iovecs rs (advance_iovecs [?buf] k) (length (concat (advance_iovecs [?buf] k))))"
      unfolding IH using k by (cases "k = 0"; cases "k = length ?buf") auto
    also have "\<dots> = write_batch_iovecs (r # rs) [?buf] (length ?buf)"
      using write_batch_wrote(1) [of "[?buf]" k n rs] Wrote k by simp
    finally show ?thesis .
  qed (use 3 in simp_all)
qed simp_all

text \<open>Enough positive results complete the loop.\<close>

definition progress :: "io_result list \<Rightarrow> nat" where
  "progress rs = length (filter (\<lambda>r. case r of Wrote n \<Rightarrow> n > 0 | _ \<Rightarrow> False) rs)"

lemma write_batch_completes:
  assumes "Io_error \<notin> set rs" "length (concat iov) \<le> progress rs"
  shows "snd (write_batch_iovecs rs iov (length (concat iov))) = Completed"
  using assms
proof (induction rs arbitrary: iov)
  case Nil
  then have "length (concat iov) = 0" by (simp add: progress_def del: length_concat)
  then show ?case by (simp only: write_batch_end snd_conv)
next
  case (Cons r rs)
  show ?case
  proof (cases "concat iov = []")
    case True
    then show ?thesis by (simp del: concat_eq_Nil_conv length_concat)
  next
    case False
    then have ne: "length (concat iov) \<noteq> 0" "iov \<noteq> []"
      by auto
    show ?thesis
    proof (cases r)
      case (Wrote n)
      obtain k where k: "k = min n (length (concat iov))" by blast
      note w = write_batch_wrote [OF False k]
      have "length (concat (advance_iovecs iov k)) \<le> progress rs"
        using Cons.prems(2) Wrote k ne(1) unfolding w(2)
        by (cases n) (auto simp: progress_def simp del: length_concat)
      then show ?thesis
        using Cons w(1) Wrote by simp
    next
      case Interrupted
      then show ?thesis using Cons write_batch_step(2) [OF ne] by (simp add: progress_def)
    next
      case Io_error
      then show ?thesis using Cons.prems by simp
    qed
  qed
qed


section \<open>The logger and its threads as a transition system\<close>

text \<open>
  \<open>L_Top\<close> is the head of the logger thread's loop, \<open>L_Wait\<close> is inside \<open>pthread_cond_wait\<close>, \<open>L_Write\<close> has collected a
  batch. \<open>ls_pending\<close> are the lines of the threads between the test of \<open>g_logger_running\<close> and the lock,
  \<open>ls_accepted\<close> the lines queued so far, \<open>ls_stderr\<close> what the logger thread has written, \<open>ls_failed\<close> whether one of
  its writes failed. The records of a batch belong to the logger thread until it returns them, so the step that
  writes a batch reads them when it returns them.
\<close>

datatype logger_pc = L_Top | L_Wait | L_Write "nat list" | L_Done

record log_system =
  ls_log :: logger
  ls_pc :: logger_pc
  ls_pending :: "string list"
  ls_accepted :: "string list"
  ls_stderr :: string
  ls_failed :: bool

inductive log_step :: "log_system \<Rightarrow> log_system \<Rightarrow> bool" where
  check: "g_logger_running (ls_log s) \<Longrightarrow> log_step s (s\<lparr>ls_pending := line # ls_pending s\<rparr>)"
| enqueue: "line \<in> set (ls_pending s) \<Longrightarrow> enqueue_section line (ls_log s) = (ok, st) \<Longrightarrow>
    log_step s (s\<lparr>ls_log := st, ls_pending := remove1 line (ls_pending s),
      ls_accepted := (if ok then ls_accepted s @ [line] else ls_accepted s),
      ls_pc := (if ok \<and> g_log_count st = 1 \<and> ls_pc s = L_Wait then L_Top else ls_pc s)\<rparr>)"
| wait: "ls_pc s = L_Top \<Longrightarrow> g_log_count (ls_log s) = 0 \<Longrightarrow> g_logger_running (ls_log s) \<Longrightarrow>
    log_step s (s\<lparr>ls_pc := L_Wait\<rparr>)"
| wake: "ls_pc s = L_Wait \<Longrightarrow> log_step s (s\<lparr>ls_pc := L_Top\<rparr>)"
| quit: "ls_pc s = L_Top \<Longrightarrow> g_log_count (ls_log s) = 0 \<Longrightarrow> \<not> g_logger_running (ls_log s) \<Longrightarrow>
    log_step s (s\<lparr>ls_pc := L_Done\<rparr>)"
| collect: "ls_pc s = L_Top \<Longrightarrow> g_log_count (ls_log s) > 0 \<Longrightarrow> collect_batch BATCH_SIZE (ls_log s) = (batch, st) \<Longrightarrow>
    log_step s (s\<lparr>ls_log := st, ls_pc := L_Write batch\<rparr>)"
| emit: "ls_pc s = L_Write batch \<Longrightarrow> iov = map ((!) (g_log_buffers (ls_log s))) batch \<Longrightarrow>
    write_batch_iovecs rs iov (length (concat iov)) = (out, w) \<Longrightarrow> w \<noteq> Writing \<Longrightarrow>
    log_step s (s\<lparr>ls_log := return_batch_to_pool batch (ls_log s), ls_pc := L_Top, ls_stderr := ls_stderr s @ out,
      ls_failed := (ls_failed s \<or> w = Failed)\<rparr>)"
| shutdown: "log_step s (s\<lparr>ls_log := logger_shutdown (ls_log s),
    ls_pc := (if ls_pc s = L_Wait \<and> \<not> g_logger_running (logger_shutdown (ls_log s)) then L_Top else ls_pc s)\<rparr>)"

definition log_start :: "log_system \<Rightarrow> bool" where
  "log_start s \<longleftrightarrow> s = \<lparr>ls_log = logger_init_routine True static_logger, ls_pc = L_Top, ls_pending = [],
     ls_accepted = [], ls_stderr = [], ls_failed = False\<rparr>"

definition free_records :: "logger \<Rightarrow> nat list" where
  "free_records st = take (g_free_top st) (log_free_stack st)"

fun in_flight :: "logger_pc \<Rightarrow> nat list" where
  "in_flight (L_Write batch) = batch"
| "in_flight _ = []"

text \<open>Every record is in exactly one of the free stack, the ring and the current batch.\<close>

definition records_inv :: "nat list \<Rightarrow> logger \<Rightarrow> bool" where
  "records_inv batch st \<longleftrightarrow> ring_inv st \<and> length (log_free_stack st) = POOL_SIZE \<and> g_free_top st \<le> POOL_SIZE \<and>
     length (g_log_buffers st) = POOL_SIZE \<and>
     distinct (free_records st @ batch @ ring_contents st) \<and>
     set (free_records st @ batch @ ring_contents st) = {..<POOL_SIZE}"

text \<open>The lines that wait: those of the batch, then those of the ring.\<close>

definition lines_of :: "nat list \<Rightarrow> logger \<Rightarrow> string list" where
  "lines_of batch st = map ((!) (g_log_buffers st)) (batch @ ring_contents st)"

definition log_inv :: "log_system \<Rightarrow> bool" where
  "log_inv s \<longleftrightarrow> records_inv (in_flight (ls_pc s)) (ls_log s) \<and>
     (\<not> ls_failed s \<longrightarrow> concat (ls_accepted s) = ls_stderr s @ concat (lines_of (in_flight (ls_pc s)) (ls_log s))) \<and>
     (ls_pc s = L_Wait \<longrightarrow> g_log_count (ls_log s) = 0 \<and> g_logger_running (ls_log s)) \<and>
     (ls_pc s = L_Done \<longrightarrow> \<not> g_logger_running (ls_log s))"

lemma ring_unchanged [simp]:
  "ring_contents (st\<lparr>g_free_top := a\<rparr>) = ring_contents st" "ring_contents (st\<lparr>log_free_stack := b\<rparr>) = ring_contents st"
  "ring_contents (st\<lparr>g_log_buffers := c\<rparr>) = ring_contents st" "ring_contents (st\<lparr>g_logger_running := d\<rparr>) = ring_contents st"
  "ring_contents (st\<lparr>g_shutdown_done := f\<rparr>) = ring_contents st"
  "ring_inv (st\<lparr>g_free_top := a\<rparr>) = ring_inv st" "ring_inv (st\<lparr>log_free_stack := b\<rparr>) = ring_inv st"
  "ring_inv (st\<lparr>g_log_buffers := c\<rparr>) = ring_inv st" "ring_inv (st\<lparr>g_logger_running := d\<rparr>) = ring_inv st"
  "ring_inv (st\<lparr>g_shutdown_done := f\<rparr>) = ring_inv st"
  by (simp_all add: ring_contents_def ring_inv_def)

lemma log_push_frame:
  assumes "log_push e st = (ok, st')"
  shows "g_log_buffers st' = g_log_buffers st" "log_free_stack st' = log_free_stack st" "g_free_top st' = g_free_top st"
    "g_logger_running st' = g_logger_running st" "ok \<Longrightarrow> g_log_count st' = Suc (g_log_count st)"
  using assms by (auto simp: log_push_def split: if_splits)

lemma records_inv_card:
  assumes "records_inv batch st"
  shows "length (free_records st) + length batch + length (ring_contents st) = POOL_SIZE"
  using assms distinct_card [of "free_records st @ batch @ ring_contents st"] by (simp add: records_inv_def)

lemma enqueue_section_True:
  assumes "records_inv batch st" "enqueue_section line st = (True, st')"
  shows "records_inv batch st'" "lines_of batch st' = lines_of batch st @ [line]"
    "g_logger_running st' = g_logger_running st" "g_log_count st' = Suc (g_log_count st)"
proof -
  define top where "top = g_free_top st - 1"
  define e where "e = log_free_stack st ! top"
  define st1 where "st1 = st\<lparr>g_free_top := top, g_log_buffers := (g_log_buffers st)[e := line]\<rparr>"
  have guard: "g_free_top st > 0" "g_log_count st < POOL_SIZE" and push: "log_push e st1 = (True, st')"
    using assms(2) unfolding enqueue_section_def top_def [symmetric] Let_def e_def [symmetric] st1_def [symmetric]
    by (auto split: if_splits)
  have inv: "ring_inv st1" "top < length (log_free_stack st)" "g_free_top st = Suc top"
    using assms(1) guard by (auto simp: st1_def records_inv_def top_def)
  note spec = log_push_spec [OF inv(1) push] and frame = log_push_frame [OF push]
  have free: "free_records st = free_records st' @ [e]"
    using inv frame by (simp add: free_records_def st1_def take_Suc_conv_app_nth e_def)
  have ring: "ring_contents st' = ring_contents st @ [e]"
    using spec(2) by (simp add: st1_def)
  have e: "e < POOL_SIZE" "e \<notin> set (batch @ ring_contents st)"
    using assms(1) by (auto simp: records_inv_def free)
  show "records_inv batch st'"
    using assms(1) spec(1) frame inv e by (auto simp: records_inv_def free ring st1_def)
  show "lines_of batch st' = lines_of batch st @ [line]"
    using assms(1) e frame by (auto simp: lines_of_def ring st1_def records_inv_def intro!: nth_list_update_neq)
  show "g_logger_running st' = g_logger_running st" "g_log_count st' = Suc (g_log_count st)"
    using frame by (simp_all add: st1_def)
qed

lemma enqueue_section_False:
  assumes "records_inv batch st" "enqueue_section line st = (False, st')"
  shows "st' = st"
  using assms(2) by (auto simp: enqueue_section_def Let_def log_push_def split: if_splits)

lemma collect_batch_spec:
  assumes "records_inv done st" "collect_batch n st = (batch, st')"
  shows "records_inv (done @ batch) st' \<and> lines_of (done @ batch) st' = lines_of done st \<and>
    g_logger_running st' = g_logger_running st"
  using assms
proof (induction n arbitrary: "done" st batch)
  case 0
  then show ?case by auto
next
  case (Suc n)
  show ?case
  proof (cases "log_pop st")
    case None
    with Suc.prems show ?thesis by auto
  next
    case (Some p)
    then obtain e st1 where p: "log_pop st = Some (e, st1)" by (cases p) auto
    obtain es where es: "collect_batch n st1 = (es, st')" "batch = e # es"
      using Suc.prems(2) p by (auto split: prod.splits)
    have r: "ring_inv st1" "ring_contents st = e # ring_contents st1"
      using log_pop_spec(2) [OF _ p] Suc.prems(1) by (auto simp: records_inv_def)
    have f: "g_log_buffers st1 = g_log_buffers st" "log_free_stack st1 = log_free_stack st" "g_free_top st1 = g_free_top st"
      "g_logger_running st1 = g_logger_running st"
      using p by (auto simp: log_pop_def split: if_splits)
    have "records_inv (done @ [e]) st1"
      using Suc.prems(1) r f by (auto simp: records_inv_def free_records_def)
    from Suc.IH [OF this es(1)] show ?thesis
      using r f es(2) by (simp add: lines_of_def)
  qed
qed

lemma return_batch_spec:
  assumes "records_inv batch st"
  shows "records_inv [] (return_batch_to_pool batch st) \<and> ring_contents (return_batch_to_pool batch st) = ring_contents st \<and>
    g_log_buffers (return_batch_to_pool batch st) = g_log_buffers st \<and>
    g_logger_running (return_batch_to_pool batch st) = g_logger_running st"
  using assms
proof (induction batch arbitrary: st)
  case Nil
  then show ?case by simp
next
  case (Cons b bs)
  define st1 where "st1 = st\<lparr>log_free_stack := (log_free_stack st)[g_free_top st := b], g_free_top := g_free_top st + 1\<rparr>"
  have room: "g_free_top st < POOL_SIZE"
    using records_inv_card [OF Cons.prems] Cons.prems by (simp add: free_records_def records_inv_def)
  then have "free_records st1 = free_records st @ [b]"
    using Cons.prems by (simp add: free_records_def st1_def records_inv_def take_Suc_conv_app_nth)
  then have "records_inv bs st1"
    using Cons.prems room by (auto simp: records_inv_def st1_def)
  from Cons.IH [OF this] show ?case
    using room by (simp add: st1_def)
qed


lemma shutdown_records:
  "records_inv batch (logger_shutdown st) = records_inv batch st" "lines_of batch (logger_shutdown st) = lines_of batch st"
  "g_log_count (logger_shutdown st) = g_log_count st" "g_logger_running (logger_shutdown st) \<Longrightarrow> g_logger_running st"
  by (auto simp: logger_shutdown_def records_inv_def lines_of_def free_records_def split: if_splits)

lemma log_step_inv: "log_step s t \<Longrightarrow> log_inv s \<Longrightarrow> log_inv t"
proof (induction rule: log_step.induct)
  case (enqueue line s ok st)
  show ?case
  proof (cases ok)
    case True
    with enqueue enqueue_section_True [of "in_flight (ls_pc s)" "ls_log s" line st] show ?thesis
      by (auto simp: log_inv_def)
  next
    case False
    with enqueue enqueue_section_False [of "in_flight (ls_pc s)" "ls_log s" line st] show ?thesis
      by (auto simp: log_inv_def)
  qed
next
  case (collect s batch st)
  with collect_batch_spec [of "[]" "ls_log s" BATCH_SIZE batch st] show ?case
    by (auto simp: log_inv_def)
next
  case (emit s batch iov rs out w)
  then have "records_inv batch (ls_log s)" by (simp add: log_inv_def)
  note ret = return_batch_spec [OF this]
  have "\<not> ls_failed s \<Longrightarrow> w \<noteq> Failed \<Longrightarrow> out = concat iov"
    using write_batch_prefix [OF emit(3)] emit(4) by (cases w) auto
  with emit ret show ?case
    by (auto simp: log_inv_def lines_of_def)
next
  case (shutdown s)
  then show ?case
    using shutdown_records by (auto simp: log_inv_def)
qed (auto simp: log_inv_def)

lemma records_inv_init: "records_inv [] (logger_init_routine True static_logger)"
  by (auto simp: records_inv_def ring_inv_def free_records_def ring_contents_def logger_init_routine_def static_logger_def)

interpretation log_threads: invariant_system log_start log_step log_inv
proof
  show "log_inv s" if "log_start s" for s
    using that records_inv_init
    by (simp add: log_start_def log_inv_def lines_of_def ring_contents_def logger_init_routine_def static_logger_def)
qed (rule log_step_inv)


section \<open>Properties\<close>

text \<open>C22: whatever threads log and however the logger thread's \<open>writev\<close> calls are cut short, as long as none of
  them fails the bytes written so far followed by the lines that wait (the current batch, then the ring) are
  exactly the accepted lines in the order of their critical sections: nothing is lost, repeated, reordered or
  overwritten in a recycled record.\<close>

theorem logger_exactly_once:
  assumes "reach log_start log_step s" "\<not> ls_failed s"
  shows "concat (ls_accepted s) =
    ls_stderr s @ concat (map ((!) (g_log_buffers (ls_log s))) (in_flight (ls_pc s) @ ring_contents (ls_log s)))"
  using log_threads.reach_inv [OF assms(1)] assms(2) by (simp add: log_inv_def lines_of_def)

definition sample_log :: log_system where
  "sample_log = \<lparr>ls_log = logger_init_routine True static_logger, ls_pc = L_Top, ls_pending = [],
     ls_accepted = [], ls_stderr = [], ls_failed = False\<rparr>"

lemma sample_reach: "reach log_start log_step sample_log"
  by (rule reach_init) (simp add: log_start_def sample_log_def)

lemma sample_pending: "reach log_start log_step (sample_log\<lparr>ls_pending := [''a'']\<rparr>)"
proof (rule reach_step [OF sample_reach])
  show "log_step sample_log (sample_log\<lparr>ls_pending := [''a'']\<rparr>)"
    using log_step.check [of sample_log "''a''"] by (simp add: sample_log_def logger_init_routine_def)
qed

lemma sample_enqueue:
  assumes "reach log_start log_step s" "ls_pending s = [''a'']" "g_free_top (ls_log s) = POOL_SIZE"
    "g_log_count (ls_log s) = 0" "ls_pc s \<noteq> L_Wait" "\<not> ls_failed s" "ls_accepted s = []"
  shows "\<exists>t. reach log_start log_step t \<and> ls_pc t = ls_pc s \<and> g_log_count (ls_log t) = 1 \<and> ls_accepted t = [''a''] \<and>
    \<not> ls_failed t"
proof -
  have "fst (enqueue_section ''a'' (ls_log s))"
    using assms(3,4) by (simp add: enqueue_section_def log_push_def Let_def)
  then obtain st where st: "enqueue_section ''a'' (ls_log s) = (True, st)"
    by (cases "enqueue_section ''a'' (ls_log s)") simp
  have "records_inv (in_flight (ls_pc s)) (ls_log s)"
    using log_threads.reach_inv [OF assms(1)] by (simp add: log_inv_def)
  note spec = enqueue_section_True(4) [OF this st]
  define t where "t = s\<lparr>ls_log := st, ls_pending := remove1 ''a'' (ls_pending s),
      ls_accepted := (if True then ls_accepted s @ [''a''] else ls_accepted s),
      ls_pc := (if True \<and> g_log_count st = 1 \<and> ls_pc s = L_Wait then L_Top else ls_pc s)\<rparr>"
  have "log_step s t"
    unfolding t_def using assms(2) by (intro log_step.enqueue st) simp
  then have "reach log_start log_step t"
    by (rule reach_step [OF assms(1)])
  moreover have "ls_pc t = ls_pc s" "g_log_count (ls_log t) = 1" "ls_accepted t = [''a'']" "\<not> ls_failed t"
    using assms(4-7) spec by (simp_all add: t_def)
  ultimately show ?thesis
    by blast
qed

theorem logger_exactly_once_witness:
  "\<exists>s :: log_system. ls_accepted s = [''a''] \<and> concat (ls_accepted s) =
    ls_stderr s @ concat (map ((!) (g_log_buffers (ls_log s))) (in_flight (ls_pc s) @ ring_contents (ls_log s)))"
proof -
  obtain t where "reach log_start log_step t" "ls_accepted t = [''a'']" "\<not> ls_failed t"
    using sample_enqueue [OF sample_pending] by (auto simp: sample_log_def logger_init_routine_def static_logger_def)
  then show ?thesis
    using logger_exactly_once [of t] by blast
qed

text \<open>Records are conserved: in every reachable state each of the \<open>POOL_SIZE\<close> records is in exactly one place,
  the free stack, the batch being written or the ring, the indices stay in range, and the ring can refuse a line
  only when no record is free.\<close>

theorem logger_records_conserved:
  assumes "reach log_start log_step s"
  shows "distinct (free_records (ls_log s) @ in_flight (ls_pc s) @ ring_contents (ls_log s)) \<and>
    length (free_records (ls_log s)) + length (in_flight (ls_pc s)) + length (ring_contents (ls_log s)) = POOL_SIZE \<and>
    g_log_head (ls_log s) < POOL_SIZE \<and> g_log_tail (ls_log s) < POOL_SIZE \<and>
    (fst (enqueue_section line (ls_log s)) \<longleftrightarrow> g_free_top (ls_log s) > 0)"
proof -
  have inv: "records_inv (in_flight (ls_pc s)) (ls_log s)"
    using log_threads.reach_inv [OF assms] by (simp add: log_inv_def)
  note card = records_inv_card [OF inv]
  have "length (ring_contents (ls_log s)) = g_log_count (ls_log s)"
    by (simp add: ring_contents_def)
  moreover have "length (free_records (ls_log s)) = g_free_top (ls_log s)"
    using inv by (simp add: records_inv_def free_records_def)
  ultimately show ?thesis
    using inv card
    by (auto simp: records_inv_def ring_inv_def enqueue_section_def log_push_def Let_def)
qed

theorem logger_records_conserved_witness:
  "length (free_records (ls_log sample_log)) + length (in_flight (ls_pc sample_log)) +
     length (ring_contents (ls_log sample_log)) = POOL_SIZE"
  using logger_records_conserved [OF sample_reach] by blast

text \<open>No wakeup is lost: when the logger thread sleeps in \<open>pthread_cond_wait\<close> with no wakeup on its way, no line
  is queued and no shutdown has been requested.\<close>

theorem logger_no_lost_wakeup:
  assumes "reach log_start log_step s" "ls_pc s = L_Wait"
  shows "ring_contents (ls_log s) = [] \<and> g_logger_running (ls_log s)"
  using log_threads.reach_inv [OF assms(1)] assms(2) by (simp add: log_inv_def ring_contents_def)

theorem logger_no_lost_wakeup_witness:
  "ring_contents (ls_log (sample_log\<lparr>ls_pc := L_Wait\<rparr>)) = [] \<and> g_logger_running (ls_log (sample_log\<lparr>ls_pc := L_Wait\<rparr>))"
proof (rule logger_no_lost_wakeup)
  have "log_step sample_log (sample_log\<lparr>ls_pc := L_Wait\<rparr>)"
    by (rule log_step.wait) (simp_all add: sample_log_def logger_init_routine_def static_logger_def)
  then show "reach log_start log_step (sample_log\<lparr>ls_pc := L_Wait\<rparr>)"
    by (rule reach_step [OF sample_reach])
qed simp

text \<open>C23: \<open>write_batch_iovecs\<close> resumes after a short \<open>writev\<close> at the right byte: when no call fails and enough calls
  take at least one byte, it ends with every byte of the batch written once, in order; and in any case what it
  wrote is a prefix of the batch.\<close>

theorem write_batch_short_writes:
  assumes "Io_error \<notin> set rs" "length (concat iov) \<le> progress rs"
  shows "write_batch_iovecs rs iov (length (concat iov)) = (concat iov, Completed) \<and>
    (\<exists>k. fst (write_batch_iovecs rs' iov (length (concat iov))) = take k (concat iov))"
proof -
  obtain out where o: "write_batch_iovecs rs iov (length (concat iov)) = (out, Completed)"
    using write_batch_completes [OF assms] by (metis prod.collapse)
  obtain out' w' where o': "write_batch_iovecs rs' iov (length (concat iov)) = (out', w')"
    by (metis prod.collapse)
  show ?thesis
    using write_batch_prefix [OF o] write_batch_prefix [OF o'] o o' by auto
qed

theorem write_batch_short_writes_witness:
  "write_batch_iovecs [Wrote 1, Interrupted, Wrote 5, Wrote 1] [''ab'', ''c''] 3 = (''abc'', Completed)"
  using write_batch_short_writes [of "[Wrote 1, Interrupted, Wrote 5, Wrote 1]" "[''ab'', ''c'']" "[]"]
  by (simp add: progress_def)

text \<open>A thread that has ended writes nothing any more.\<close>

lemma log_done_final:
  assumes "log_step\<^sup>*\<^sup>* s t" "ls_pc s = L_Done"
  shows "ls_pc t = L_Done \<and> ls_stderr t = ls_stderr s"
  using assms by (induction rule: rtranclp_induct) (auto elim!: log_step.cases)

text \<open>C24: \<open>try_enqueue_log\<close> tests \<open>g_logger_running\<close> before it takes the lock, so a line can be accepted after the
  logger thread has ended, and is then lost: there is a run that reaches a state in which the thread has ended and nothing
  was accepted or written, the next step accepts a line, and in every continuation of the run nothing is ever written.\<close>

theorem logger_shutdown_loses_line:
  "\<exists>s t. reach log_start log_step s \<and> ls_pc s = L_Done \<and> ls_accepted s = [] \<and> log_step s t \<and> ls_accepted t = [''a''] \<and>
     {ls_stderr u |u. log_step\<^sup>*\<^sup>* t u} = {[]}"
proof -
  define s1 where "s1 = sample_log\<lparr>ls_pending := [''a'']\<rparr>"
  define s2 where "s2 = s1\<lparr>ls_log := logger_shutdown (ls_log s1)\<rparr>"
  define s3 where "s3 = s2\<lparr>ls_pc := L_Done\<rparr>"
  obtain ok st where e: "enqueue_section ''a'' (ls_log s3) = (ok, st)" by fastforce
  define t where "t = s3\<lparr>ls_log := st, ls_pending := remove1 ''a'' (ls_pending s3), ls_accepted := ls_accepted s3 @ [''a'']\<rparr>"
  note simps = s1_def s2_def s3_def sample_log_def logger_init_routine_def static_logger_def logger_shutdown_def
  have "log_step s1 s2"
    using log_step.shutdown [of s1] by (simp add: s1_def s2_def sample_log_def)
  then have s2: "reach log_start log_step s2"
    by (rule reach_step [OF sample_pending [folded s1_def]])
  have "log_step s2 s3"
    unfolding s3_def by (rule log_step.quit) (simp_all add: simps)
  with s2 have s3: "reach log_start log_step s3"
    by (rule reach_step)
  have ok
    using e by (auto simp: simps enqueue_section_def log_push_def POOL_SIZE_def split: if_splits)
  then have t: "log_step s3 t"
    using log_step.enqueue [of "''a''" s3 ok st] e unfolding t_def by (simp add: simps)
  have d: "ls_stderr t = []" "ls_pc t = L_Done"
    by (simp_all add: t_def simps)
  have "{ls_stderr u |u. log_step\<^sup>*\<^sup>* t u} = {[]}"
  proof
    show "{ls_stderr u |u. log_step\<^sup>*\<^sup>* t u} \<subseteq> {[]}"
      using log_done_final [of t] d by auto
    show "{[]} \<subseteq> {ls_stderr u |u. log_step\<^sup>*\<^sup>* t u}"
      using rtranclp.rtrancl_refl [of log_step t] d(1) by force
  qed
  then show ?thesis
    using s3 t by (intro exI [of _ s3] exI [of _ t]) (simp add: t_def simps)
qed

text \<open> a message of at most 600 characters, logged with a request id of at most 40 and a thread id of at most
  31 characters, comes out as one complete JSON line: both strings fully escaped, the closing brace and the newline in
  place. Decoding the escaped message gives the message back.\<close>

theorem logger_line_complete:
  assumes "length msg \<le> 600" "length request_id \<le> 40" "length tid \<le> 31" "request_id \<noteq> []"
  shows "sync_line level request_id tid msg =
      ''{'' @ quoted ''level'' @ '':'' @ quoted (level_string level) @
      '','' @ quoted ''reqID'' @ '':'' @ quoted (concat (map encode_char request_id)) @
      '','' @ quoted ''msg'' @ '':'' @ quoted (concat (map encode_char msg)) @
      '','' @ quoted ''threadID'' @ '':'' @ quoted tid @ ''}'' @ [CHR 0x0A] \<and>
    json_unescape (concat (map encode_char msg)) = Some msg"
proof -
  have e: "the (json_encode_string (Some (log_message msg)) (Some []) 12288) = concat (map encode_char msg)"
    "the (json_encode_string (Some request_id) (Some []) 256) = concat (map encode_char request_id)"
    using assms encode_loop_complete [of "[]" msg 12288] encode_loop_complete [of "[]" request_id 256]
    by (simp_all add: json_encode_string_def log_message_def)
  have line: "log_line level request_id tid msg =
      ''{'' @ quoted ''level'' @ '':'' @ quoted (level_string level) @
      '','' @ quoted ''reqID'' @ '':'' @ quoted (concat (map encode_char request_id)) @
      '','' @ quoted ''msg'' @ '':'' @ quoted (concat (map encode_char msg)) @
      '','' @ quoted ''threadID'' @ '':'' @ quoted tid @ ''}'' @ [CHR 0x0A]"
    unfolding log_line_def Let_def e using assms(4) by (simp only: if_True not_False_eq_True)
  have len: "length (log_line level request_id tid msg) = length (level_string level) +
      length (concat (map encode_char request_id)) + length (concat (map encode_char msg)) + length tid + 47"
    unfolding line by (simp only: quoted_def length_append list.size)
  have "length (level_string level) \<le> 5"
    by (cases level) simp_all
  with enc.length_concat_enc [of msg] enc.length_concat_enc [of request_id]
  have "length (log_line level request_id tid msg) < SYNC_BUF_SIZE"
    unfolding len SYNC_BUF_SIZE_def using assms(1-3) by linarith
  then have "sync_line level request_id tid msg = log_line level request_id tid msg"
    unfolding sync_line_def by (rule snprintf_fits)
  then show ?thesis
    unfolding line using enc.decode_all [of msg] by (intro conjI)
qed

theorem logger_line_complete_witness:
  "sync_line LOG_LEVEL_WARN ''r1'' ''42'' ''low disk'' =
      ''{'' @ quoted ''level'' @ '':'' @ quoted (level_string LOG_LEVEL_WARN) @
      '','' @ quoted ''reqID'' @ '':'' @ quoted (concat (map encode_char ''r1'')) @
      '','' @ quoted ''msg'' @ '':'' @ quoted (concat (map encode_char ''low disk'')) @
      '','' @ quoted ''threadID'' @ '':'' @ quoted ''42'' @ ''}'' @ [CHR 0x0A]"
  using logger_line_complete [of "''low disk''" "''r1''" "''42''" LOG_LEVEL_WARN] by (simp only: list.size) simp

text \<open>A message within the 2048 bytes of \<open>msg_buf\<close> can exceed the 4096 bytes of \<open>sync_buf\<close> once escaped; the
  line is then cut in the middle of the message and ends without quote, brace or newline.\<close>

theorem logger_line_cut:
  "CHR 0x0A \<notin> set (sync_line LOG_LEVEL_INFO [] tid (replicate 700 (CHR 0x01))) \<and>
   CHR 0x7D \<notin> set (sync_line LOG_LEVEL_INFO [] tid (replicate 700 (CHR 0x01)))"
proof -
  let ?text = "replicate 700 (CHR 0x01)"
  let ?pre = "''{'' @ quoted ''level'' @ '':'' @ quoted (level_string LOG_LEVEL_INFO) @ '','' @ quoted ''msg'' @ '':'' @ [CHR 0x22]"
  let ?mid = "concat (map encode_char ?text)"
  have enc: "the (json_encode_string (Some (log_message ?text)) (Some []) 12288) = ?mid"
    using encode_loop_complete [of "[]" ?text 12288] by (simp add: json_encode_string_def log_message_def)
  have len: "length ?mid = 4200"
    by (simp add: encode_char_def length_concat map_replicate sum_list_replicate)
  have line: "log_line LOG_LEVEL_INFO [] tid ?text = (?pre @ ?mid) @ [CHR 0x22] @
      '','' @ quoted ''threadID'' @ '':'' @ quoted tid @ ''}'' @ [CHR 0x0A]"
    unfolding log_line_def Let_def enc by (simp add: quoted_def)
  have "sync_line LOG_LEVEL_INFO [] tid ?text = take 4095 (?pre @ ?mid)"
    unfolding sync_line_def snprintf_def line SYNC_BUF_SIZE_def
    using len take_append [of 4095 "?pre @ ?mid"] by (simp only: length_append) simp
  then have "set (sync_line LOG_LEVEL_INFO [] tid ?text) \<subseteq> set ?pre \<union> set (encode_char (CHR 0x01))"
    by (auto dest: in_set_takeD)
  moreover have "CHR 0x0A \<notin> set ?pre \<union> set (encode_char (CHR 0x01))" "CHR 0x7D \<notin> set ?pre \<union> set (encode_char (CHR 0x01))"
    by (simp_all add: quoted_def encode_char_def hex_def)
  ultimately show ?thesis
    by blast
qed

end
