(* ===== verification/Reactor.thy ===== *)
theory Reactor
  imports TaskQueue
begin

text \<open>
  Model of the completion queues of \<open>lib/server.c\<close>: workers hand finished tasks back to the reactor that owns the
  connection through a linked queue and an \<open>eventfd\<close>, and the reactor takes the whole queue at once.

  The mutex makes a critical section one step. The write to the \<open>eventfd\<close> comes after the mutex is released and is a
  step of its own. The counter of an \<open>eventfd\<close> holds at most \<open>2 ^ 64 - 2\<close>; a non-blocking write that would exceed it
  fails and leaves the counter as it is.
\<close>

section \<open>The queues\<close>

record reactor_queue_t =
  rq_head :: "nat option"
  rq_tail :: "nat option"
  rq_eventfd :: nat

definition EVENTFD_MAX :: nat where
  "EVENTFD_MAX = 2 ^ 64 - 2"

definition eventfd_write :: "nat \<Rightarrow> nat" where
  "eventfd_write counter = (if counter < EVENTFD_MAX then counter + 1 else counter)"

text \<open>The critical section of \<open>server_notify_task_done\<close>: whether the queue was empty, the heap and the queue.\<close>

definition notify_section :: "nat \<Rightarrow> 'j task_heap \<times> reactor_queue_t \<Rightarrow> bool \<times> 'j task_heap \<times> reactor_queue_t" where
  "notify_section task hq =
     (let (h, q) = hq; h1 = set_next task None h
      in case rq_tail q of
           None \<Rightarrow> (True, h1, q\<lparr>rq_tail := Some task, rq_head := Some task\<rparr>)
         | Some t \<Rightarrow> (False, set_next t (Some task) h1, q\<lparr>rq_tail := Some task\<rparr>))"

text \<open>\<open>server_notify_task_done\<close> with no other thread in between, on all queues.\<close>

definition server_notify_task_done :: "nat \<Rightarrow> 'j task_heap \<times> reactor_queue_t list \<Rightarrow> 'j task_heap \<times> reactor_queue_t list" where
  "server_notify_task_done task hqs =
     (let (h, qs) = hqs; rid = reactor_id (h task)
      in if rid \<ge> length qs then (h, qs)
         else
           (let (was_empty, h1, q1) = notify_section task (h, qs ! rid)
            in (h1, qs[rid := (if was_empty then q1\<lparr>rq_eventfd := eventfd_write (rq_eventfd q1)\<rparr> else q1)])))"

text \<open>The critical section of \<open>reactor_eventfd_cb\<close>: the detached list and the empty queue.\<close>

definition take_section :: "reactor_queue_t \<Rightarrow> nat option \<times> reactor_queue_t" where
  "take_section q = (rq_head q, q\<lparr>rq_tail := None, rq_head := None\<rparr>)"


section \<open>A reactor and its workers as a transition system\<close>

text \<open>
  \<open>R_Loop\<close> is the event loop, \<open>R_Drained\<close> the callback after it has read the counter, \<open>R_Walk cur\<close> its loop over
  the detached tasks. \<open>rs_writers\<close> counts the workers between the critical section and the write to the \<open>eventfd\<close>.
  \<open>rs_notified\<close> and \<open>rs_handled\<close> record the tasks handed over and the tasks the reactor is done with, in order.
  A worker hands over only a task it holds, so not one that is still on its way. Handling a task may change the
  task itself in any way, since it goes back to the pool; other threads may change tasks in their other fields.
\<close>

datatype reactor_pc = R_Loop | R_Drained | R_Walk "nat option"

record 'j reactor_system =
  rs_heap :: "'j task_heap"
  rs_queue :: reactor_queue_t
  rs_writers :: nat
  rs_pc :: reactor_pc
  rs_notified :: "nat list"
  rs_handled :: "nat list"

definition on_the_way :: "'j reactor_system \<Rightarrow> nat list" where
  "on_the_way s = drop (length (rs_handled s)) (rs_notified s)"

inductive reactor_step :: "'j reactor_system \<Rightarrow> 'j reactor_system \<Rightarrow> bool" where
  notify: "task \<notin> set (on_the_way s) \<Longrightarrow> notify_section task (rs_heap s, rs_queue s) = (was_empty, h, q) \<Longrightarrow>
    reactor_step s (s\<lparr>rs_heap := h, rs_queue := q, rs_notified := rs_notified s @ [task],
      rs_writers := (if was_empty then rs_writers s + 1 else rs_writers s)\<rparr>)"
| signal: "rs_writers s > 0 \<Longrightarrow>
    reactor_step s (s\<lparr>rs_writers := rs_writers s - 1,
      rs_queue := (rs_queue s)\<lparr>rq_eventfd := eventfd_write (rq_eventfd (rs_queue s))\<rparr>\<rparr>)"
| wakeup: "rs_pc s = R_Loop \<Longrightarrow> rq_eventfd (rs_queue s) > 0 \<Longrightarrow>
    reactor_step s (s\<lparr>rs_pc := R_Drained, rs_queue := (rs_queue s)\<lparr>rq_eventfd := 0\<rparr>\<rparr>)"
| detach: "rs_pc s = R_Drained \<Longrightarrow> take_section (rs_queue s) = (cur, q) \<Longrightarrow>
    reactor_step s (s\<lparr>rs_pc := R_Walk cur, rs_queue := q\<rparr>)"
| handle: "rs_pc s = R_Walk (Some task) \<Longrightarrow>
    reactor_step s (s\<lparr>rs_pc := R_Walk (next_task (rs_heap s task)), rs_heap := (rs_heap s)(task := t'),
      rs_handled := rs_handled s @ [task]\<rparr>)"
| return: "rs_pc s = R_Walk None \<Longrightarrow> reactor_step s (s\<lparr>rs_pc := R_Loop\<rparr>)"
| other: "\<forall>x \<in> set (on_the_way s). next_task (h' x) = next_task (rs_heap s x) \<Longrightarrow>
    reactor_step s (s\<lparr>rs_heap := h'\<rparr>)"

definition reactor_start :: "'j reactor_system \<Rightarrow> bool" where
  "reactor_start s \<longleftrightarrow> rs_queue s = \<lparr>rq_head = None, rq_tail = None, rq_eventfd = 0\<rparr> \<and> rs_writers s = 0 \<and>
     rs_pc s = R_Loop \<and> rs_notified s = [] \<and> rs_handled s = []"

fun walking :: "reactor_pc \<Rightarrow> nat option" where
  "walking (R_Walk cur) = cur"
| "walking _ = None"

definition reactor_lists :: "'j reactor_system \<Rightarrow> nat list \<Rightarrow> nat list \<Rightarrow> bool" where
  "reactor_lists s cs qs \<longleftrightarrow> path (rs_heap s) (walking (rs_pc s)) cs \<and>
     linked (rs_heap s) (rq_head (rs_queue s)) (rq_tail (rs_queue s)) qs \<and> distinct (cs @ qs) \<and>
     rs_notified s = rs_handled s @ cs @ qs \<and>
     (qs \<noteq> [] \<longrightarrow> rq_eventfd (rs_queue s) > 0 \<or> rs_writers s > 0 \<or> rs_pc s = R_Drained)"

definition reactor_inv :: "'j reactor_system \<Rightarrow> bool" where
  "reactor_inv s \<longleftrightarrow> (\<exists>cs qs. reactor_lists s cs qs)"

lemma on_the_way_lists: "reactor_lists s cs qs \<Longrightarrow> on_the_way s = cs @ qs"
  by (simp add: reactor_lists_def on_the_way_def)

lemma path_transfer: "path h p xs \<Longrightarrow> (\<And>x. x \<in> set xs \<Longrightarrow> next_task (h' x) = next_task (h x)) \<Longrightarrow> path h' p xs"
  using path_cong [of xs h' h p] by simp

lemma linked_transfer:
  "linked h p q xs \<Longrightarrow> (\<And>x. x \<in> set xs \<Longrightarrow> next_task (h' x) = next_task (h x)) \<Longrightarrow> linked h' p q xs"
  using linked_cong [of xs h' h p q] by simp

lemma reactor_lists_dest:
  assumes "reactor_lists s cs qs"
  shows "path (rs_heap s) (walking (rs_pc s)) cs" "linked (rs_heap s) (rq_head (rs_queue s)) (rq_tail (rs_queue s)) qs"
    "set cs \<inter> set qs = {}" "distinct cs" "distinct qs"
  using assms by (auto simp: reactor_lists_def)

lemma notify_section_spec:
  assumes "linked h (rq_head q) (rq_tail q) qs" "task \<notin> set qs" "notify_section task (h, q) = (was_empty, h', q')"
  shows "linked h' (rq_head q') (rq_tail q') (qs @ [task])" "was_empty \<longleftrightarrow> qs = []"
    "rq_eventfd q' = rq_eventfd q" "\<And>x. x \<noteq> task \<Longrightarrow> x \<notin> set qs \<Longrightarrow> next_task (h' x) = next_task (h x)"
proof -
  have "linked h' (rq_head q') (rq_tail q') (qs @ [task]) \<and> (was_empty \<longleftrightarrow> qs = []) \<and> rq_eventfd q' = rq_eventfd q \<and>
    (\<forall>x. x \<noteq> task \<longrightarrow> x \<notin> set qs \<longrightarrow> next_task (h' x) = next_task (h x))"
  proof (cases "rq_tail q")
    case None
    with assms linked_append_empty [of h "rq_head q" qs task] show ?thesis
      by (auto simp: notify_section_def set_next_def)
  next
    case (Some t)
    then have "t \<in> set qs"
      using assms(1) by (auto simp: linked_def split: if_splits)
    with Some assms linked_append [of h "rq_head q" t qs task] show ?thesis
      by (auto simp: notify_section_def set_next_def)
  qed
  then show "linked h' (rq_head q') (rq_tail q') (qs @ [task])" "was_empty \<longleftrightarrow> qs = []"
    "rq_eventfd q' = rq_eventfd q" "\<And>x. x \<noteq> task \<Longrightarrow> x \<notin> set qs \<Longrightarrow> next_task (h' x) = next_task (h x)"
    by auto
qed

lemma eventfd_write_pos: "eventfd_write n > 0"
  by (simp add: eventfd_write_def EVENTFD_MAX_def)

lemma reactor_step_lists:
  assumes "reactor_step s t" "reactor_lists s cs qs"
  shows "\<exists>cs' qs'. reactor_lists t cs' qs'"
  using assms
proof (induction rule: reactor_step.induct)
  case (notify task s was_empty h q)
  then have fresh: "task \<notin> set cs" "task \<notin> set qs"
    by (auto simp: on_the_way_lists)
  have l: "linked (rs_heap s) (rq_head (rs_queue s)) (rq_tail (rs_queue s)) qs"
    using notify by (simp add: reactor_lists_def)
  note spec = notify_section_spec [OF l fresh(2) notify(2)]
  have "path h (walking (rs_pc s)) cs"
  proof (rule path_transfer [OF reactor_lists_dest(1) [OF notify(3)]])
    show "next_task (h x) = next_task (rs_heap s x)" if "x \<in> set cs" for x
      by (rule spec(4)) (use that fresh reactor_lists_dest(3) [OF notify(3)] in auto)
  qed
  then have "reactor_lists (s\<lparr>rs_heap := h, rs_queue := q, rs_notified := rs_notified s @ [task],
      rs_writers := (if was_empty then rs_writers s + 1 else rs_writers s)\<rparr>) cs (qs @ [task])"
    using notify(3) spec(1-3) fresh by (auto simp: reactor_lists_def)
  then show ?case by blast
next
  case (signal s)
  then have "reactor_lists (s\<lparr>rs_writers := rs_writers s - 1,
      rs_queue := (rs_queue s)\<lparr>rq_eventfd := eventfd_write (rq_eventfd (rs_queue s))\<rparr>\<rparr>) cs qs"
    by (simp add: reactor_lists_def eventfd_write_pos)
  then show ?case by blast
next
  case (wakeup s)
  then have "reactor_lists (s\<lparr>rs_pc := R_Drained, rs_queue := (rs_queue s)\<lparr>rq_eventfd := 0\<rparr>\<rparr>) cs qs"
    by (simp add: reactor_lists_def)
  then show ?case by blast
next
  case (detach s cur q)
  then have "cs = []"
    by (cases cs) (auto simp: reactor_lists_def)
  with detach have "reactor_lists (s\<lparr>rs_pc := R_Walk cur, rs_queue := q\<rparr>) qs []"
    by (auto simp: reactor_lists_def take_section_def linked_def)
  then show ?case by blast
next
  case (handle s task t')
  then obtain cs' where cs: "cs = task # cs'"
    by (cases cs) (auto simp: reactor_lists_def)
  let ?h = "(rs_heap s)(task := t')"
  note dest = reactor_lists_dest [OF handle(2)]
  have "path (rs_heap s) (next_task (rs_heap s task)) cs'" "task \<notin> set cs'" "task \<notin> set qs"
    using dest cs handle(1) by auto
  moreover from this have "path ?h (next_task (rs_heap s task)) cs'"
    by (intro path_transfer [of "rs_heap s" "next_task (rs_heap s task)" cs' ?h]) auto
  moreover from calculation have "linked ?h (rq_head (rs_queue s)) (rq_tail (rs_queue s)) qs"
    by (intro linked_transfer [OF dest(2)]) auto
  ultimately have "path ?h (next_task (rs_heap s task)) cs'" "linked ?h (rq_head (rs_queue s)) (rq_tail (rs_queue s)) qs"
    by simp_all
  with handle cs have "reactor_lists (s\<lparr>rs_pc := R_Walk (next_task (rs_heap s task)), rs_heap := ?h,
      rs_handled := rs_handled s @ [task]\<rparr>) cs' qs"
    by (auto simp: reactor_lists_def)
  then show ?case by blast
next
  case (return s)
  then have "reactor_lists (s\<lparr>rs_pc := R_Loop\<rparr>) cs qs"
    by (auto simp: reactor_lists_def)
  then show ?case by blast
next
  case (other s h')
  then have same: "\<And>x. x \<in> set (cs @ qs) \<Longrightarrow> next_task (h' x) = next_task (rs_heap s x)"
    by (simp add: on_the_way_lists)
  have "path h' (walking (rs_pc s)) cs" "linked h' (rq_head (rs_queue s)) (rq_tail (rs_queue s)) qs"
    by (rule path_transfer [OF reactor_lists_dest(1) [OF other(2)]] linked_transfer [OF reactor_lists_dest(2) [OF other(2)]],
        rule same, simp)+
  with other(2) have "reactor_lists (s\<lparr>rs_heap := h'\<rparr>) cs qs"
    by (simp add: reactor_lists_def)
  then show ?case by blast
qed

interpretation completion: invariant_system reactor_start reactor_step reactor_inv
proof
  show "reactor_inv s" if "reactor_start s" for s
    unfolding reactor_inv_def using that
    by (intro exI [of _ "[]"]) (simp add: reactor_lists_def reactor_start_def linked_def)
  show "reactor_inv t" if "reactor_step s t" "reactor_inv s" for s t
    using that reactor_step_lists unfolding reactor_inv_def by blast
qed

lemma walk_notified: "reactor_lists s cs qs \<Longrightarrow>
    walk (length (rs_notified s)) (rs_heap s) (walking (rs_pc s)) = cs \<and>
    walk (length (rs_notified s)) (rs_heap s) (rq_head (rs_queue s)) = qs"
  using walk_path [of "rs_heap s" "walking (rs_pc s)" cs] walk_path [of "rs_heap s" "rq_head (rs_queue s)" qs]
  by (auto simp: reactor_lists_def linked_def)


section \<open>Properties\<close>

text \<open>C25: completions are delivered exactly once and in order: in every reachable state the tasks handed to a reactor
  are those it has handled, followed by the detached ones it is walking, followed by those in its queue, whatever
  the tasks it has handled have become in the pool.\<close>

theorem reactor_exactly_once:
  assumes "reach reactor_start reactor_step s"
  shows "rs_notified s = rs_handled s @ walk (length (rs_notified s)) (rs_heap s) (walking (rs_pc s)) @
    walk (length (rs_notified s)) (rs_heap s) (rq_head (rs_queue s))"
proof -
  obtain cs qs where l: "reactor_lists s cs qs"
    using completion.reach_inv [OF assms] by (auto simp: reactor_inv_def)
  have "rs_notified s = rs_handled s @ cs @ qs"
    using l by (simp add: reactor_lists_def)
  then show ?thesis
    using walk_notified [OF l] by simp
qed

definition quiet_reactor :: "nat reactor_system" where
  "quiet_reactor = \<lparr>rs_heap = (\<lambda>_. zero_task), rs_queue = \<lparr>rq_head = None, rq_tail = None, rq_eventfd = 0\<rparr>,
     rs_writers = 0, rs_pc = R_Loop, rs_notified = [], rs_handled = []\<rparr>"

definition notified_reactor :: "nat reactor_system" where
  "notified_reactor = quiet_reactor\<lparr>rs_heap := set_next 5 None (\<lambda>_. zero_task),
     rs_queue := \<lparr>rq_head = Some 5, rq_tail = Some 5, rq_eventfd = 0\<rparr>, rs_writers := 1, rs_notified := [5]\<rparr>"

lemma notified_reach: "reach reactor_start reactor_step notified_reactor"
proof (rule reach_step)
  show "reach reactor_start reactor_step quiet_reactor"
    by (rule reach_init) (simp add: reactor_start_def quiet_reactor_def)
  have "reactor_step quiet_reactor (quiet_reactor\<lparr>rs_heap := set_next 5 None (\<lambda>_. zero_task),
      rs_queue := \<lparr>rq_head = Some 5, rq_tail = Some 5, rq_eventfd = 0\<rparr>, rs_notified := rs_notified quiet_reactor @ [5],
      rs_writers := (if True then rs_writers quiet_reactor + 1 else rs_writers quiet_reactor)\<rparr>)"
    by (rule reactor_step.notify) (simp_all add: on_the_way_def notify_section_def quiet_reactor_def)
  then show "reactor_step quiet_reactor notified_reactor"
    by (simp add: notified_reactor_def quiet_reactor_def)
qed

theorem reactor_exactly_once_witness:
  "rs_notified notified_reactor = rs_handled notified_reactor @
     walk (length (rs_notified notified_reactor)) (rs_heap notified_reactor) (walking (rs_pc notified_reactor)) @
     walk (length (rs_notified notified_reactor)) (rs_heap notified_reactor) (rq_head (rs_queue notified_reactor))"
  by (rule reactor_exactly_once [OF notified_reach])

text \<open>No completion is stranded: whenever a reactor's queue is not empty, its \<open>eventfd\<close> is readable, or a worker is
  about to write it, or the reactor has read it and is about to take the queue. Workers that find the queue not empty
  need not write.\<close>

theorem reactor_no_lost_wakeup:
  assumes "reach reactor_start reactor_step s" "rq_head (rs_queue s) \<noteq> None"
  shows "rq_eventfd (rs_queue s) > 0 \<or> rs_writers s > 0 \<or> rs_pc s = R_Drained"
proof -
  obtain cs qs where l: "reactor_lists s cs qs"
    using completion.reach_inv [OF assms(1)] by (auto simp: reactor_inv_def)
  then have "qs \<noteq> []"
    using assms(2) linked_empty(1) [OF reactor_lists_dest(2) [OF l]] by simp
  with l show ?thesis
    by (auto simp: reactor_lists_def)
qed

theorem reactor_no_lost_wakeup_witness:
  "rq_eventfd (rs_queue notified_reactor) > 0 \<or> rs_writers notified_reactor > 0 \<or> rs_pc notified_reactor = R_Drained"
  by (rule reactor_no_lost_wakeup [OF notified_reach]) (simp add: notified_reactor_def)

end
