(* ===== verification/Config.thy ===== *)
theory Config
  imports CLib
begin

text \<open>
  Model of \<open>lib/config.c\<close>: reading the environment file, the environment variables, their ranges and defaults, the
  allowed CORS origins, the removal of secrets from the environment, and the hot reload.

  The process environment is a map from names to values. The content of an environment file is an argument,
  \<open>None\<close> when it cannot be opened. A process that ends in \<open>LOG_FATAL\<close> is \<open>None\<close>.
\<close>

section \<open>Numbers and booleans\<close>

definition safe_strtoul_env :: "cstring_ptr \<Rightarrow> 64 word \<Rightarrow> 64 word \<Rightarrow> 64 word" where
  "safe_strtoul_env env_val default_val max_val =
     (case env_val of
        None \<Rightarrow> default_val
      | Some s \<Rightarrow>
          (if s = [] then default_val
           else
             (let (val, endptr, erange) = strtoul s
              in if erange \<or> endptr \<noteq> [] then default_val
                 else if val > max_val then max_val
                 else val)))"

definition safe_strtol_env :: "cstring_ptr \<Rightarrow> int \<Rightarrow> int \<Rightarrow> int \<Rightarrow> int" where
  "safe_strtol_env env_val default_val min_val max_val =
     (case env_val of
        None \<Rightarrow> default_val
      | Some s \<Rightarrow>
          (if s = [] then default_val
           else
             (let (val, endptr, erange) = strtol s
              in if erange \<or> endptr \<noteq> [] then default_val
                 else if val < min_val then min_val
                 else if val > max_val then max_val
                 else val)))"

definition parse_boolean_env :: "cstring_ptr \<Rightarrow> bool \<Rightarrow> bool" where
  "parse_boolean_env env_val default_val =
     (case env_val of
        None \<Rightarrow> default_val
      | Some s \<Rightarrow> \<not> (strcasecmp_eq s ''false'' \<or> strcasecmp_eq s ''0'' \<or> strcasecmp_eq s ''off'' \<or> strcasecmp_eq s ''no''))"


section \<open>State\<close>

definition MAX_CONFIG_STR :: nat where
  "MAX_CONFIG_STR = 1024"

record config =
  g_odbc_conn_strs :: "cstring list"
  g_api_url :: cstring
  g_api_user :: cstring
  g_api_pass :: cstring
  g_login_provider :: cstring
  g_login_uri :: cstring
  g_jwt_secret :: cstring
  g_remote_api_key :: cstring
  g_telemetry_api_key :: cstring
  g_jwt_timeout_seconds :: int
  g_trust_proxy_ip :: cstring
  g_allowed_origin :: cstring
  g_allowed_origin_ptrs :: "cstring list"
  g_access_log :: bool
  g_num_threads :: "64 word"
  g_max_queue_size :: "64 word"
  g_fast_pool_percentage :: "64 word"
  g_max_payload_size :: "64 word"
  g_uploads_dir :: cstring
  g_server_port :: int
  is_first_load :: bool

text \<open>The static initial values.\<close>

definition initial_config :: config where
  "initial_config = \<lparr>g_odbc_conn_strs = replicate 4 [], g_api_url = [], g_api_user = [], g_api_pass = [],
     g_login_provider = [], g_login_uri = [], g_jwt_secret = [], g_remote_api_key = [], g_telemetry_api_key = [],
     g_jwt_timeout_seconds = 3600, g_trust_proxy_ip = [], g_allowed_origin = [], g_allowed_origin_ptrs = [],
     g_access_log = True, g_num_threads = 0, g_max_queue_size = 10000, g_fast_pool_percentage = 25,
     g_max_payload_size = 5242880, g_uploads_dir = [], g_server_port = 8080, is_first_load = True\<rparr>"

type_synonym environment = "cstring \<rightharpoonup> cstring"


section \<open>The environment file\<close>

definition trim_whitespace :: "cstring \<Rightarrow> cstring" where
  "trim_whitespace str = rev (dropWhile isspace (rev (dropWhile isspace str)))"

text \<open>\<open>fgets\<close> until the end of the file: at most \<open>n - 1\<close> characters, up to and including a newline.\<close>

fun fgets_line :: "nat \<Rightarrow> string \<Rightarrow> string \<times> string" where
  "fgets_line room [] = ([], [])"
| "fgets_line 0 s = ([], s)"
| "fgets_line (Suc room) (c # cs) =
     (if c = CHR 0x0A then ([c], cs) else (let (l, rest) = fgets_line room cs in (c # l, rest)))"

lemma fgets_line_length: "length (snd (fgets_line room s)) \<le> length s"
  by (induction room s rule: fgets_line.induct) (auto simp: split_def Let_def)

lemma fgets_line_shrinks: "s \<noteq> [] \<Longrightarrow> room \<noteq> 0 \<Longrightarrow> fgets_line room s = (l, rest) \<Longrightarrow> length rest < length s"
  using fgets_line_length [of "room - 1" "tl s"]
  by (cases room; cases s) (auto simp: split_def Let_def less_Suc_eq_le split: if_splits)

function fgets_lines :: "nat \<Rightarrow> string \<Rightarrow> string list" where
  "fgets_lines room s =
     (if s = [] \<or> room = 0 then []
      else (let (l, rest) = fgets_line room s in l # fgets_lines room rest))"
  by auto

termination
  by (relation "measure (\<lambda>(room, s). length s)") (auto dest: fgets_line_shrinks [OF _ _ sym])

declare fgets_lines.simps [simp del]

text \<open>The value without its quotes.\<close>

definition unquote :: "cstring \<Rightarrow> cstring" where
  "unquote val =
     (case val of
        [] \<Rightarrow> []
      | quote # rest \<Rightarrow>
          (if quote = CHR 0x22 \<or> quote = CHR 0x27
           then (if rest \<noteq> [] \<and> last rest = quote then butlast rest else rest)
           else val))"

text \<open>The key and the value of a line; comments, blank lines and lines without \<open>=\<close> give \<open>None\<close>.\<close>

definition parse_env_line :: "cstring \<Rightarrow> (cstring \<times> cstring) option" where
  "parse_env_line line =
     (let trimmed_line = trim_whitespace line
      in if trimmed_line = [] \<or> hd trimmed_line = CHR 0x23 then None
         else
           (case strchr trimmed_line (CHR 0x3D) of
              None \<Rightarrow> None
            | Some (k, v) \<Rightarrow> Some (trim_whitespace k, unquote (trim_whitespace v))))"

definition load_env_line :: "bool \<Rightarrow> cstring \<Rightarrow> config \<times> environment \<Rightarrow> config \<times> environment" where
  "load_env_line hot_reload line s =
     (case parse_env_line line of
        None \<Rightarrow> s
      | Some (key, val) \<Rightarrow>
          (if hot_reload
           then (if key = ''ACCESS_LOG'' then apfst (g_access_log_update (\<lambda>_. parse_boolean_env (Some val) True)) s else s)
           else if key \<noteq> [] then apsnd (\<lambda>env. env(key \<mapsto> val)) s
           else s))"

definition load_env_file :: "string option \<Rightarrow> bool \<Rightarrow> config \<times> environment \<Rightarrow> bool \<times> config \<times> environment" where
  "load_env_file file hot_reload s =
     (case file of
        None \<Rightarrow> (False, s)
      | Some content \<Rightarrow> (True, fold (load_env_line hot_reload) (map c_str (fgets_lines (MAX_CONFIG_STR - 1) content)) s))"

text \<open>\<open>exe_file\<close> is the file beside the executable, \<open>cwd_file\<close> the one in the working directory.\<close>

definition locate_and_load_env ::
  "string option \<Rightarrow> string option \<Rightarrow> bool \<Rightarrow> config \<times> environment \<Rightarrow> bool \<times> config \<times> environment"
where
  "locate_and_load_env exe_file cwd_file hot_reload s =
     (let (ok, s1) = load_env_file exe_file hot_reload s
      in if ok then (True, s1) else load_env_file cwd_file hot_reload s1)"


section \<open>Loading\<close>

definition load_env_string :: "environment \<Rightarrow> cstring \<Rightarrow> bool \<Rightarrow> cstring \<Rightarrow> cstring" where
  "load_env_string env key clear_on_miss dest =
     (case env key of
        Some val \<Rightarrow> strlcpy val MAX_CONFIG_STR
      | None \<Rightarrow> if clear_on_miss then [] else dest)"

text \<open>\<open>strtok_r\<close> with one delimiter: the non-empty runs between delimiters.\<close>

fun strtok :: "char \<Rightarrow> cstring \<Rightarrow> cstring \<Rightarrow> cstring list" where
  "strtok d [] tok = (if tok = [] then [] else [tok])"
| "strtok d (c # cs) tok =
     (if c = d then (if tok = [] then strtok d cs [] else tok # strtok d cs []) else strtok d cs (tok @ [c]))"

fun add_origins :: "cstring list \<Rightarrow> cstring list \<Rightarrow> cstring list" where
  "add_origins [] ptrs = ptrs"
| "add_origins (token # tokens) ptrs =
     (if length ptrs < 64
      then (let t = trim_whitespace token in add_origins tokens (if t \<noteq> [] then ptrs @ [t] else ptrs))
      else ptrs)"

definition parse_cors_origins :: "config \<Rightarrow> config" where
  "parse_cors_origins cfg =
     (if g_allowed_origin cfg = [] then cfg
      else cfg\<lparr>g_allowed_origin_ptrs :=
        add_origins (strtok (CHR 0x2C) (strlcpy (g_allowed_origin cfg) MAX_CONFIG_STR) []) (g_allowed_origin_ptrs cfg)\<rparr>)"

definition db_key :: "nat \<Rightarrow> cstring" where
  "db_key i = snprintf (''DB_'' @ dec i) 8"

definition apply_initial_config_vars :: "environment \<Rightarrow> config \<Rightarrow> config" where
  "apply_initial_config_vars env cfg =
     parse_cors_origins (cfg\<lparr>
       g_odbc_conn_strs := map (\<lambda>i. load_env_string env (db_key i) False (g_odbc_conn_strs cfg ! i)) [0..<4],
       g_api_url := load_env_string env ''API_URL'' False (g_api_url cfg),
       g_api_user := load_env_string env ''API_USER'' False (g_api_user cfg),
       g_api_pass := load_env_string env ''API_PASS'' False (g_api_pass cfg),
       g_login_provider := load_env_string env ''LOGIN_PROVIDER'' False (g_login_provider cfg),
       g_login_uri := load_env_string env ''LOGIN_URI'' False (g_login_uri cfg),
       g_jwt_secret := load_env_string env ''JWT_SECRET'' False (g_jwt_secret cfg),
       g_remote_api_key := load_env_string env ''REMOTE_API_KEY'' True (g_remote_api_key cfg),
       g_telemetry_api_key := load_env_string env ''TELEMETRY_API_KEY'' True (g_telemetry_api_key cfg),
       g_trust_proxy_ip := load_env_string env ''TRUST_PROXY_IP'' True (g_trust_proxy_ip cfg),
       g_allowed_origin := load_env_string env ''CORS_ALLOWED_ORIGINS'' True (g_allowed_origin cfg),
       g_uploads_dir := load_env_string env ''UPLOADS_DIR'' True (g_uploads_dir cfg),
       g_jwt_timeout_seconds :=
         (case env ''JWT_TIMEOUT_SECONDS'' of
            None \<Rightarrow> g_jwt_timeout_seconds cfg
          | Some v \<Rightarrow> safe_strtol_env (Some v) 3600 1 (86400 * 30))\<rparr>)"

definition scrub_env_var :: "cstring \<Rightarrow> environment \<Rightarrow> environment" where
  "scrub_env_var name env = env(name := None)"

definition secret_keys :: "cstring list" where
  "secret_keys = [''JWT_SECRET'', ''API_PASS'', ''REMOTE_API_KEY'', ''TELEMETRY_API_KEY''] @ map db_key [0..<4]"

definition required_keys :: "cstring list" where
  "required_keys = [''DB_0'', ''API_URL'', ''API_USER'', ''API_PASS'', ''JWT_SECRET'', ''JWT_TIMEOUT_SECONDS'',
     ''TELEMETRY_API_KEY'']"

definition config_reload :: "string option \<Rightarrow> string option \<Rightarrow> config \<times> environment \<Rightarrow> (config \<times> environment) option" where
  "config_reload exe_file cwd_file s =
     (if \<not> is_first_load (fst s) then Some (snd (locate_and_load_env exe_file cwd_file True s))
      else
        (let (_, cfg, env) = locate_and_load_env exe_file cwd_file False s
         in if \<exists>k \<in> set required_keys. env k = None then None
            else
              (let cfg1 = cfg\<lparr>
                 g_num_threads := safe_strtoul_env (env ''NUM_THREADS'') 0 1024,
                 g_max_queue_size := safe_strtoul_env (env ''MAX_QUEUE_SIZE'') 10000 1000000,
                 g_fast_pool_percentage := safe_strtoul_env (env ''FAST_POOL_PERCENTAGE'') 25 100,
                 g_max_payload_size := safe_strtoul_env (env ''MAX_PAYLOAD_SIZE'') 5242880 104857600,
                 g_server_port := safe_strtol_env (env ''SERVER_PORT'') 8080 1 65535,
                 g_access_log := parse_boolean_env (env ''ACCESS_LOG'') True\<rparr>;
                   cfg2 = apply_initial_config_vars env cfg1
               in Some (cfg2\<lparr>is_first_load := False\<rparr>, fold scrub_env_var secret_keys env))))"

definition config_init :: "string option \<Rightarrow> string option \<Rightarrow> config \<times> environment \<Rightarrow> (config \<times> environment) option" where
  "config_init exe_file cwd_file s = config_reload exe_file cwd_file s"

definition config_get_odbc_conn_str :: "config \<Rightarrow> int \<Rightarrow> cstring" where
  "config_get_odbc_conn_str cfg db_id = (if db_id \<ge> 0 \<and> db_id < 4 then g_odbc_conn_strs cfg ! nat db_id else [])"

definition config_is_origin_allowed :: "config \<Rightarrow> cstring_ptr \<Rightarrow> bool" where
  "config_is_origin_allowed cfg origin =
     (case origin of
        None \<Rightarrow> False
      | Some o' \<Rightarrow> (\<exists>p \<in> set (g_allowed_origin_ptrs cfg). strcmp p o' = 0))"


section \<open>Ranges\<close>

lemma safe_strtoul_env_le: "d \<le> m \<Longrightarrow> safe_strtoul_env v d m \<le> m"
  by (auto simp: safe_strtoul_env_def Let_def split: option.splits prod.splits)

lemma safe_strtol_env_range: "lo \<le> d \<Longrightarrow> d \<le> hi \<Longrightarrow> lo \<le> safe_strtol_env v d lo hi \<and> safe_strtol_env v d lo hi \<le> hi"
  by (auto simp: safe_strtol_env_def Let_def split: option.splits prod.splits)

lemma load_env_string_length: "length d < MAX_CONFIG_STR \<Longrightarrow> length (load_env_string env k b d) < MAX_CONFIG_STR"
  by (auto simp: load_env_string_def MAX_CONFIG_STR_def strlcpy_def split: option.splits)

lemma length_add_origins: "length ptrs \<le> 64 \<Longrightarrow> length (add_origins ts ptrs) \<le> 64"
  by (induction ts ptrs rule: add_origins.induct) (auto simp: Let_def)

definition numbers_ok :: "config \<Rightarrow> bool" where
  "numbers_ok cfg \<longleftrightarrow> g_num_threads cfg \<le> 1024 \<and> g_max_queue_size cfg \<le> 1000000 \<and> g_fast_pool_percentage cfg \<le> 100 \<and>
     g_max_payload_size cfg \<le> 104857600 \<and> 1 \<le> g_server_port cfg \<and> g_server_port cfg \<le> 65535 \<and>
     1 \<le> g_jwt_timeout_seconds cfg \<and> g_jwt_timeout_seconds cfg \<le> 2592000 \<and> length (g_allowed_origin_ptrs cfg) \<le> 64"

definition strings_ok :: "config \<Rightarrow> bool" where
  "strings_ok cfg \<longleftrightarrow> length (g_odbc_conn_strs cfg) = 4 \<and>
     (\<forall>s \<in> set (g_odbc_conn_strs cfg) \<union> {g_api_url cfg, g_api_user cfg, g_api_pass cfg, g_login_provider cfg,
        g_login_uri cfg, g_jwt_secret cfg, g_remote_api_key cfg, g_telemetry_api_key cfg, g_trust_proxy_ip cfg,
        g_allowed_origin cfg, g_uploads_dir cfg}. length s < MAX_CONFIG_STR)"

lemma numbers_ok_apply: "numbers_ok cfg \<Longrightarrow> numbers_ok (apply_initial_config_vars env cfg)"
  using safe_strtol_env_range [of 1 3600 2592000] length_add_origins
  by (auto simp: numbers_ok_def apply_initial_config_vars_def parse_cors_origins_def split: option.splits)

lemma strings_ok_apply:
  assumes "strings_ok cfg"
  shows "strings_ok (apply_initial_config_vars env cfg)"
proof -
  have "length (g_odbc_conn_strs cfg ! i) < MAX_CONFIG_STR" if "i < 4" for i
    using assms that by (auto simp: strings_ok_def)
  with assms show ?thesis
    by (auto simp: strings_ok_def apply_initial_config_vars_def parse_cors_origins_def intro!: load_env_string_length)
qed

lemma load_env_line_cold: "fst (load_env_line False l s) = fst s"
  by (auto simp: load_env_line_def split: option.splits)

lemma fold_cold: "fst (fold (load_env_line False) ls s) = fst s"
  by (induction ls arbitrary: s) (auto simp: load_env_line_cold)

text \<open>The setting of \<open>ACCESS_LOG\<close> in a line, and the settings in a file, in order.\<close>

definition line_setting :: "cstring \<Rightarrow> bool list" where
  "line_setting l =
     (case parse_env_line l of
        Some (k, v) \<Rightarrow> if k = ''ACCESS_LOG'' then [parse_boolean_env (Some v) True] else []
      | None \<Rightarrow> [])"

definition access_log_settings :: "string \<Rightarrow> bool list" where
  "access_log_settings content = concat (map line_setting (map c_str (fgets_lines (MAX_CONFIG_STR - 1) content)))"

definition last_setting :: "bool list \<Rightarrow> bool \<Rightarrow> bool" where
  "last_setting bs b = (if bs = [] then b else last bs)"

lemma load_env_line_hot:
  "load_env_line True l (cfg, env) = (cfg\<lparr>g_access_log := last_setting (line_setting l) (g_access_log cfg)\<rparr>, env)"
  by (simp add: load_env_line_def line_setting_def last_setting_def split: option.splits prod.splits)

lemma last_setting_append: "last_setting (xs @ ys) b = last_setting ys (last_setting xs b)"
  by (simp add: last_setting_def)

lemma fold_hot:
  "fold (load_env_line True) ls (cfg, env) =
     (cfg\<lparr>g_access_log := last_setting (concat (map line_setting ls)) (g_access_log cfg)\<rparr>, env)"
proof (induction ls arbitrary: cfg)
  case (Cons l ls)
  then show ?case
    by (simp add: load_env_line_hot last_setting_append)
qed (simp add: last_setting_def)

lemma load_env_file_hot:
  "load_env_file (Some f) True (cfg, env) =
     (True, cfg\<lparr>g_access_log := last_setting (access_log_settings f) (g_access_log cfg)\<rparr>, env)"
  by (simp add: load_env_file_def fold_hot access_log_settings_def)

lemma load_env_file_cold: "fst (snd (load_env_file f False s)) = fst s"
  by (simp add: load_env_file_def fold_cold split: option.splits)

lemma locate_cold:
  assumes "locate_and_load_env exe cwd False (cfg, env) = (ok, cfg', env')"
  shows "cfg' = cfg"
proof -
  have "fst (snd (locate_and_load_env exe cwd False (cfg, env))) = cfg"
    by (simp add: locate_and_load_env_def Let_def split_def load_env_file_cold)
  with assms show ?thesis by simp
qed

lemma fold_scrub: "fold scrub_env_var ks env k = (if k \<in> set ks then None else env k)"
  by (induction ks arbitrary: env) (auto simp: scrub_env_var_def)

definition config_start :: "config \<times> environment \<Rightarrow> bool" where
  "config_start s \<longleftrightarrow> fst s = initial_config"

definition config_step :: "config \<times> environment \<Rightarrow> config \<times> environment \<Rightarrow> bool" where
  "config_step s t \<longleftrightarrow> (\<exists>exe_file cwd_file. config_reload exe_file cwd_file s = Some t)"

definition config_inv :: "config \<times> environment \<Rightarrow> bool" where
  "config_inv s \<longleftrightarrow> numbers_ok (fst s) \<and> strings_ok (fst s) \<and>
     (\<not> is_first_load (fst s) \<longrightarrow> (\<forall>k \<in> set secret_keys. snd s k = None))"

lemma config_reload_hot:
  assumes "\<not> is_first_load cfg"
  shows "config_reload exe cwd (cfg, env) =
    Some (cfg\<lparr>g_access_log := (case exe of
        Some f \<Rightarrow> last_setting (access_log_settings f) (g_access_log cfg)
      | None \<Rightarrow> (case cwd of Some f \<Rightarrow> last_setting (access_log_settings f) (g_access_log cfg) | None \<Rightarrow> g_access_log cfg))\<rparr>, env)"
proof -
  have "load_env_file None True (cfg, env) = (False, cfg, env)"
    by (simp add: load_env_file_def)
  then show ?thesis
    using assms by (cases exe; cases cwd) (simp_all add: config_reload_def locate_and_load_env_def load_env_file_hot)
qed

lemma config_step_inv: "config_step s t \<Longrightarrow> config_inv s \<Longrightarrow> config_inv t"
proof -
  assume "config_step s t" and inv: "config_inv s"
  then obtain exe cwd cfg env where r: "config_reload exe cwd (cfg, env) = Some t" and s: "s = (cfg, env)"
    by (cases s) (auto simp: config_step_def)
  show "config_inv t"
  proof (cases "is_first_load cfg")
    case False
    then show ?thesis
      using r inv config_reload_hot [OF False, of exe cwd env]
      by (auto simp: s config_inv_def numbers_ok_def strings_ok_def)
  next
    case True
    obtain ok cfg' env' where l: "locate_and_load_env exe cwd False (cfg, env) = (ok, cfg', env')"
      by (metis prod.collapse)
    note cfg' = locate_cold [OF l]
    obtain cfg1 where cfg1: "t = ((apply_initial_config_vars env' cfg1)\<lparr>is_first_load := False\<rparr>, fold scrub_env_var secret_keys env')"
      and "numbers_ok cfg1" "strings_ok cfg1"
      using r True l cfg' inv safe_strtol_env_range [of 1 8080 65535] safe_strtoul_env_le
      by (auto simp: config_reload_def s config_inv_def numbers_ok_def strings_ok_def Let_def split: if_splits)
    then show ?thesis
      using numbers_ok_apply [of cfg1 env'] strings_ok_apply [of cfg1 env'] fold_scrub [of secret_keys env']
      by (auto simp: config_inv_def numbers_ok_def strings_ok_def)
  qed
qed

interpretation configuration: invariant_system config_start config_step config_inv
proof
  show "config_inv s" if "config_start s" for s
    using that by (auto simp: config_start_def config_inv_def numbers_ok_def strings_ok_def initial_config_def MAX_CONFIG_STR_def)
qed (rule config_step_inv)


section \<open>The CORS list\<close>

text \<open>The text between commas, empty pieces included.\<close>

fun pieces :: "char \<Rightarrow> cstring \<Rightarrow> cstring list" where
  "pieces d [] = [[]]"
| "pieces d (c # cs) =
     (if c = d then [] # pieces d cs else (case pieces d cs of p # ps \<Rightarrow> (c # p) # ps | [] \<Rightarrow> [[c]]))"

lemma pieces_nonempty: "pieces d s \<noteq> []"
  by (cases s) (auto split: list.splits)

lemma strtok_pieces:
  "strtok d s tok = filter (\<lambda>p. p \<noteq> []) ((tok @ hd (pieces d s)) # tl (pieces d s))"
proof (induction d s tok rule: strtok.induct)
  case (2 d c cs tok)
  then show ?case
    using pieces_nonempty [of d cs] by (cases "pieces d cs") auto
qed simp

text \<open>The table takes the first 64 entries that are not empty.\<close>

lemma add_origins_take:
  assumes "length ptrs \<le> 64"
  shows "add_origins tokens ptrs = take 64 (ptrs @ filter (\<lambda>t. t \<noteq> []) (map trim_whitespace tokens))"
  using assms by (induction tokens ptrs rule: add_origins.induct) (auto simp: Let_def take_Cons')

lemma trim_Nil [simp]: "trim_whitespace [] = []"
  by (simp add: trim_whitespace_def)


section \<open>The lines of a file\<close>

lemma fgets_line_newline:
  "CHR 0x0A \<notin> set l \<Longrightarrow> length l < room \<Longrightarrow> fgets_line room (l @ CHR 0x0A # rest) = (l @ [CHR 0x0A], rest)"
proof (induction l arbitrary: room)
  case Nil
  then show ?case by (cases room) auto
next
  case (Cons c l)
  then show ?case by (cases room) auto
qed

lemma fgets_lines_newlines:
  assumes "\<forall>l \<in> set ls. CHR 0x0A \<notin> set l \<and> length l < room"
  shows "fgets_lines room (concat (map (\<lambda>l. l @ [CHR 0x0A]) ls)) = map (\<lambda>l. l @ [CHR 0x0A]) ls"
  using assms
proof (induction ls)
  case Nil
  then show ?case by (simp add: fgets_lines.simps)
next
  case (Cons l ls)
  then have "fgets_line room (l @ CHR 0x0A # concat (map (\<lambda>l. l @ [CHR 0x0A]) ls)) =
      (l @ [CHR 0x0A], concat (map (\<lambda>l. l @ [CHR 0x0A]) ls))" "room \<noteq> 0"
    by (auto intro: fgets_line_newline)
  then show ?case
    using Cons by (simp add: fgets_lines.simps [of room "_ @ _"])
qed

text \<open>A string \<open>trim_whitespace\<close> leaves alone.\<close>

definition no_margin :: "cstring \<Rightarrow> bool" where
  "no_margin s \<longleftrightarrow> s = [] \<or> \<not> isspace (hd s) \<and> \<not> isspace (last s)"

lemma dropWhile_hd: "s = [] \<or> \<not> P (hd s) \<Longrightarrow> dropWhile P s = s"
  by (cases s) auto

lemma trim_no_margin: "no_margin s \<Longrightarrow> trim_whitespace s = s"
  by (auto simp: no_margin_def trim_whitespace_def dropWhile_hd hd_rev)

lemma trim_newline:
  assumes "no_margin s"
  shows "trim_whitespace (s @ [CHR 0x0A]) = s"
proof (cases "s = []")
  case True
  then show ?thesis by (simp add: trim_whitespace_def isspace_def)
next
  case False
  then have "dropWhile isspace (s @ [CHR 0x0A]) = s @ [CHR 0x0A]" "dropWhile isspace (rev s) = rev s"
    using assms by (auto simp: no_margin_def dropWhile_hd hd_rev)
  moreover have "isspace (CHR 0x0A)"
    by (simp add: isspace_def)
  ultimately show ?thesis
    by (simp add: trim_whitespace_def)
qed

definition env_line :: "cstring \<times> cstring \<Rightarrow> string" where
  "env_line kv = fst kv @ [CHR 0x3D] @ snd kv"

definition plain_setting :: "cstring \<times> cstring \<Rightarrow> bool" where
  "plain_setting kv \<longleftrightarrow> fst kv \<noteq> [] \<and> no_margin (fst kv) \<and> no_margin (snd kv) \<and> hd (fst kv) \<noteq> CHR 0x23 \<and>
     CHR 0x3D \<notin> set (fst kv) \<and> {CHR 0x0A, CHR 0x00} \<inter> set (env_line kv) = {} \<and>
     (snd kv = [] \<or> hd (snd kv) \<notin> {CHR 0x22, CHR 0x27}) \<and> length (env_line kv) < MAX_CONFIG_STR - 1"

lemma parse_plain:
  assumes "plain_setting kv"
  shows "parse_env_line (env_line kv @ [CHR 0x0A]) = Some kv"
proof -
  obtain k v where kv: "kv = (k, v)" by (cases kv)
  have eq: "\<not> isspace (CHR 0x3D)"
    by (simp add: isspace_def)
  have "no_margin (env_line kv)"
    using assms eq by (cases k; cases v rule: rev_cases) (auto simp: kv plain_setting_def env_line_def no_margin_def)
  then have "trim_whitespace (env_line kv @ [CHR 0x0A]) = env_line kv"
    by (rule trim_newline)
  moreover have "strchr (env_line kv) (CHR 0x3D) = Some (k, v)"
    using assms by (simp add: kv env_line_def plain_setting_def)
  moreover have "unquote v = v" "trim_whitespace k = k" "trim_whitespace v = v"
    using assms by (auto simp: kv plain_setting_def unquote_def trim_no_margin split: list.splits)
  moreover have "env_line kv \<noteq> []" "hd (env_line kv) \<noteq> CHR 0x23"
    using assms by (auto simp: kv env_line_def plain_setting_def)
  ultimately show ?thesis
    by (simp add: parse_env_line_def Let_def kv)
qed

lemma fold_plain:
  assumes "\<forall>kv \<in> set kvs. plain_setting kv"
  shows "fold (load_env_line False) (map (\<lambda>kv. env_line kv @ [CHR 0x0A]) kvs) (cfg, env) =
    (cfg, env ++ map_of (rev kvs))"
  using assms
proof (induction kvs arbitrary: env)
  case (Cons kv kvs)
  then have "load_env_line False (env_line kv @ [CHR 0x0A]) (cfg, env) = (cfg, env(fst kv \<mapsto> snd kv))"
    by (auto simp: load_env_line_def parse_plain plain_setting_def split: prod.splits)
  with Cons show ?case
    by (simp add: map_add_def fun_eq_iff split: option.splits)
qed simp


section \<open>Properties\<close>

text \<open>C26: whatever the environment and the files contain, once the server has started every numeric setting is in its
  documented range, the origin table has at most 64 entries, every string fits its buffer, and the secrets (JWT
  secret, API password, API keys and connection strings) are gone from the environment; later reloads keep it so.\<close>

theorem config_sound:
  assumes "reach config_start config_step (cfg, env)" "\<not> is_first_load cfg"
  shows "numbers_ok cfg \<and> strings_ok cfg \<and>
    (\<forall>k \<in> {''JWT_SECRET'', ''API_PASS'', ''REMOTE_API_KEY'', ''TELEMETRY_API_KEY'', ''DB_0'', ''DB_1'', ''DB_2'', ''DB_3''}. env k = None)"
proof -
  have "map db_key [0..<4] = [''DB_0'', ''DB_1'', ''DB_2'', ''DB_3'']"
    by code_simp
  then have "{''JWT_SECRET'', ''API_PASS'', ''REMOTE_API_KEY'', ''TELEMETRY_API_KEY'', ''DB_0'', ''DB_1'', ''DB_2'', ''DB_3''} =
      set secret_keys"
    by (simp only: secret_keys_def set_append list.set Un_insert_left Un_empty_left)
  then show ?thesis
    using configuration.reach_inv [OF assms(1)] assms(2) by (simp only: config_inv_def fst_conv snd_conv) simp
qed

definition sample_env :: environment where
  "sample_env = map_of [(''DB_0'', ''dsn''), (''API_URL'', ''http://a''), (''API_USER'', ''u''), (''API_PASS'', ''p''),
     (''JWT_SECRET'', ''k''), (''JWT_TIMEOUT_SECONDS'', ''60''), (''TELEMETRY_API_KEY'', ''t''), (''NUM_THREADS'', ''-1'')]"

lemma sample_load:
  "\<exists>cfg env. config_reload None None (initial_config, sample_env) = Some (cfg, env) \<and> \<not> is_first_load cfg"
proof -
  have "locate_and_load_env None None False (initial_config, sample_env) = (False, initial_config, sample_env)"
    by (simp add: locate_and_load_env_def load_env_file_def)
  moreover have "\<not> (\<exists>k \<in> set required_keys. sample_env k = None)"
    by (simp add: required_keys_def sample_env_def)
  ultimately show ?thesis
    by (simp add: config_reload_def initial_config_def Let_def)
qed

theorem config_sound_witness:
  "\<exists>cfg env. reach config_start config_step (cfg, env) \<and> \<not> is_first_load cfg \<and> numbers_ok cfg \<and> strings_ok cfg \<and>
    env ''JWT_SECRET'' = None"
proof -
  obtain cfg env where c: "config_reload None None (initial_config, sample_env) = Some (cfg, env)" "\<not> is_first_load cfg"
    using sample_load by blast
  have "reach config_start config_step (initial_config, sample_env)"
    by (rule reach_init) (simp add: config_start_def)
  then have "reach config_start config_step (cfg, env)"
    by (rule reach_step) (use c(1) in \<open>auto simp: config_step_def\<close>)
  with c(2) config_sound [OF this] show ?thesis
    by blast
qed

text \<open>A reload after startup changes exactly one setting: \<open>ACCESS_LOG\<close> becomes what the last line of the file that
  sets it says, and stays as it was when no line or no file does; the environment and every other setting are
  untouched.\<close>

theorem config_hot_reload:
  assumes "\<not> is_first_load cfg"
  shows "config_reload (Some content) cwd (cfg, env) =
      Some (cfg\<lparr>g_access_log := last_setting (access_log_settings content) (g_access_log cfg)\<rparr>, env) \<and>
    config_reload None None (cfg, env) = Some (cfg, env)"
  using config_reload_hot [OF assms, of "Some content" cwd env] config_reload_hot [OF assms, of None None env] by simp

theorem config_hot_reload_witness:
  "config_reload None None (initial_config\<lparr>is_first_load := False\<rparr>, Map.empty) =
     Some (initial_config\<lparr>is_first_load := False\<rparr>, Map.empty)"
  using config_hot_reload [of "initial_config\<lparr>is_first_load := False\<rparr>" "[]" None Map.empty] by simp

text \<open>C27: an origin is allowed exactly when it is one of the first 64 entries of the comma-separated \<open>CORS_ALLOWED_ORIGINS\<close>,
  counting entries that are not empty after white space around them is removed: there is no prefix, substring or
  case-insensitive match, and entries after the 64th, the size of the table, are never allowed.\<close>

theorem cors_exact_match:
  assumes "g_allowed_origin_ptrs cfg = []" "length (g_allowed_origin cfg) < MAX_CONFIG_STR"
  shows "config_is_origin_allowed (parse_cors_origins cfg) (Some origin) \<longleftrightarrow>
    origin \<in> set (take 64 (filter (\<lambda>t. t \<noteq> []) (map trim_whitespace (pieces (CHR 0x2C) (g_allowed_origin cfg)))))"
proof -
  let ?s = "g_allowed_origin cfg"
  let ?ts = "filter (\<lambda>p. p \<noteq> []) (pieces (CHR 0x2C) ?s)"
  have ts: "strtok (CHR 0x2C) (strlcpy ?s MAX_CONFIG_STR) [] = ?ts"
    using strtok_pieces [of "CHR 0x2C" ?s "[]"] pieces_nonempty [of "CHR 0x2C" ?s] assms(2)
    by (simp only: strlcpy_fits) simp
  have "filter (\<lambda>t. t \<noteq> []) (map trim_whitespace (filter (\<lambda>p. p \<noteq> []) ps)) = filter (\<lambda>t. t \<noteq> []) (map trim_whitespace ps)" for ps
    by (induction ps) auto
  then have "g_allowed_origin_ptrs (parse_cors_origins cfg) =
      take 64 (filter (\<lambda>t. t \<noteq> []) (map trim_whitespace (pieces (CHR 0x2C) ?s)))"
    using assms(1) add_origins_take [of "[]" ?ts] by (auto simp: parse_cors_origins_def ts)
  then show ?thesis
    by (simp add: config_is_origin_allowed_def)
qed

theorem cors_exact_match_witness:
  "config_is_origin_allowed (parse_cors_origins (initial_config\<lparr>g_allowed_origin := ''http://a, http://b''\<rparr>)) (Some ''http://b'') \<and>
   \<not> config_is_origin_allowed (parse_cors_origins (initial_config\<lparr>g_allowed_origin := ''http://a, http://b''\<rparr>)) (Some ''http://'')"
  using cors_exact_match [of "initial_config\<lparr>g_allowed_origin := ''http://a, http://b''\<rparr>" "''http://b''"]
    cors_exact_match [of "initial_config\<lparr>g_allowed_origin := ''http://a, http://b''\<rparr>" "''http://''"]
  by (simp add: initial_config_def MAX_CONFIG_STR_def trim_whitespace_def isspace_def)

text \<open> writing settings to an environment file and loading it gives them back: for plain settings, one per line, the
  environment afterwards has each key with its last value, and everything else as before.\<close>

theorem env_file_roundtrip:
  assumes "\<forall>kv \<in> set kvs. plain_setting kv"
  shows "load_env_file (Some (concat (map (\<lambda>kv. env_line kv @ [CHR 0x0A]) kvs))) False (cfg, env) =
    (True, cfg, env ++ map_of (rev kvs))"
proof -
  let ?ls = "map env_line kvs"
  have "fgets_lines (MAX_CONFIG_STR - 1) (concat (map (\<lambda>l. l @ [CHR 0x0A]) ?ls)) = map (\<lambda>l. l @ [CHR 0x0A]) ?ls"
    using assms by (intro fgets_lines_newlines) (auto simp: plain_setting_def)
  moreover have "map c_str (map (\<lambda>l. l @ [CHR 0x0A]) ?ls) = map (\<lambda>kv. env_line kv @ [CHR 0x0A]) kvs"
    using assms by (auto simp: plain_setting_def intro!: c_str_id)
  ultimately have "map c_str (fgets_lines (MAX_CONFIG_STR - 1) (concat (map (\<lambda>kv. env_line kv @ [CHR 0x0A]) kvs))) =
      map (\<lambda>kv. env_line kv @ [CHR 0x0A]) kvs"
    by (simp only: map_map comp_def)
  then show ?thesis
    using fold_plain [OF assms, of cfg env] by (simp only: load_env_file_def option.case)
qed

theorem env_file_roundtrip_witness:
  "load_env_file (Some (concat (map (\<lambda>kv. env_line kv @ [CHR 0x0A]) [(''A'', ''x y''), (''B'', ''2'')]))) False
     (initial_config, Map.empty) = (True, initial_config, Map.empty ++ map_of (rev [(''A'', ''x y''), (''B'', ''2'')]))"
  by (rule env_file_roundtrip) (simp add: plain_setting_def env_line_def no_margin_def isspace_def MAX_CONFIG_STR_def)

end
