(* ===== verification/Jwt.thy ===== *)
theory Jwt
  imports JsonUtil JsonApi
begin

text \<open>
  Model of \<open>lib/jwt.c\<close>: UUIDs, creation and verification of HS256 tokens.

  libsodium is a parameter, a record of the functions the code calls; what theorems rely on is stated as the
  predicate \<open>sodium_ok\<close>. So is the parser of json-c. The random bytes and the time are arguments. A secret is
  the 32 bytes in \<open>g_jwt_secret_bytes\<close>.
\<close>

section \<open>UUIDs\<close>

unbundle bit_operations_syntax

definition hex_chars :: string where
  "hex_chars = ''0123456789abcdef''"

definition hex_byte :: "8 word \<Rightarrow> string" where
  "hex_byte b = [hex_chars ! unat (drop_bit 4 b), hex_chars ! unat (b AND 0x0f)]"

definition generate_uuidv4 :: "8 word list \<Rightarrow> string" where
  "generate_uuidv4 random =
     (let bytes = random[6 := (random ! 6 AND 0x0f) OR 0x40];
          bytes = bytes[8 := (bytes ! 8 AND 0x3f) OR 0x80]
      in concat (map (\<lambda>i. (if i = 4 \<or> i = 6 \<or> i = 8 \<or> i = 10 then [CHR 0x2D] else []) @ hex_byte (bytes ! i)) [0..<16]))"


section \<open>libsodium\<close>

text \<open>
  \<open>sodium_base642bin\<close> takes the room in the output and fails when the text is not in the URL-safe alphabet without
  padding or does not fit.
\<close>

record sodium =
  sodium_hex2bin :: "cstring \<Rightarrow> nat \<Rightarrow> string option"
  sodium_base642bin :: "string \<Rightarrow> nat \<Rightarrow> string option"
  sodium_bin2base64 :: "string \<Rightarrow> string"
  crypto_auth_hmacsha256 :: "string \<Rightarrow> string \<Rightarrow> string"
  sodium_memcmp :: "string \<Rightarrow> string \<Rightarrow> int"

definition crypto_auth_hmacsha256_BYTES :: nat where
  "crypto_auth_hmacsha256_BYTES = 32"

text \<open>\<open>sodium_base64_ENCODED_LEN\<close> for the variant without padding, terminator included.\<close>

definition sodium_base64_ENCODED_LEN :: "nat \<Rightarrow> nat" where
  "sodium_base64_ENCODED_LEN n = (n * 4 + 2) div 3 + 1"

definition sodium_ok :: "sodium \<Rightarrow> bool" where
  "sodium_ok S \<longleftrightarrow>
     (\<forall>s n. length s \<le> n \<longrightarrow> sodium_base642bin S (sodium_bin2base64 S s) n = Some s) \<and>
     (\<forall>s. CHR 0x2E \<notin> set (sodium_bin2base64 S s) \<and> CHR 0x00 \<notin> set (sodium_bin2base64 S s)) \<and>
     (\<forall>s. length (sodium_bin2base64 S s) < sodium_base64_ENCODED_LEN (length s)) \<and>
     (\<forall>m k. length (crypto_auth_hmacsha256 S m k) = crypto_auth_hmacsha256_BYTES) \<and>
     (\<forall>a b. length a = length b \<longrightarrow> (sodium_memcmp S a b = 0 \<longleftrightarrow> a = b))"


section \<open>Tokens\<close>

text \<open>\<open>jwt_init\<close>: the secret bytes, or \<open>None\<close> when the process exits.\<close>

definition jwt_init :: "sodium \<Rightarrow> cstring \<Rightarrow> string option" where
  "jwt_init S secret_hex =
     (case sodium_hex2bin S secret_hex 32 of
        None \<Rightarrow> None
      | Some bin \<Rightarrow> if length bin \<noteq> 32 then None else Some bin)"

text \<open>The C string in \<open>out\<close> after a successful decoding.\<close>

definition b64_decode_segment :: "sodium \<Rightarrow> string \<Rightarrow> nat \<Rightarrow> cstring option" where
  "b64_decode_segment S seg out_maxlen =
     (if out_maxlen = 0 then None else map_option c_str (sodium_base642bin S seg (out_maxlen - 1)))"

definition jwt_decode_header :: "sodium \<Rightarrow> cstring \<Rightarrow> nat \<Rightarrow> cstring option" where
  "jwt_decode_header S jwt out_maxlen =
     (case strchr jwt (CHR 0x2E) of
        None \<Rightarrow> None
      | Some (seg, _) \<Rightarrow> b64_decode_segment S seg out_maxlen)"

definition jwt_decode_payload :: "sodium \<Rightarrow> cstring \<Rightarrow> nat \<Rightarrow> cstring option" where
  "jwt_decode_payload S jwt out_maxlen =
     (case strchr jwt (CHR 0x2E) of
        None \<Rightarrow> None
      | Some (_, payload_start) \<Rightarrow>
          (case strchr payload_start (CHR 0x2E) of
             None \<Rightarrow> None
           | Some (seg, _) \<Rightarrow> b64_decode_segment S seg out_maxlen))"

definition jwt_get_expiration :: "sodium \<Rightarrow> 'j json_c \<Rightarrow> (cstring \<Rightarrow> 'j option) \<Rightarrow> cstring \<Rightarrow> int" where
  "jwt_get_expiration S J json_tokener_parse jwt =
     (case jwt_decode_payload S jwt 8192 of
        None \<Rightarrow> 0
      | Some payload_json \<Rightarrow>
          (case json_tokener_parse payload_json of
             None \<Rightarrow> 0
           | Some jwt_obj \<Rightarrow>
               (case json_object_object_get_ex J (Some jwt_obj) ''exp'' of
                  None \<Rightarrow> 0
                | Some exp_obj \<Rightarrow> sint (json_object_get_int64 J exp_obj))))"

definition json_member :: "string \<Rightarrow> string \<Rightarrow> string" where
  "json_member name val = [CHR 0x22] @ name @ [CHR 0x22] @ '':'' @ val"

definition json_quote :: "string \<Rightarrow> string" where
  "json_quote s = [CHR 0x22] @ s @ [CHR 0x22]"

text \<open>The text of a payload.\<close>

definition payload_text :: "string \<Rightarrow> string \<Rightarrow> int \<Rightarrow> int \<Rightarrow> string" where
  "payload_text escaped_user session iat expires =
     ''{'' @ json_member ''username'' (json_quote escaped_user) @
     '','' @ json_member ''sessionId'' (json_quote session) @
     '','' @ json_member ''iat'' (dec_int iat) @
     '','' @ json_member ''exp'' (dec_int expires) @ ''}''"

definition jwt_build_payload :: "int \<Rightarrow> cstring \<Rightarrow> cstring \<Rightarrow> int \<Rightarrow> nat \<Rightarrow> cstring option" where
  "jwt_build_payload now user session timeout_seconds payload_max =
     (let escaped_user = the (json_encode_string (Some user) (Some []) 128);
          text = payload_text escaped_user session now (now + timeout_seconds)
      in if length text < payload_max then Some text else None)"

definition jwt_sign_msg :: "sodium \<Rightarrow> cstring \<Rightarrow> string \<Rightarrow> nat \<Rightarrow> cstring option" where
  "jwt_sign_msg S msg secret_bytes out_jwt_size =
     (let mac = crypto_auth_hmacsha256 S msg secret_bytes
      in if sodium_base64_ENCODED_LEN crypto_auth_hmacsha256_BYTES > 128 then None
         else
           (let text = msg @ ''.'' @ sodium_bin2base64 S mac
            in if length text < out_jwt_size then Some text else None))"

definition jwt_header :: cstring where
  "jwt_header = ''{'' @ json_member ''alg'' (json_quote ''HS256'') @ '','' @ json_member ''typ'' (json_quote ''JWT'') @ ''}''"

definition jwt_create ::
  "sodium \<Rightarrow> string \<Rightarrow> int \<Rightarrow> cstring_ptr \<Rightarrow> cstring_ptr \<Rightarrow> int \<Rightarrow> nat \<Rightarrow> cstring option"
where
  "jwt_create S secret now user session timeout_seconds out_jwt_size =
     (case (user, session) of
        (Some u, Some s) \<Rightarrow>
          (if out_jwt_size = 0 then None
           else
             (case jwt_build_payload now u s timeout_seconds 512 of
                None \<Rightarrow> None
              | Some payload \<Rightarrow>
                  (if sodium_base64_ENCODED_LEN (length jwt_header) > 128 \<or>
                      sodium_base64_ENCODED_LEN (length payload) > 512 then None
                   else
                     (let msg = sodium_bin2base64 S jwt_header @ ''.'' @ sodium_bin2base64 S payload
                      in if length msg \<ge> 768 then None else jwt_sign_msg S msg secret out_jwt_size))))
      | _ \<Rightarrow> None)"

definition jwt_check_header_alg :: "sodium \<Rightarrow> cstring \<Rightarrow> bool" where
  "jwt_check_header_alg S token =
     (case jwt_decode_header S token 1024 of
        None \<Rightarrow> False
      | Some header_json \<Rightarrow>
          strstr header_json (json_member ''alg'' (json_quote ''HS256'')) \<or>
          strstr header_json ([CHR 0x22] @ ''alg'' @ [CHR 0x22] @ '': '' @ json_quote ''HS256''))"

definition jwt_verify_mac :: "sodium \<Rightarrow> string \<Rightarrow> string \<Rightarrow> cstring \<Rightarrow> bool" where
  "jwt_verify_mac S secret msg signature =
     (let mac = crypto_auth_hmacsha256 S msg secret
      in case sodium_base642bin S signature crypto_auth_hmacsha256_BYTES of
           None \<Rightarrow> False
         | Some provided_mac \<Rightarrow> length provided_mac = crypto_auth_hmacsha256_BYTES \<and> sodium_memcmp S mac provided_mac = 0)"

definition JWT_OK :: int where "JWT_OK = 0"
definition JWT_ERR_EXPIRED :: int where "JWT_ERR_EXPIRED = 1"
definition JWT_ERR_INVALID :: int where "JWT_ERR_INVALID = 2"

text \<open>
  One string claim: an output buffer is its content and its size, \<open>None\<close> for a null pointer. The result is
  \<open>None\<close> when the claim is rejected.
\<close>

definition copy_claim :: "'j json_c \<Rightarrow> 'j \<Rightarrow> cstring \<Rightarrow> (cstring \<times> nat) option \<Rightarrow> (cstring \<times> nat) option option" where
  "copy_claim J jwt_obj name out =
     (case out of
        None \<Rightarrow> Some None
      | Some (_, n) \<Rightarrow>
          (case json_object_object_get_ex J (Some jwt_obj) name of
             None \<Rightarrow> None
           | Some v \<Rightarrow>
               (case json_object_get_string J v of
                  None \<Rightarrow> None
                | Some t \<Rightarrow> if length t \<ge> n then None else Some (Some (strlcpy t n, n)))))"

definition jwt_parse_payload ::
  "'j json_c \<Rightarrow> (cstring \<Rightarrow> 'j option) \<Rightarrow> int \<Rightarrow> cstring \<Rightarrow> (cstring \<times> nat) option \<Rightarrow> (cstring \<times> nat) option \<Rightarrow>
     int \<times> (cstring \<times> nat) option \<times> (cstring \<times> nat) option"
where
  "jwt_parse_payload J json_tokener_parse now payload_json out_username out_session_id =
     (case json_tokener_parse payload_json of
        None \<Rightarrow> (JWT_ERR_INVALID, out_username, out_session_id)
      | Some jwt_obj \<Rightarrow>
          (case json_object_object_get_ex J (Some jwt_obj) ''exp'' of
             None \<Rightarrow> (JWT_ERR_INVALID, out_username, out_session_id)
           | Some exp_obj \<Rightarrow>
               (if now > sint (json_object_get_int64 J exp_obj) then (JWT_ERR_EXPIRED, out_username, out_session_id)
                else
                  (case copy_claim J jwt_obj ''username'' out_username of
                     None \<Rightarrow> (JWT_ERR_INVALID, out_username, out_session_id)
                   | Some out1 \<Rightarrow>
                       (case copy_claim J jwt_obj ''sessionId'' out_session_id of
                          None \<Rightarrow> (JWT_ERR_INVALID, out1, out_session_id)
                        | Some out2 \<Rightarrow> (JWT_OK, out1, out2))))))"

definition jwt_verify ::
  "sodium \<Rightarrow> 'j json_c \<Rightarrow> (cstring \<Rightarrow> 'j option) \<Rightarrow> string \<Rightarrow> int \<Rightarrow> cstring_ptr \<Rightarrow> (cstring \<times> nat) option \<Rightarrow>
     (cstring \<times> nat) option \<Rightarrow> int \<times> (cstring \<times> nat) option \<times> (cstring \<times> nat) option"
where
  "jwt_verify S J json_tokener_parse secret now token out_username out_session_id =
     (let invalid = (JWT_ERR_INVALID, out_username, out_session_id)
      in case token of
           None \<Rightarrow> invalid
         | Some t \<Rightarrow>
             (case strchr t (CHR 0x2E) of
                None \<Rightarrow> invalid
              | Some (h, r1) \<Rightarrow>
                  (case strchr r1 (CHR 0x2E) of
                     None \<Rightarrow> invalid
                   | Some (p, sig) \<Rightarrow>
                       (if strchr sig (CHR 0x2E) \<noteq> None then invalid
                        else if \<not> jwt_check_header_alg S t then invalid
                        else if \<not> jwt_verify_mac S secret (h @ ''.'' @ p) sig then invalid
                        else
                          (case jwt_decode_payload S t 8192 of
                             None \<Rightarrow> invalid
                           | Some payload_json \<Rightarrow>
                               jwt_parse_payload J json_tokener_parse now payload_json out_username out_session_id)))))"


section \<open>UUIDs\<close>

definition is_hex :: "char \<Rightarrow> bool" where
  "is_hex c \<longleftrightarrow> c \<in> set hex_chars"

lemma length_hex_chars [simp]: "length hex_chars = 16"
  by (simp add: hex_chars_def)

lemma unat_byte: "unat (b :: 8 word) < 256"
  using unsigned_less [of b] by simp

lemma nibble_high: "unat (drop_bit 4 (b :: 8 word)) < 16"
proof -
  have "unat (drop_bit 4 b) = unat b div 16"
    by (simp add: drop_bit_eq_div unat_div_distrib)
  then show ?thesis
    using unat_byte [of b] by linarith
qed

lemma nibble_low: "unat ((b :: 8 word) AND 0x0f) < 16"
  using word_and_le1 [of b "0x0f"] by (simp add: word_le_nat_alt)

lemma hex_nibbles: "is_hex (hex_chars ! unat (drop_bit 4 (b :: 8 word)))" "is_hex (hex_chars ! unat ((b :: 8 word) AND 0x0f))"
  using nibble_high [of b] nibble_low [of b] by (auto simp: is_hex_def)

definition high :: "8 word \<Rightarrow> char" where
  "high b = hex_chars ! unat (drop_bit 4 b)"

definition low :: "8 word \<Rightarrow> char" where
  "low b = hex_chars ! unat (b AND 0x0f)"

lemma is_hex_high_low [simp]: "is_hex (high b)" "is_hex (low b)"
  by (simp_all add: high_def low_def hex_nibbles)

lemma hex_byte_high_low: "hex_byte b = [high b, low b]"
  by (simp add: hex_byte_def high_def low_def)

lemma version_nibble: "high ((b AND 0x0f) OR 0x40) = CHR ''4''"
proof -
  have "drop_bit 4 ((b AND 0x0f) OR 0x40 :: 8 word) = 4"
    by (simp add: drop_bit_or drop_bit_and)
  then show ?thesis
    by (simp add: high_def hex_chars_def)
qed

lemma variant_nibble: "high ((b AND 0x3f) OR 0x80) \<in> set ''89ab''"
proof -
  let ?x = "unat (drop_bit 4 b AND (3 :: 8 word))"
  have d: "drop_bit 4 ((b AND 0x3f) OR 0x80 :: 8 word) = word_of_nat ?x OR 8"
    by (simp add: drop_bit_or drop_bit_and)
  have "?x \<le> 3"
    using word_and_le1 [of "drop_bit 4 b" "3"] by (simp add: word_le_nat_alt)
  then have "?x = 0 \<or> ?x = 1 \<or> ?x = 2 \<or> ?x = 3"
    by linarith
  then show ?thesis
    unfolding high_def d by (elim disjE) (simp_all add: hex_chars_def)
qed

lemma length_16:
  assumes "length xs = 16"
  obtains a b c d e f g h i j k l m n p q where "xs = [a, b, c, d, e, f, g, h, i, j, k, l, m, n, p, q]"
  using assms by (auto simp: numeral_eq_Suc length_Suc_conv)

lemma uuid_chars:
  "generate_uuidv4 [a, b, c, d, e, f, g, h, i, j, k, l, m, n, p, q] =
     (let g' = (g AND 0x0f) OR 0x40; i' = (i AND 0x3f) OR 0x80
      in [high a, low a, high b, low b, high c, low c, high d, low d, CHR 0x2D,
          high e, low e, high f, low f, CHR 0x2D, high g', low g', high h, low h, CHR 0x2D,
          high i', low i', high j, low j, CHR 0x2D,
          high k, low k, high l, low l, high m, low m, high n, low n, high p, low p, high q, low q])"
proof -
  have u: "[0..<16] = [0, 1, 2, 3, 4, 5, 6, 7, 8, 9, 10, 11, 12, 13, 14, 15 :: nat]"
    by (simp add: upt_rec)
  show ?thesis
    by (simp add: generate_uuidv4_def u hex_byte_high_low Let_def)
qed

text \<open>\<open>generate_uuidv4\<close> writes a version 4 UUID for any 16 random bytes: 36 characters, hyphens at 8, 13, 18 and 23,
  lower-case hexadecimal digits elsewhere, the version digit 4 and a variant digit in 8, 9, a, b; so the result and its
  terminator fill the 37 bytes of \<open>out\<close> exactly.\<close>

theorem uuidv4_format:
  assumes "length random = 16"
  shows "length (generate_uuidv4 random) = 36 \<and>
    (\<forall>i < 36. if i \<in> {8, 13, 18, 23} then generate_uuidv4 random ! i = CHR 0x2D else is_hex (generate_uuidv4 random ! i)) \<and>
    generate_uuidv4 random ! 14 = CHR ''4'' \<and> generate_uuidv4 random ! 19 \<in> set ''89ab''"
proof -
  obtain a b c d e f g h i j k l m n p q where r: "random = [a, b, c, d, e, f, g, h, i, j, k, l, m, n, p, q]"
    using length_16 [OF assms] by blast
  have upto: "[0..<36] = [0 :: nat, 1, 2, 3, 4, 5, 6, 7, 8, 9, 10, 11, 12, 13, 14, 15, 16, 17, 18, 19, 20, 21, 22, 23,
      24, 25, 26, 27, 28, 29, 30, 31, 32, 33, 34, 35]"
    by (simp add: upt_rec)
  have all: "(\<forall>i < 36. P i) \<longleftrightarrow> (\<forall>i \<in> set [0..<36]. P i)" for P :: "nat \<Rightarrow> bool"
    by auto
  show ?thesis
    unfolding r uuid_chars Let_def all upto using variant_nibble [of i]
    by (simp add: version_nibble is_hex_def [of "CHR ''4''"] hex_chars_def)
qed

theorem uuidv4_format_witness:
  "length (generate_uuidv4 (replicate 16 255)) = 36 \<and> generate_uuidv4 (replicate 16 255) ! 14 = CHR ''4''"
  using uuidv4_format [of "replicate 16 255"] by simp


section \<open>A reference library\<close>

text \<open>Base64 with the URL-safe alphabet and no padding, as \<open>sodium_ok\<close> describes it, on byte values.\<close>

definition b64_alphabet :: string where
  "b64_alphabet = ''ABCDEFGHIJKLMNOPQRSTUVWXYZabcdefghijklmnopqrstuvwxyz0123456789-_''"

definition b64c :: "nat \<Rightarrow> char" where
  "b64c n = b64_alphabet ! (n mod 64)"

definition b64v :: "char \<Rightarrow> nat" where
  "b64v c = length (takeWhile (\<lambda>d. d \<noteq> c) b64_alphabet)"

fun ref_b64_enc :: "nat list \<Rightarrow> string" where
  "ref_b64_enc [] = []"
| "ref_b64_enc [a] = [b64c (a div 4), b64c (a mod 4 * 16)]"
| "ref_b64_enc [a, b] = [b64c (a div 4), b64c (a mod 4 * 16 + b div 16), b64c (b mod 16 * 4)]"
| "ref_b64_enc (a # b # c # r) =
     b64c (a div 4) # b64c (a mod 4 * 16 + b div 16) # b64c (b mod 16 * 4 + c div 64) # b64c (c mod 64) # ref_b64_enc r"

fun ref_b64_dec :: "string \<Rightarrow> nat list" where
  "ref_b64_dec (p # q # r # t # s) =
     (b64v p * 4 + b64v q div 16) # (b64v q mod 16 * 16 + b64v r div 4) # (b64v r mod 4 * 64 + b64v t) # ref_b64_dec s"
| "ref_b64_dec [p, q, r] = [b64v p * 4 + b64v q div 16, b64v q mod 16 * 16 + b64v r div 4]"
| "ref_b64_dec [p, q] = [b64v p * 4 + b64v q div 16]"
| "ref_b64_dec _ = []"

lemma b64v_b64c: "n < 64 \<Longrightarrow> b64v (b64c n) = n"
proof -
  have "\<forall>n \<in> set [0..<64]. b64v (b64c n) = n"
    by code_simp
  then show "n < 64 \<Longrightarrow> b64v (b64c n) = n" by simp
qed

lemma b64c_alphabet: "b64c n \<in> set b64_alphabet"
  unfolding b64c_def by (rule nth_mem) (simp add: b64_alphabet_def)

lemma b64_digits:
  assumes "(a :: nat) < 256" "b < 256" "c < 256"
  shows "a div 4 < 64" "a mod 4 * 16 + b div 16 < 64" "b mod 16 * 4 + c div 64 < 64" "a mod 4 * 16 < 64" "b mod 16 * 4 < 64"
    "(a mod 4 * 16 + b div 16) div 16 = a mod 4" "(a mod 4 * 16 + b div 16) mod 16 = b div 16"
    "(b mod 16 * 4 + c div 64) div 4 = b mod 16" "(b mod 16 * 4 + c div 64) mod 4 = c div 64"
    "b div 16 mod 16 = b div 16"
proof -
  have "a mod 4 < 4" "b div 16 < 16" "b mod 16 < 16" "c div 64 < 4"
    using assms by (auto simp: less_mult_imp_div_less)
  then show "a div 4 < 64" "a mod 4 * 16 + b div 16 < 64" "b mod 16 * 4 + c div 64 < 64" "a mod 4 * 16 < 64" "b mod 16 * 4 < 64"
    "(a mod 4 * 16 + b div 16) div 16 = a mod 4" "(a mod 4 * 16 + b div 16) mod 16 = b div 16"
    "(b mod 16 * 4 + c div 64) div 4 = b mod 16" "(b mod 16 * 4 + c div 64) mod 4 = c div 64"
    "b div 16 mod 16 = b div 16"
    using assms by (auto simp: less_mult_imp_div_less)
qed

lemma ref_b64_roundtrip: "\<forall>x \<in> set xs. x < 256 \<Longrightarrow> ref_b64_dec (ref_b64_enc xs) = xs"
proof (induction xs rule: ref_b64_enc.induct)
  case (2 a)
  then show ?case using b64_digits [of a 0 0] by (simp add: b64v_b64c mult.commute)
next
  case (3 a b)
  then show ?case using b64_digits [of a b 0] by (simp add: b64v_b64c)
next
  case (4 a b c r)
  then show ?case using b64_digits [of a b c] by (simp add: b64v_b64c)
qed simp

lemma ref_b64_chars: "set (ref_b64_enc xs) \<subseteq> set b64_alphabet"
  by (induction xs rule: ref_b64_enc.induct) (auto simp: b64c_alphabet)

lemma ref_b64_length: "length (ref_b64_enc xs) = (length xs * 4 + 2) div 3"
  by (induction xs rule: ref_b64_enc.induct) auto

definition bytes :: "string \<Rightarrow> nat list" where
  "bytes s = map of_char s"

definition unbytes :: "nat list \<Rightarrow> string" where
  "unbytes ns = map char_of ns"

lemma unbytes_bytes [simp]: "unbytes (bytes s) = s"
  by (simp add: unbytes_def bytes_def comp_def map_idI)

text \<open>The keyed hash is not cryptographic; the development uses nothing of it but its length.\<close>

definition ref_sodium :: sodium where
  "ref_sodium = \<lparr>
     sodium_hex2bin = (\<lambda>s n. None),
     sodium_base642bin = (\<lambda>s n. let r = unbytes (ref_b64_dec s)
       in if set s \<subseteq> set b64_alphabet \<and> length r \<le> n then Some r else None),
     sodium_bin2base64 = (\<lambda>s. ref_b64_enc (bytes s)),
     crypto_auth_hmacsha256 = (\<lambda>m k. take 32 (k @ m @ replicate 32 (CHR ''0''))),
     sodium_memcmp = (\<lambda>a b. if a = b then 0 else - 1)\<rparr>"

lemma length_bytes [simp]: "length (bytes s) = length s"
  by (simp add: bytes_def)

lemma ref_sodium_ok: "sodium_ok ref_sodium"
proof -
  have bytes: "\<forall>x \<in> set (bytes s). x < 256" for s
    by (auto simp: bytes_def)
  have "CHR 0x2E \<notin> set b64_alphabet" "CHR 0x00 \<notin> set b64_alphabet"
    by (simp_all add: b64_alphabet_def)
  then have "CHR 0x2E \<notin> set (ref_b64_enc (bytes s)) \<and> CHR 0x00 \<notin> set (ref_b64_enc (bytes s))" for s
    using ref_b64_chars [of "bytes s"] by blast
  moreover have "length (take 32 (k @ m @ replicate 32 (CHR ''0''))) = 32" for k m :: string
    by (simp only: length_take length_append length_replicate)
  ultimately show ?thesis
    by (simp del: length_take add: sodium_ok_def ref_sodium_def ref_b64_roundtrip [OF bytes] ref_b64_length ref_b64_chars
      sodium_base64_ENCODED_LEN_def crypto_auth_hmacsha256_BYTES_def Let_def)
qed


section \<open>Verification\<close>

lemma copy_claim_Some:
  "copy_claim J obj name (Some (x, n)) = Some r \<longleftrightarrow>
     (\<exists>v t. json_object_object_get_ex J (Some obj) name = Some v \<and> json_object_get_string J v = Some t \<and> length t < n \<and>
        r = Some (t, n))"
  by (auto simp: copy_claim_def strlcpy_fits not_le split: option.splits)

lemma jwt_parse_payload_ok:
  "jwt_parse_payload J parse now payload (Some (x, n)) (Some (y, m)) = (JWT_OK, uo, so) \<longleftrightarrow>
     (\<exists>obj e. parse payload = Some obj \<and> json_object_object_get_ex J (Some obj) ''exp'' = Some e \<and>
        now \<le> sint (json_object_get_int64 J e) \<and>
        copy_claim J obj ''username'' (Some (x, n)) = Some uo \<and> copy_claim J obj ''sessionId'' (Some (y, m)) = Some so)"
  by (simp add: jwt_parse_payload_def JWT_OK_def JWT_ERR_INVALID_def JWT_ERR_EXPIRED_def not_less split: option.splits)

text \<open>A token of three segments.\<close>

lemma jwt_verify_segments:
  assumes "CHR 0x2E \<notin> set h" "CHR 0x2E \<notin> set p" "CHR 0x2E \<notin> set sig"
  shows "jwt_verify S J parse secret now (Some (h @ ''.'' @ p @ ''.'' @ sig)) uo so =
    (if \<not> jwt_check_header_alg S (h @ ''.'' @ p @ ''.'' @ sig) \<or> \<not> jwt_verify_mac S secret (h @ ''.'' @ p) sig
     then (JWT_ERR_INVALID, uo, so)
     else
       (case b64_decode_segment S p 8192 of
          None \<Rightarrow> (JWT_ERR_INVALID, uo, so)
        | Some payload \<Rightarrow> jwt_parse_payload J parse now payload uo so))"
  using assms by (simp add: jwt_verify_def jwt_decode_payload_def Let_def)

lemma jwt_verify_split:
  assumes "jwt_verify S J parse secret now (Some t) uo so = (JWT_OK, uo', so')"
  obtains h p sig where "t = h @ ''.'' @ p @ ''.'' @ sig" "CHR 0x2E \<notin> set h" "CHR 0x2E \<notin> set p" "CHR 0x2E \<notin> set sig"
proof -
  have inv: "JWT_ERR_INVALID \<noteq> JWT_OK"
    by (simp add: JWT_ERR_INVALID_def JWT_OK_def)
  obtain h r where 1: "strchr t (CHR 0x2E) = Some (h, r)"
    using assms inv by (cases "strchr t (CHR 0x2E)") (auto simp: jwt_verify_def Let_def)
  obtain p sig where 2: "strchr r (CHR 0x2E) = Some (p, sig)"
    using assms inv 1 by (cases "strchr r (CHR 0x2E)") (auto simp: jwt_verify_def Let_def)
  have 3: "CHR 0x2E \<notin> set sig"
    using assms inv 1 2 by (auto simp: jwt_verify_def Let_def split: if_splits)
  show thesis
    using strchr_Some [OF 1] strchr_Some [OF 2] 3 by (intro that [of h p sig]) auto
qed

lemma length_dec_int: "\<bar>z\<bar> < 2 ^ 63 \<Longrightarrow> length (dec_int z) \<le> 20"
  using length_dec_le [of "nat \<bar>z\<bar>" 19] by (auto simp: dec_int_def abs_if nat_less_iff split: if_splits)


text \<open>What a JSON parser makes of the payload of a token for user \<open>u\<close> and session \<open>s\<close>.\<close>

definition payload_parsed :: "'j json_c \<Rightarrow> (cstring \<Rightarrow> 'j option) \<Rightarrow> cstring \<Rightarrow> cstring \<Rightarrow> int \<Rightarrow> int \<Rightarrow> bool" where
  "payload_parsed J parse u s iat expires \<longleftrightarrow>
     (\<exists>obj vu vs ve. parse (payload_text (concat (map encode_char u)) s iat expires) = Some obj \<and>
        json_object_object_get_ex J (Some obj) ''username'' = Some vu \<and> json_object_get_string J vu = Some u \<and>
        json_object_object_get_ex J (Some obj) ''sessionId'' = Some vs \<and> json_object_get_string J vs = Some s \<and>
        json_object_object_get_ex J (Some obj) ''exp'' = Some ve \<and> sint (json_object_get_int64 J ve) = expires)"

lemma encode_char_no_nul: "CHR 0x00 \<notin> set (encode_char c)"
proof (cases "(of_char c :: nat) < 32 \<and> c \<notin> short_escaped")
  case True
  then have "(of_char c :: nat) div 16 < 16" "(of_char c :: nat) mod 16 < 16"
    by auto
  moreover have "length hex = 16"
    by (simp add: hex_def)
  ultimately have "hex ! (of_char c div 16) \<in> set hex" "hex ! (of_char c mod 16) \<in> set hex"
    by (simp_all only: nth_mem)
  moreover have "CHR 0x00 \<notin> set hex"
    by (simp add: hex_def)
  ultimately show ?thesis
    using True by (simp add: encode_char_control) metis
next
  case False
  then show ?thesis
    by (auto simp: encode_char_def short_escaped_def)
qed

lemma payload_no_nul:
  assumes "CHR 0x00 \<notin> set s"
  shows "CHR 0x00 \<notin> set (payload_text (concat (map encode_char u)) s a b)"
proof -
  have "\<not> isdigit (CHR 0x00)"
    by (simp add: isdigit_def)
  then have "CHR 0x00 \<notin> set (dec_int z)" for z
    using dec_all_digits by (auto simp: dec_int_def)
  then show ?thesis
    using assms encode_char_no_nul by (auto simp: payload_text_def json_member_def json_quote_def)
qed

text \<open>
  The buffer of 128 bytes for the escaped user name takes a further character while at most 120 bytes are used, so names
  whose escaped form without the last character has at most 120 bytes are complete.
\<close>

definition user_fits :: "string \<Rightarrow> bool" where
  "user_fits u \<longleftrightarrow> length (concat (map encode_char (butlast u))) \<le> 120"

lemma encode_loop_fits:
  "length dest + length (concat (map encode_char (butlast s))) + 7 < n \<Longrightarrow> encode_loop s dest n = dest @ concat (map encode_char s)"
proof (induction s arbitrary: dest)
  case (Cons c cs)
  then show ?case
    using Cons.IH [of "dest @ encode_char c"] by (cases cs) auto
qed simp

lemma user_fits_short: "length u \<le> 21 \<Longrightarrow> user_fits u"
  using enc.length_concat_enc [of "butlast u"] unfolding user_fits_def by simp

lemma user_fits_length:
  assumes "user_fits u"
  shows "length (concat (map encode_char u)) \<le> 126"
proof (cases u rule: rev_cases)
  case (snoc us c)
  then show ?thesis
    using assms length_encode_char [of c] unfolding user_fits_def by simp
qed simp

lemma payload_length:
  assumes "user_fits u" "length s \<le> 36" "\<bar>a\<bar> < 2 ^ 63" "\<bar>b\<bar> < 2 ^ 63"
  shows "length (payload_text (concat (map encode_char u)) s a b) \<le> 250"
proof -
  have "length (payload_text (concat (map encode_char u)) s a b) =
      length (concat (map encode_char u)) + length s + length (dec_int a) + length (dec_int b) + 44"
    by (simp add: payload_text_def json_member_def json_quote_def del: length_concat)
  then show ?thesis
    using user_fits_length [OF assms(1)] length_dec_int [OF assms(3)] length_dec_int [OF assms(4)] assms(2) by linarith
qed

lemma jwt_header_facts:
  "length jwt_header = 27" "c_str jwt_header = jwt_header"
  "strstr jwt_header (json_member ''alg'' (json_quote ''HS256''))"
  by code_simp+

text \<open>The token that \<open>jwt_create\<close> builds.\<close>

lemma jwt_create_token:
  assumes S: "sodium_ok S" and lens: "user_fits u" "length s \<le> 36" "512 \<le> cap"
    and range: "\<bar>now\<bar> < 2 ^ 63" "\<bar>now + timeout\<bar> < 2 ^ 63"
    and payload: "payload = payload_text (concat (map encode_char u)) s now (now + timeout)"
    and msg: "msg = sodium_bin2base64 S jwt_header @ ''.'' @ sodium_bin2base64 S payload"
  shows "jwt_create S secret now (Some u) (Some s) timeout cap =
    Some (msg @ ''.'' @ sodium_bin2base64 S (crypto_auth_hmacsha256 S msg secret))"
proof -
  have enc: "the (json_encode_string (Some u) (Some []) 128) = concat (map encode_char u)"
    using encode_loop_fits [of "[]" u 128] lens(1) by (simp add: json_encode_string_def user_fits_def)
  have pl: "length payload \<le> 250"
    unfolding payload using payload_length [OF lens(1,2) range] .
  have b: "length (sodium_bin2base64 S x) \<le> (length x * 4 + 2) div 3" for x
    using S by (simp add: sodium_ok_def sodium_base64_ENCODED_LEN_def less_Suc_eq_le)
  have "length (sodium_bin2base64 S payload) \<le> 334"
    using b [of payload] pl by linarith
  moreover have "length (sodium_bin2base64 S jwt_header) \<le> 36"
    using b [of jwt_header] by (simp add: jwt_header_facts)
  moreover have "length (sodium_bin2base64 S (crypto_auth_hmacsha256 S msg secret)) \<le> 43"
    using b [of "crypto_auth_hmacsha256 S msg secret"] S by (simp add: sodium_ok_def crypto_auth_hmacsha256_BYTES_def)
  ultimately have "length msg < 768" "length (msg @ ''.'' @ sodium_bin2base64 S (crypto_auth_hmacsha256 S msg secret)) < cap"
    using lens(3) by (simp_all add: msg)
  then have "jwt_sign_msg S msg secret cap = Some (msg @ ''.'' @ sodium_bin2base64 S (crypto_auth_hmacsha256 S msg secret))"
    by (simp add: jwt_sign_msg_def sodium_base64_ENCODED_LEN_def crypto_auth_hmacsha256_BYTES_def Let_def)
  moreover have "jwt_build_payload now u s timeout 512 = Some payload"
    using pl by (simp add: jwt_build_payload_def enc payload Let_def)
  moreover have "sodium_base64_ENCODED_LEN (length jwt_header) \<le> 128" "sodium_base64_ENCODED_LEN (length payload) \<le> 512"
    using pl by (auto simp: sodium_base64_ENCODED_LEN_def jwt_header_facts)
  ultimately show ?thesis
    using \<open>length msg < 768\<close> lens(3) by (simp add: jwt_create_def msg)
qed

text \<open>Verification of a token built from a header, a payload and its keyed hash.\<close>

lemma jwt_verify_token:
  assumes S: "sodium_ok S" and pl: "length payload \<le> 8191" "CHR 0x00 \<notin> set payload"
    and msg: "msg = sodium_bin2base64 S jwt_header @ ''.'' @ sodium_bin2base64 S payload"
  shows "jwt_verify S J parse secret now (Some (msg @ ''.'' @ sodium_bin2base64 S (crypto_auth_hmacsha256 S msg secret))) uo so =
    jwt_parse_payload J parse now payload uo so"
proof -
  have dec: "sodium_base642bin S (sodium_bin2base64 S x) n = Some x" if "length x \<le> n" for x n
    using S that by (simp add: sodium_ok_def)
  have dot: "CHR 0x2E \<notin> set (sodium_bin2base64 S x)" for x
    using S by (simp add: sodium_ok_def)
  have len: "length (crypto_auth_hmacsha256 S m k) = crypto_auth_hmacsha256_BYTES" for m k
    using S by (simp add: sodium_ok_def)
  let ?sig = "sodium_bin2base64 S (crypto_auth_hmacsha256 S msg secret)"
  have t: "msg @ ''.'' @ ?sig = sodium_bin2base64 S jwt_header @ ''.'' @ sodium_bin2base64 S payload @ ''.'' @ ?sig"
    by (simp add: msg)
  have "sodium_memcmp S x x = 0" for x
    using S by (simp add: sodium_ok_def)
  then have "jwt_verify_mac S secret msg ?sig"
    by (simp add: jwt_verify_mac_def dec len)
  moreover have "jwt_check_header_alg S (msg @ ''.'' @ ?sig)"
    unfolding t using dot
    by (simp add: jwt_check_header_alg_def jwt_decode_header_def b64_decode_segment_def dec jwt_header_facts)
  moreover have "b64_decode_segment S (sodium_bin2base64 S payload) 8192 = Some payload"
    using pl by (simp add: b64_decode_segment_def dec c_str_id)
  ultimately show ?thesis
    unfolding t by (subst jwt_verify_segments) (use dot in \<open>simp_all add: msg\<close>)
qed

lemma jwt_parse_created:
  assumes "payload_parsed J parse u s iat expires" "length s < m"
  shows "jwt_parse_payload J parse now (payload_text (concat (map encode_char u)) s iat expires) (Some (x, n)) (Some (y, m)) =
    (if expires < now then (JWT_ERR_EXPIRED, Some (x, n), Some (y, m))
     else if length u < n then (JWT_OK, Some (u, n), Some (s, m))
     else (JWT_ERR_INVALID, Some (x, n), Some (y, m)))"
  using assms by (auto simp: payload_parsed_def jwt_parse_payload_def copy_claim_def strlcpy_fits)

lemma jwt_created_verifies:
  assumes "sodium_ok S" "payload_parsed J parse u s now (now + timeout)" "user_fits u" "length s \<le> 36" "CHR 0x00 \<notin> set s"
    "512 \<le> cap" "\<bar>now\<bar> < 2 ^ 63" "\<bar>now + timeout\<bar> < 2 ^ 63"
  shows "\<exists>token. jwt_create S secret now (Some u) (Some s) timeout cap = Some token \<and>
    jwt_verify S J parse secret later (Some token) (Some ([], 33)) (Some ([], 37)) =
      (if now + timeout < later then (JWT_ERR_EXPIRED, Some ([], 33), Some ([], 37))
       else if length u \<le> 32 then (JWT_OK, Some (u, 33), Some (s, 37))
       else (JWT_ERR_INVALID, Some ([], 33), Some ([], 37)))"
proof -
  define payload where "payload = payload_text (concat (map encode_char u)) s now (now + timeout)"
  define msg where "msg = sodium_bin2base64 S jwt_header @ ''.'' @ sodium_bin2base64 S payload"
  have "length payload \<le> 8191" "CHR 0x00 \<notin> set payload"
    using payload_length [of u s now "now + timeout"] payload_no_nul [of s u now "now + timeout"] assms
    by (auto simp: payload_def)
  note v = jwt_verify_token [OF assms(1) this msg_def]
    and c = jwt_create_token [OF assms(1,3,4,6,7,8) payload_def msg_def]
  show ?thesis
    using c v [of J parse secret later "Some ([], 33)" "Some ([], 37)"]
      jwt_parse_created [OF assms(2), of 37 later "[]" 33 "[]"] assms(4) by (simp add: payload_def)
qed


section \<open>Properties of tokens\<close>

lemma jwt_verify_accepts:
  assumes "sodium_ok S" "jwt_verify S J parse secret now (Some t) (Some (x, n)) (Some (y, m)) = (JWT_OK, uo, so)"
  shows "\<exists>h p sig payload obj ve vu u vs s.
    t = h @ ''.'' @ p @ ''.'' @ sig \<and> CHR 0x2E \<notin> set h \<union> set p \<union> set sig \<and>
    sodium_base642bin S sig 32 = Some (crypto_auth_hmacsha256 S (h @ ''.'' @ p) secret) \<and>
    length (crypto_auth_hmacsha256 S (h @ ''.'' @ p) secret) = 32 \<and>
    jwt_check_header_alg S t \<and>
    sodium_base642bin S p 8191 = Some payload \<and> parse (c_str payload) = Some obj \<and>
    json_object_object_get_ex J (Some obj) ''exp'' = Some ve \<and> now \<le> sint (json_object_get_int64 J ve) \<and>
    json_object_object_get_ex J (Some obj) ''username'' = Some vu \<and> json_object_get_string J vu = Some u \<and>
    json_object_object_get_ex J (Some obj) ''sessionId'' = Some vs \<and> json_object_get_string J vs = Some s \<and>
    uo = Some (u, n) \<and> length u < n \<and> so = Some (s, m) \<and> length s < m"
proof -
  obtain h p sig where t: "t = h @ ''.'' @ p @ ''.'' @ sig" and dots: "CHR 0x2E \<notin> set h" "CHR 0x2E \<notin> set p" "CHR 0x2E \<notin> set sig"
    using jwt_verify_split [OF assms(2)] by metis
  have no: "JWT_ERR_INVALID \<noteq> JWT_OK"
    by (simp add: JWT_ERR_INVALID_def JWT_OK_def)
  note v = assms(2) [unfolded t jwt_verify_segments [OF dots]]
  then have checks: "jwt_check_header_alg S t" "jwt_verify_mac S secret (h @ ''.'' @ p) sig"
    using no by (auto simp: t split: if_splits)
  with v obtain pl where pl: "b64_decode_segment S p 8192 = Some pl"
    "jwt_parse_payload J parse now pl (Some (x, n)) (Some (y, m)) = (JWT_OK, uo, so)"
    using no by (auto simp: t split: option.splits if_splits)
  obtain payload where payload: "sodium_base642bin S p 8191 = Some payload" "pl = c_str payload"
    using pl(1) by (auto simp: b64_decode_segment_def)
  obtain obj ve where obj: "parse pl = Some obj" "json_object_object_get_ex J (Some obj) ''exp'' = Some ve"
    "now \<le> sint (json_object_get_int64 J ve)" "copy_claim J obj ''username'' (Some (x, n)) = Some uo"
    "copy_claim J obj ''sessionId'' (Some (y, m)) = Some so"
    using pl(2) unfolding jwt_parse_payload_ok by (elim exE conjE) (rule that)
  have mac: "sodium_base642bin S sig 32 = Some (crypto_auth_hmacsha256 S (h @ ''.'' @ p) secret)"
    "length (crypto_auth_hmacsha256 S (h @ ''.'' @ p) secret) = 32"
    using checks(2) assms(1)
    by (auto simp: jwt_verify_mac_def sodium_ok_def crypto_auth_hmacsha256_BYTES_def Let_def split: option.splits)
  obtain vu u where u: "json_object_object_get_ex J (Some obj) ''username'' = Some vu" "json_object_get_string J vu = Some u"
    "length u < n" "uo = Some (u, n)"
    using obj(4) unfolding copy_claim_Some by blast
  obtain vs s where s: "json_object_object_get_ex J (Some obj) ''sessionId'' = Some vs" "json_object_get_string J vs = Some s"
    "length s < m" "so = Some (s, m)"
    using obj(5) unfolding copy_claim_Some by blast
  show ?thesis
    by (intro exI conjI) (use t dots mac checks(1) payload obj u s in simp_all)
qed

text \<open>C5: a token is accepted only if it is authentic and current: it consists of three segments without further dots,
  the third decodes to the 32-byte HMAC, under the server's secret, of exactly the text before the second dot, the
  decoded header contains the text of an \<open>alg\<close> member with value HS256 (a search for this text, with or without a blank, not
  a parse), the payload is a JSON value whose \<open>exp\<close> has not passed, and the user and session handed out are
  its claims, complete and within their buffers.\<close>

theorem jwt_verify_sound:
  assumes "sodium_ok S" "jwt_verify S J parse secret now (Some t) (Some (x, n)) (Some (y, m)) = (JWT_OK, uo, so)"
  shows "\<exists>h p sig payload obj ve vu u vs s.
    t = h @ ''.'' @ p @ ''.'' @ sig \<and> CHR 0x2E \<notin> set h \<union> set p \<union> set sig \<and>
    sodium_base642bin S sig 32 = Some (crypto_auth_hmacsha256 S (h @ ''.'' @ p) secret) \<and>
    length (crypto_auth_hmacsha256 S (h @ ''.'' @ p) secret) = 32 \<and>
    jwt_check_header_alg S t \<and>
    sodium_base642bin S p 8191 = Some payload \<and> parse (c_str payload) = Some obj \<and>
    json_object_object_get_ex J (Some obj) ''exp'' = Some ve \<and> now \<le> sint (json_object_get_int64 J ve) \<and>
    json_object_object_get_ex J (Some obj) ''username'' = Some vu \<and> json_object_get_string J vu = Some u \<and>
    json_object_object_get_ex J (Some obj) ''sessionId'' = Some vs \<and> json_object_get_string J vs = Some s \<and>
    uo = Some (u, n) \<and> length u < n \<and> so = Some (s, m) \<and> length s < m"
  using assms by (rule jwt_verify_accepts)

text \<open>The library and the parser of a sample run.\<close>

definition sample_parse :: "cstring \<Rightarrow> jvalue option" where
  "sample_parse text =
     (if text = payload_text ''ana'' ''s1'' 1000 1060
      then Some (JObject [(''username'', Some (JString ''ana'')), (''sessionId'', Some (JString ''s1'')),
        (''iat'', Some (JInt 1000)), (''exp'', Some (JInt 1060))])
      else None)"

lemma sample_parsed: "payload_parsed ref_json sample_parse ''ana'' ''s1'' 1000 1060"
proof -
  have e: "concat (map encode_char ''ana'') = ''ana''"
    by code_simp
  have i: "ref_int 64 (Some (JInt 1060)) = 1060"
    by (simp add: ref_int_def)
  show ?thesis
    unfolding payload_parsed_def e sample_parse_def ref_json_def using i
    by (simp add: c_str_def)
qed

theorem jwt_verify_sound_witness:
  "\<exists>t h p sig. jwt_verify ref_sodium ref_json sample_parse ''key'' 1010 (Some t) (Some ([], 33)) (Some ([], 37)) =
      (JWT_OK, Some (''ana'', 33), Some (''s1'', 37)) \<and> t = h @ ''.'' @ p @ ''.'' @ sig \<and>
    sodium_base642bin ref_sodium sig 32 = Some (crypto_auth_hmacsha256 ref_sodium (h @ ''.'' @ p) ''key'')"
proof -
  obtain t where t: "jwt_verify ref_sodium ref_json sample_parse ''key'' 1010 (Some t) (Some ([], 33)) (Some ([], 37)) =
      (JWT_OK, Some (''ana'', 33), Some (''s1'', 37))"
    using jwt_created_verifies [OF ref_sodium_ok, of ref_json sample_parse "''ana''" "''s1''" 1000 60 512 "''key''" 1010]
      sample_parsed user_fits_short [of "''ana''"] by auto
  then show ?thesis
    using jwt_verify_sound [OF ref_sodium_ok t] by blast
qed

text \<open>C28: Tokens round-trip for user names of at most 32 bytes: a token created for a user name whose JSON escape fits its buffer of
  128 bytes (every name of up to 21 bytes, and longer ones without control characters) and a session id of at most 36 bytes
  is created, and accepted until its timeout with exactly that user and session if the name has at most 32 bytes; a longer
  name gets a token that is refused. After the timeout the token is reported as expired. Base64 and the hash behave as
  libsodium documents, and the JSON parser reads the payload text.\<close>

theorem jwt_roundtrip:
  assumes "sodium_ok S" "payload_parsed J parse u s now (now + timeout)" "user_fits u" "length s \<le> 36" "CHR 0x00 \<notin> set s"
    "512 \<le> cap" "\<bar>now\<bar> < 2 ^ 63" "\<bar>now + timeout\<bar> < 2 ^ 63"
  shows "\<exists>token. jwt_create S secret now (Some u) (Some s) timeout cap = Some token \<and>
    jwt_verify S J parse secret later (Some token) (Some ([], 33)) (Some ([], 37)) =
      (if now + timeout < later then (JWT_ERR_EXPIRED, Some ([], 33), Some ([], 37))
       else if length u \<le> 32 then (JWT_OK, Some (u, 33), Some (s, 37))
       else (JWT_ERR_INVALID, Some ([], 33), Some ([], 37)))"
  using assms by (rule jwt_created_verifies)

theorem jwt_roundtrip_witness:
  "\<exists>token. jwt_create ref_sodium ''key'' 1000 (Some ''ana'') (Some ''s1'') 60 1024 = Some token \<and>
    jwt_verify ref_sodium ref_json sample_parse ''key'' 1010 (Some token) (Some ([], 33)) (Some ([], 37)) =
      (JWT_OK, Some (''ana'', 33), Some (''s1'', 37))"
proof -
  note r = jwt_roundtrip [OF ref_sodium_ok, of ref_json sample_parse "''ana''" "''s1''" 1000 60 1024 "''key''" 1010]
  show ?thesis
    using r sample_parsed user_fits_short [of "''ana''"] by (auto simp: JWT_OK_def)
qed

end
