(* ===== verification/Middleware.thy ===== *)
theory Middleware
  imports Validation Context HttpTask Logger
begin

text \<open>
  The route table entry \<open>middleware_ctx_t\<close> of \<open>include/apiserver/server.h\<close>, and what the program sees of a libevent
  request.

  libevent is not part of the program. A request is known by the answers of its getters: the header lookup, the
  method, the URI, the peer address and the blocks of the input buffer. Its effects are recorded as the list of calls
  the program makes, with the lines it logs in between.
\<close>

section \<open>Routes\<close>

datatype auth_mode_t = AUTH_NONE | AUTH_JWT | AUTH_API_KEY

datatype evhttp_cmd_type = EVHTTP_REQ_GET | EVHTTP_REQ_POST | EVHTTP_REQ_OPTIONS | EVHTTP_REQ_OTHER nat

text \<open>
  The thread-local state of a worker thread. \<open>th_app\<close> is what the handlers work on besides: database handles, caches,
  files.
\<close>

record 's thread_state =
  th_context :: request_context
  th_error :: thread_error
  th_request_id :: cstring
  th_app :: 's

definition clean_thread :: "'s \<Rightarrow> 's thread_state" where
  "clean_thread app = \<lparr>th_context = no_context, th_error = no_error, th_request_id = [], th_app = app\<rparr>"

text \<open>
  A handler: the body, then the status code, the bytes of the output buffer and the thread state. \<open>None\<close> stands for a
  handler that does not return.
\<close>

type_synonym ('j, 's) handler_fn =
  "'j option \<Rightarrow> int \<times> string \<times> 's thread_state \<Rightarrow> (int \<times> string \<times> 's thread_state) option"

record ('j, 's) middleware_ctx_t =
  route_path :: cstring
  validation_ctx :: "'j ValidationContext option"
  handler :: "('j, 's) handler_fn option"
  allowed_method :: evhttp_cmd_type
  auth_mode :: auth_mode_t
  is_fast :: bool


section \<open>Requests\<close>

text \<open>
  \<open>rq_connection\<close> is \<open>None\<close> for a request without connection; the peer address may be missing too. \<open>rq_chunks\<close> are the
  contiguous blocks of the input buffer.
\<close>

record http_request =
  rq_header :: "cstring \<Rightarrow> cstring_ptr"
  rq_command :: evhttp_cmd_type
  rq_uri :: cstring
  rq_connection :: "cstring_ptr option"
  rq_chunks :: "string list"

datatype http_call =
  Add_header cstring cstring
| Add_body string
| Send_reply int cstring_ptr
| Send_error int cstring
| Own_request
| Set_on_complete
| Clear_on_complete
| Free_request
| Write_log LogLevel string

abbreviation HTTP_BADREQUEST :: int where "HTTP_BADREQUEST \<equiv> 400"
abbreviation HTTP_BADMETHOD :: int where "HTTP_BADMETHOD \<equiv> 405"
abbreviation HTTP_INTERNAL :: int where "HTTP_INTERNAL \<equiv> 500"
abbreviation HTTP_SERVUNAVAIL :: int where "HTTP_SERVUNAVAIL \<equiv> 503"

text \<open>The JSON error bodies of the program.\<close>

definition error_json :: "string \<Rightarrow> string" where
  "error_json msg = ''{'' @ [CHR 0x22] @ ''error'' @ [CHR 0x22] @ '':'' @ [CHR 0x22] @ msg @ [CHR 0x22] @ ''}''"

end
