(* ===== verification/Pipeline.thy ===== *)
theory Pipeline
  imports Middleware Jwt Logger
begin

text \<open>
  Model of the request pipeline of \<open>lib/worker_pool.c\<close>: authentication, parsing and validation of the payload, the
  call of the route's handler, and the clean-up of the thread's state.

  The libraries a worker calls, the secret and the clock are the record \<open>worker_libs\<close>. The incremental parser of
  json-c has a state of its own: \<open>tok_parse\<close> consumes a block and returns the new state and the object, \<open>tok_error\<close>
  is \<open>json_tokener_get_error\<close>. A fault, such as adding to a missing output buffer, is \<open>None\<close>.
\<close>

section \<open>Parameters\<close>

datatype json_tokener_error = json_tokener_success | json_tokener_continue | json_tokener_failure

record ('j, 't) worker_libs =
  wl_json :: "'j json_c"
  wl_sodium :: sodium
  wl_parse :: "cstring \<Rightarrow> 'j option"
  wl_secret :: string
  wl_now :: int
  tok_new :: "'t option"
  tok_parse :: "'t \<Rightarrow> string \<Rightarrow> 't \<times> 'j option"
  tok_error :: "'t \<Rightarrow> json_tokener_error"

text \<open>
  The documented behaviour of \<open>json_tokener_parse_ex\<close>: while a value is incomplete the parser returns null and
  \<open>json_tokener_continue\<close> and goes on with the next block as if the blocks had come in one piece; once it has finished
  or failed, further bytes of the same block change nothing.
\<close>

definition tokener_incremental :: "('j, 't) worker_libs \<Rightarrow> bool" where
  "tokener_incremental L \<longleftrightarrow>
     (\<forall>t a b. tok_error L (fst (tok_parse L t a)) = json_tokener_continue \<longrightarrow>
        snd (tok_parse L t a) = None \<and> tok_parse L (fst (tok_parse L t a)) b = tok_parse L t (a @ b)) \<and>
     (\<forall>t a b. tok_error L (fst (tok_parse L t a)) \<noteq> json_tokener_continue \<longrightarrow>
        snd (tok_parse L t (a @ b)) = snd (tok_parse L t a) \<and>
        tok_error L (fst (tok_parse L t (a @ b))) = tok_error L (fst (tok_parse L t a)))"


section \<open>The steps\<close>

fun get_http_status_text :: "int \<Rightarrow> cstring" where
  "get_http_status_text code =
     (if code = 200 then ''OK''
      else if code = 400 then ''Bad Request''
      else if code = 401 then ''Unauthorized''
      else if code = 403 then ''Forbidden''
      else if code = 404 then ''Not Found''
      else if code = 429 then ''Too Many Requests''
      else if code = 500 then ''Internal Server Error''
      else if code = 502 then ''Bad Gateway''
      else if code = 503 then ''Service Unavailable''
      else ''Unknown Status'')"

text \<open>\<open>evbuffer_add(task->worker_buf, ...)\<close>\<close>

definition add_out :: "string \<Rightarrow> 'j http_task \<Rightarrow> 'j http_task option" where
  "add_out s task = (case worker_buf task of None \<Rightarrow> None | Some b \<Rightarrow> Some (task\<lparr>worker_buf := Some (b @ s)\<rparr>))"

text \<open>Setting the status and adding an error body, after which the step returns false.\<close>

definition reject :: "int \<Rightarrow> cstring \<Rightarrow> string \<Rightarrow> 'j http_task \<Rightarrow> (bool \<times> 'j http_task) option" where
  "reject code txt body task =
     map_option (Pair False) (add_out body (task\<lparr>status_code := code, status_txt := Some txt\<rparr>))"

definition worker_process_jwt ::
  "('j, 't) worker_libs \<Rightarrow> http_request \<Rightarrow> ('j, 's) middleware_ctx_t option \<Rightarrow> 'j http_task \<Rightarrow> request_context \<Rightarrow>
     (bool \<times> 'j http_task \<times> request_context) option"
where
  "worker_process_jwt L rq ctx task c =
     (if (case ctx of None \<Rightarrow> True | Some r \<Rightarrow> auth_mode r \<noteq> AUTH_JWT)
      then Some (True, task, context_set None None (Some (client_ip task)) (Some (uri task)) c)
      else
        (let refuse = (\<lambda>msg task. map_option (\<lambda>(ok, t). (ok, t, c)) (reject 401 ''Unauthorized'' (error_json msg) task))
         in case rq_header rq ''Authorization'' of
              None \<Rightarrow> refuse ''Missing or invalid Authorization header'' task
            | Some auth_hdr \<Rightarrow>
                (if \<not> strncasecmp_eq auth_hdr ''Bearer '' 7 then refuse ''Missing or invalid Authorization header'' task
                 else
                   (let (jwt_res, uo, so) = jwt_verify (wl_sodium L) (wl_json L) (wl_parse L) (wl_secret L) (wl_now L)
                          (Some (drop 7 auth_hdr)) (Some (username task, 33)) (Some (session_id task, 37));
                        task1 = task\<lparr>username := fst (the uo), session_id := fst (the so)\<rparr>
                    in if jwt_res = JWT_ERR_EXPIRED then refuse ''Token has expired'' task1
                       else if jwt_res \<noteq> JWT_OK then refuse ''Invalid token'' task1
                       else Some (True, task1, context_set (Some (username task1)) (Some (session_id task1))
                              (Some (client_ip task1)) (Some (uri task1)) c)))))"

text \<open>The slow path over the blocks of the input buffer.\<close>

fun parse_chunks :: "('j, 't) worker_libs \<Rightarrow> 't \<Rightarrow> 'j option \<Rightarrow> string list \<Rightarrow> 't \<times> 'j option" where
  "parse_chunks L tok body [] = (tok, body)"
| "parse_chunks L tok body (v # vs) =
     (let (tok1, obj) = tok_parse L tok v;
          body1 = (if obj \<noteq> None then obj else body)
      in if tok_error L tok1 \<noteq> json_tokener_continue then (tok1, body1) else parse_chunks L tok1 body1 vs)"

definition json_content_type :: "cstring_ptr \<Rightarrow> bool" where
  "json_content_type ctype =
     (case ctype of
        None \<Rightarrow> False
      | Some s \<Rightarrow> strncasecmp_eq s ''application/json'' 16 \<and>
          (drop 16 s = [] \<or> hd (drop 16 s) = CHR '';'' \<or> hd (drop 16 s) = CHR '' ''))"

text \<open>
  The code passes the lengths of the body and of its chunks to \<open>json_tokener_parse_ex\<close> as \<open>int\<close>. The casts are exact: the HTTP server
  refuses bodies above the setting \<open>MAX_PAYLOAD_SIZE\<close>, which is at most 100 MiB.
\<close>

definition worker_process_payload ::
  "('j, 't) worker_libs \<Rightarrow> http_request \<Rightarrow> 'j http_task \<Rightarrow> (bool \<times> 'j http_task) option"
where
  "worker_process_payload L rq task =
     (if rq_command rq \<noteq> EVHTTP_REQ_POST then Some (True, task)
      else if \<not> json_content_type (rq_header rq ''Content-Type'')
      then reject HTTP_BADREQUEST ''Bad Request'' (error_json ''Invalid Content-Type. Expected application/json.'') task
      else
        (let chunks = rq_chunks rq; len = length (concat chunks)
         in if len = 0 then reject HTTP_BADREQUEST ''Bad Request'' (error_json ''Empty request body.'') task
            else
              (case tok_new L of
                 None \<Rightarrow> reject HTTP_SERVUNAVAIL ''Service Unavailable'' (error_json ''Out of memory allocating JSON parser'') task
               | Some tok \<Rightarrow>
                   (let (tok1, body) =
                          (if length (hd chunks) \<ge> len then tok_parse L tok (concat chunks)
                           else parse_chunks L tok (parsed_body task) chunks);
                        task1 = task\<lparr>parsed_body := body\<rparr>
                    in if body = None \<or> tok_error L tok1 \<noteq> json_tokener_success \<or>
                          \<not> json_object_is_type (wl_json L) body json_type_object
                       then reject HTTP_BADREQUEST ''Bad Request''
                              (error_json ''Invalid JSON payload or not a JSON object.'') task1
                       else Some (True, task1)))))"

definition worker_process_validation ::
  "('j, 't) worker_libs \<Rightarrow> ('j, 's) middleware_ctx_t option \<Rightarrow> 'j http_task \<Rightarrow> (bool \<times> 'j http_task) option"
where
  "worker_process_validation L ctx task =
     (case (case ctx of None \<Rightarrow> None | Some r \<Rightarrow> validation_ctx r) of
        None \<Rightarrow> Some (True, task)
      | Some vctx \<Rightarrow>
          (if parsed_body task = None then Some (True, task)
           else
             (case validate_json (wl_json L) (Some vctx) (parsed_body task) (Some []) MAX_ERR_MSG_LEN of
                None \<Rightarrow> None
              | Some (ok, err_buf) \<Rightarrow>
                  (if \<not> ok
                   then reject HTTP_BADREQUEST ''Bad Request'' (snprintf (error_json (the err_buf)) 1024) task
                   else Some (True, task)))))"

text \<open>
  The conjunction of the three steps, evaluated from left to right up to the first that fails.
\<close>

definition worker_checks ::
  "('j, 't) worker_libs \<Rightarrow> http_request \<Rightarrow> ('j, 's) middleware_ctx_t option \<Rightarrow> 'j http_task \<Rightarrow> request_context \<Rightarrow>
     (bool \<times> 'j http_task \<times> request_context) option"
where
  "worker_checks L rq ctx task c =
     (case worker_process_jwt L rq ctx task c of
        None \<Rightarrow> None
      | Some (False, t1, c1) \<Rightarrow> Some (False, t1, c1)
      | Some (True, t1, c1) \<Rightarrow>
          (case worker_process_payload L rq t1 of
             None \<Rightarrow> None
           | Some (False, t2) \<Rightarrow> Some (False, t2, c1)
           | Some (True, t2) \<Rightarrow> map_option (\<lambda>(ok, t3). (ok, t3, c1)) (worker_process_validation L ctx t2)))"

text \<open>The call of the handler, with the content type it has set.\<close>

definition call_handler :: "('j, 's) handler_fn \<Rightarrow> 'j http_task \<Rightarrow> 's thread_state \<Rightarrow> ('j http_task \<times> 's thread_state) option" where
  "call_handler h task th =
     (case worker_buf task of
        None \<Rightarrow> None
      | Some b \<Rightarrow>
          (case h (parsed_body task) (status_code task, b, th) of
             None \<Rightarrow> None
           | Some (status, out, th1) \<Rightarrow>
               (let ctype = context_get_content_type (th_context th1)
                in Some (task\<lparr>status_code := status, worker_buf := Some out,
                     out_content_type := (case ctype of Some s \<Rightarrow> strlcpy s 128 | None \<Rightarrow> [])\<rparr>, th1))))"

text \<open>What the worker logs about a finished request.\<close>

definition request_log :: "'j http_task \<Rightarrow> thread_error \<Rightarrow> (LogLevel \<times> string) list" where
  "request_log task e =
     (case get_thread_error_level e of
        TL_ERR_ERROR \<Rightarrow> [(LOG_LEVEL_ERROR, ''Request failed for URI '' @ uri task @ '': '' @ get_thread_error_msg e)]
      | TL_ERR_WARN \<Rightarrow> [(LOG_LEVEL_WARN, ''Request warning for URI '' @ uri task @ '': '' @ get_thread_error_msg e)]
      | TL_ERR_NONE \<Rightarrow>
          (if status_code task \<ge> 500
           then [(LOG_LEVEL_ERROR, ''Request failed with status '' @ dec_int (status_code task) @ '' for URI '' @ uri task)]
           else []))"

definition worker_process_task ::
  "('j, 't) worker_libs \<Rightarrow> ('j, 's) middleware_ctx_t list \<Rightarrow> http_request \<Rightarrow> 'j http_task \<Rightarrow> 's thread_state \<Rightarrow>
     ('j http_task \<times> 's thread_state \<times> (LogLevel \<times> string) list) option"
where
  "worker_process_task L routes rq task th =
     (let ctx = (case middleware_ctx task of None \<Rightarrow> None | Some i \<Rightarrow> Some (routes ! i));
          th1 = th\<lparr>th_request_id := logger_set_request_id (Some (request_id task))\<rparr>
      in case worker_checks L rq ctx task (th_context th1) of
           None \<Rightarrow> None
         | Some (ok, task1, c1) \<Rightarrow>
             (case (if ok then (case ctx of None \<Rightarrow> None | Some r \<Rightarrow> handler r) else None) of
                None \<Rightarrow> Some (task1, th1\<lparr>th_context := c1\<rparr>)
              | Some h \<Rightarrow> call_handler h task1 (th1\<lparr>th_context := c1\<rparr>)) \<bind>
             (\<lambda>(task2, th2).
                let task3 = (if status_txt task2 = None
                             then task2\<lparr>status_txt := Some (get_http_status_text (status_code task2))\<rparr> else task2)
                in Some (task3,
                     th2\<lparr>th_error := clear_thread_error (th_error th2), th_request_id := logger_clear_request_id,
                         th_context := context_clear (th_context th2)\<rparr>,
                     request_log task3 (th_error th2))))"

text \<open>What a worker does with a task it has taken from the queue, before it hands it to the reactor.\<close>

definition worker_run_task ::
  "('j, 't) worker_libs \<Rightarrow> ('j, 's) middleware_ctx_t list \<Rightarrow> http_request \<Rightarrow> 'j http_task \<Rightarrow> 's thread_state \<Rightarrow>
     ('j http_task \<times> 's thread_state \<times> (LogLevel \<times> string) list) option"
where
  "worker_run_task L routes rq task th =
     (if \<not> cancelled task then worker_process_task L routes rq task th else Some (task, th, []))"


section \<open>Chunks\<close>

lemma parse_chunks_concat:
  assumes "tokener_incremental L" "chunks \<noteq> []"
  shows "snd (parse_chunks L tok None chunks) = snd (tok_parse L tok (concat chunks)) \<and>
    tok_error L (fst (parse_chunks L tok None chunks)) = tok_error L (fst (tok_parse L tok (concat chunks)))"
  using assms(2)
proof (induction chunks arbitrary: tok)
  case (Cons v vs)
  obtain tok1 obj where t: "tok_parse L tok v = (tok1, obj)"
    by (cases "tok_parse L tok v")
  show ?case
  proof (cases "tok_error L tok1 = json_tokener_continue")
    case True
    then have c: "obj = None" "tok_parse L tok1 b = tok_parse L tok (v @ b)" for b
      using assms(1) t unfolding tokener_incremental_def by (metis fst_conv snd_conv)+
    show ?thesis
    proof (cases "vs = []")
      case True
      with t c(1) show ?thesis by simp
    next
      case False
      with Cons.IH [of tok1] t c True show ?thesis by simp
    qed
  next
    case False
    then have "snd (tok_parse L tok (v @ b)) = obj" "tok_error L (fst (tok_parse L tok (v @ b))) = tok_error L tok1" for b
      using assms(1) t unfolding tokener_incremental_def by (metis fst_conv snd_conv)+
    with t False show ?thesis by simp
  qed
qed simp

lemma payload_parse:
  assumes "tokener_incremental L" "concat chunks \<noteq> []"
  shows "\<exists>tok1. (if length (hd chunks) \<ge> length (concat chunks) then tok_parse L tok (concat chunks)
      else parse_chunks L tok None chunks) = (tok1, snd (tok_parse L tok (concat chunks))) \<and>
    tok_error L tok1 = tok_error L (fst (tok_parse L tok (concat chunks)))"
proof -
  have "chunks \<noteq> []"
    using assms(2) by auto
  then show ?thesis
    using parse_chunks_concat [OF assms(1), of chunks tok] by (metis prod.collapse)
qed

lemma worker_process_payload_parsed:
  assumes "tokener_incremental L" "rq_command rq = EVHTTP_REQ_POST" "json_content_type (rq_header rq ''Content-Type'')"
    "concat (rq_chunks rq) \<noteq> []" "tok_new L = Some tok" "parsed_body task = None"
  shows "worker_process_payload L rq task =
    (let (tok1, body) = tok_parse L tok (concat (rq_chunks rq)); task1 = task\<lparr>parsed_body := body\<rparr>
     in if body = None \<or> tok_error L tok1 \<noteq> json_tokener_success \<or> \<not> json_object_is_type (wl_json L) body json_type_object
        then reject HTTP_BADREQUEST ''Bad Request'' (error_json ''Invalid JSON payload or not a JSON object.'') task1
        else Some (True, task1))"
proof -
  obtain tok1 where t: "(if length (hd (rq_chunks rq)) \<ge> length (concat (rq_chunks rq)) then tok_parse L tok (concat (rq_chunks rq))
      else parse_chunks L tok None (rq_chunks rq)) = (tok1, snd (tok_parse L tok (concat (rq_chunks rq))))"
    "tok_error L tok1 = tok_error L (fst (tok_parse L tok (concat (rq_chunks rq))))"
    using payload_parse [OF assms(1,4), of tok] by blast
  have ne: "(length (concat (rq_chunks rq)) = 0) = False"
    using assms(4) by (metis length_0_conv)
  show ?thesis
    unfolding worker_process_payload_def Let_def ne if_False assms(5,6) option.case t(1) prod.case
    using assms(2,3) t(2) by (simp add: split_def)
qed


section \<open>Outcomes of the steps\<close>

lemma add_out_Some: "worker_buf task \<noteq> None \<Longrightarrow> \<exists>b. add_out s task = Some (task\<lparr>worker_buf := Some b\<rparr>)"
  by (auto simp: add_out_def)

lemma reject_Some:
  assumes "reject code txt body task = Some (ok, t)"
  shows "\<not> ok" "status_code t = code" "status_txt t = Some txt" "worker_buf t \<noteq> None"
  using assms by (auto simp: reject_def add_out_def split: option.splits)

lemma reject_not_True [simp]: "reject code why body task \<noteq> Some (True, t)"
  using reject_Some(1) [of code why body task True t] by auto

lemma reject_eq_None [simp]: "reject code why body task = None \<longleftrightarrow> worker_buf task = None"
  by (auto simp: reject_def add_out_def split: option.splits)

lemma reject_total: "worker_buf task \<noteq> None \<Longrightarrow> \<exists>t. reject code txt body task = Some (False, t)"
  by (auto simp: reject_def add_out_def)

text \<open>What an accepting authentication step has established.\<close>

lemma worker_process_jwt_True:
  assumes "worker_process_jwt L rq (Some r) task c = Some (True, t1, c1)" "auth_mode r = AUTH_JWT" "sodium_ok (wl_sodium L)"
  shows "\<exists>hdr u s. rq_header rq ''Authorization'' = Some hdr \<and> strncasecmp_eq hdr ''Bearer '' 7 \<and>
    jwt_verify (wl_sodium L) (wl_json L) (wl_parse L) (wl_secret L) (wl_now L) (Some (drop 7 hdr))
      (Some (username task, 33)) (Some (session_id task, 37)) = (JWT_OK, Some (u, 33), Some (s, 37)) \<and>
    length u < 33 \<and> length s < 37 \<and> t1 = task\<lparr>username := u, session_id := s\<rparr> \<and> tl_user c1 = u \<and> tl_session c1 = s"
proof -
  obtain hdr where hdr: "rq_header rq ''Authorization'' = Some hdr" "strncasecmp_eq hdr ''Bearer '' 7"
    using assms(1,2) by (auto simp: worker_process_jwt_def Let_def split: option.splits if_splits)
  obtain res uo so where v: "jwt_verify (wl_sodium L) (wl_json L) (wl_parse L) (wl_secret L) (wl_now L) (Some (drop 7 hdr))
      (Some (username task, 33)) (Some (session_id task, 37)) = (res, uo, so)"
    by (metis prod.collapse)
  have res: "res = JWT_OK"
    using assms(1,2) hdr v by (auto simp: worker_process_jwt_def Let_def split: if_splits)
  obtain u s where us: "uo = Some (u, 33)" "length u < 33" "so = Some (s, 37)" "length s < 37"
    using jwt_verify_accepts [OF assms(3) v [unfolded res]] by blast
  have "JWT_OK \<noteq> JWT_ERR_EXPIRED"
    by (simp add: JWT_OK_def JWT_ERR_EXPIRED_def)
  then have "t1 = task\<lparr>username := u, session_id := s\<rparr> \<and>
      c1 = context_set (Some u) (Some s) (Some (client_ip task)) (Some (uri task)) c"
    using assms(1,2) hdr v res us by (simp add: worker_process_jwt_def Let_def)
  then show ?thesis
    using hdr v res us by (simp add: context_set_def copy_or_empty_def strlcpy_fits)
qed

text \<open>The fields a step leaves alone.\<close>

lemma worker_process_jwt_frame:
  assumes "worker_process_jwt L rq ctx task c = Some (ok, t1, c1)" "worker_buf task \<noteq> None"
  shows "worker_buf t1 \<noteq> None" "parsed_body t1 = parsed_body task" "middleware_ctx t1 = middleware_ctx task"
    "\<not> ok \<Longrightarrow> status_code t1 = 401 \<and> status_txt t1 \<noteq> None"
  using assms
  by (auto simp: worker_process_jwt_def reject_def add_out_def Let_def split: option.splits if_splits prod.splits)

lemma worker_process_payload_frame:
  assumes "worker_process_payload L rq task = Some (ok, t1)" "worker_buf task \<noteq> None"
  shows "worker_buf t1 \<noteq> None" "\<not> ok \<Longrightarrow> status_code t1 \<in> {400, 503} \<and> status_txt t1 \<noteq> None"
    "ok \<Longrightarrow> rq_command rq = EVHTTP_REQ_POST \<Longrightarrow>
       \<exists>b. parsed_body t1 = Some b \<and> json_object_is_type (wl_json L) (Some b) json_type_object"
  using assms
  by (auto simp: worker_process_payload_def reject_def add_out_def Let_def split: option.splits if_splits prod.splits)

lemma worker_process_validation_frame:
  assumes "worker_process_validation L ctx task = Some (ok, t1)" "worker_buf task \<noteq> None"
  shows "worker_buf t1 \<noteq> None" "\<not> ok \<Longrightarrow> status_code t1 = 400 \<and> status_txt t1 \<noteq> None" "ok \<Longrightarrow> t1 = task"
  using assms
  by (auto simp: worker_process_validation_def reject_def add_out_def Let_def split: option.splits if_splits prod.splits)

lemma worker_process_validation_True:
  assumes "json_strings_ok (wl_json L)" "worker_process_validation L (Some r) task = Some (True, t1)"
    "validation_ctx r = Some v" "parsed_body task = Some b"
  shows "\<forall>f \<in> set (schema v). field_accepts (wl_json L) (\<lambda>_ _. True) b f"
proof -
  obtain e where "validate_json (wl_json L) (Some v) (Some b) (Some []) MAX_ERR_MSG_LEN = Some (True, e)"
    using assms(2-4) by (auto simp: worker_process_validation_def reject_def split: option.splits if_splits)
  then show ?thesis
    using validate_json_accepts [OF assms(1)] by blast
qed

text \<open>The conditions under which a handler is called, on its body and in its context.\<close>

definition admitted ::
  "('j, 't) worker_libs \<Rightarrow> http_request \<Rightarrow> ('j, 's) middleware_ctx_t \<Rightarrow> 'j http_task \<Rightarrow> 'j option \<Rightarrow> request_context \<Rightarrow> bool"
where
  "admitted L rq r task body c \<longleftrightarrow>
     (auth_mode r = AUTH_JWT \<longrightarrow>
        (\<exists>hdr. rq_header rq ''Authorization'' = Some hdr \<and> strncasecmp_eq hdr ''Bearer '' 7 \<and>
           jwt_verify (wl_sodium L) (wl_json L) (wl_parse L) (wl_secret L) (wl_now L) (Some (drop 7 hdr))
             (Some (username task, 33)) (Some (session_id task, 37)) = (JWT_OK, Some (tl_user c, 33), Some (tl_session c, 37)))) \<and>
     (rq_command rq = EVHTTP_REQ_POST \<longrightarrow>
        (\<exists>b. body = Some b \<and> json_object_is_type (wl_json L) (Some b) json_type_object \<and>
           (\<forall>v. validation_ctx r = Some v \<longrightarrow> (\<forall>f \<in> set (schema v). field_accepts (wl_json L) (\<lambda>_ _. True) b f))))"

lemma worker_checks_cases:
  assumes "json_strings_ok (wl_json L)" "worker_buf task \<noteq> None" "worker_checks L rq (Some r) task c = Some (ok, t, c1)"
    "sodium_ok (wl_sodium L)"
  shows "worker_buf t \<noteq> None \<and>
    (if ok then admitted L rq r task (parsed_body t) c1 else status_code t \<in> {400, 401, 503} \<and> status_txt t \<noteq> None)"
proof -
  obtain ok1 t1 c' where j: "worker_process_jwt L rq (Some r) task c = Some (ok1, t1, c')"
    using assms(3) by (auto simp: worker_checks_def split: option.splits)
  note jf = worker_process_jwt_frame [OF j assms(2)]
  show ?thesis
  proof (cases ok1)
    case False
    with j jf assms(3) show ?thesis by (auto simp: worker_checks_def)
  next
    case ok1: True
    obtain ok2 t2 where p: "worker_process_payload L rq t1 = Some (ok2, t2)"
      using assms(3) j ok1 by (auto simp: worker_checks_def split: option.splits)
    note pf = worker_process_payload_frame [OF p jf(1)]
    show ?thesis
    proof (cases ok2)
      case False
      with j p pf ok1 assms(3) show ?thesis by (auto simp: worker_checks_def)
    next
      case ok2: True
      have v: "worker_process_validation L (Some r) t2 = Some (ok, t)" "c1 = c'"
        using assms(3) j ok1 p ok2 by (auto simp: worker_checks_def)
      note vf = worker_process_validation_frame [OF v(1) pf(1)]
      show ?thesis
      proof (cases ok)
        case False
        with vf show ?thesis by auto
      next
        case True
        have 1: "auth_mode r = AUTH_JWT \<Longrightarrow> \<exists>hdr. rq_header rq ''Authorization'' = Some hdr \<and> strncasecmp_eq hdr ''Bearer '' 7 \<and>
            jwt_verify (wl_sodium L) (wl_json L) (wl_parse L) (wl_secret L) (wl_now L) (Some (drop 7 hdr))
              (Some (username task, 33)) (Some (session_id task, 37)) = (JWT_OK, Some (tl_user c1, 33), Some (tl_session c1, 37))"
          using worker_process_jwt_True [of L rq r task c t1 c'] j ok1 v(2) assms(4) by auto
        have 2: "\<exists>b. parsed_body t = Some b \<and> json_object_is_type (wl_json L) (Some b) json_type_object \<and>
            (\<forall>v. validation_ctx r = Some v \<longrightarrow> (\<forall>f \<in> set (schema v). field_accepts (wl_json L) (\<lambda>_ _. True) b f))"
          if "rq_command rq = EVHTTP_REQ_POST"
          using pf(3) [OF ok2 that] worker_process_validation_True [OF assms(1), of r t2 t2] v(1) vf(3) True by auto
        show ?thesis
          using 1 2 vf(1) True by (simp add: admitted_def)
      qed
    qed
  qed
qed


lemma worker_checks_total:
  assumes "worker_buf task \<noteq> None"
    "\<forall>v b. validation_ctx r = Some v \<longrightarrow> validate_json (wl_json L) (Some v) (Some b) (Some []) MAX_ERR_MSG_LEN \<noteq> None"
  shows "\<exists>ok t c1. worker_checks L rq (Some r) task c = Some (ok, t, c1) \<and> worker_buf t \<noteq> None"
proof -
  have "worker_process_jwt L rq (Some r) task c \<noteq> None"
    using assms(1) by (simp add: worker_process_jwt_def Let_def split: option.split prod.split del: not_None_eq)
  then obtain ok1 t1 c1 where j: "worker_process_jwt L rq (Some r) task c = Some (ok1, t1, c1)"
    by (metis option.exhaust prod.exhaust)
  note jf = worker_process_jwt_frame [OF j assms(1)]
  have "worker_process_payload L rq t1 \<noteq> None"
    using jf(1) by (simp add: worker_process_payload_def Let_def split: option.split prod.split del: not_None_eq)
  then obtain ok2 t2 where p: "worker_process_payload L rq t1 = Some (ok2, t2)"
    by (metis option.exhaust prod.exhaust)
  note pf = worker_process_payload_frame [OF p jf(1)]
  have "worker_process_validation L (Some r) t2 \<noteq> None"
    using assms(2) pf(1)
    by (auto simp: worker_process_validation_def split: option.split prod.split simp del: not_None_eq)
  then obtain ok3 t3 where v: "worker_process_validation L (Some r) t2 = Some (ok3, t3)"
    by (metis option.exhaust prod.exhaust)
  note vf = worker_process_validation_frame [OF v pf(1)]
  show ?thesis
    using j p v jf(1) pf(1) vf(1) by (cases ok1; cases ok2) (auto simp: worker_checks_def)
qed


section \<open>Properties\<close>

lemma worker_checks_handler: "worker_checks L rq (Some (r\<lparr>handler := h\<rparr>)) task c = worker_checks L rq (Some r) task c"
proof -
  have "worker_process_jwt L rq (Some (r\<lparr>handler := h\<rparr>)) t c = worker_process_jwt L rq (Some r) t c" for t
    by (simp add: worker_process_jwt_def)
  moreover have "worker_process_validation L (Some (r\<lparr>handler := h\<rparr>)) t = worker_process_validation L (Some r) t" for t
    by (simp add: worker_process_validation_def)
  ultimately show ?thesis
    by (simp add: worker_checks_def split: option.split prod.split bool.split)
qed

text \<open>The effect of \<open>worker_process_task\<close> in terms of its checks and its handler.\<close>

lemma worker_process_task_cases:
  assumes "middleware_ctx task = Some i" "i < length routes" "worker_process_task L routes rq task th = Some (task', th', logs)"
    "th1 = th\<lparr>th_request_id := logger_set_request_id (Some (request_id task))\<rparr>"
  obtains t1 c1 where "worker_checks L rq (Some (routes ! i)) task (th_context th) = Some (False, t1, c1)"
      "status_code task' = status_code t1" "worker_buf task' = worker_buf t1"
  | t1 c1 where "worker_checks L rq (Some (routes ! i)) task (th_context th) = Some (True, t1, c1)" "handler (routes ! i) = None"
      "status_code task' = status_code t1" "worker_buf task' = worker_buf t1"
  | h t1 c1 t2 th2 where "worker_checks L rq (Some (routes ! i)) task (th_context th) = Some (True, t1, c1)"
      "handler (routes ! i) = Some h" "call_handler h t1 (th1\<lparr>th_context := c1\<rparr>) = Some (t2, th2)"
      "status_code task' = status_code t2" "worker_buf task' = worker_buf t2"
  using assms
  by (auto simp: worker_process_task_def Let_def Option.bind_eq_Some_conv split: option.splits if_splits prod.splits bool.splits)

lemma worker_process_task_total:
  assumes "worker_buf task \<noteq> None" "middleware_ctx task = Some i" "i < length routes"
    "\<forall>v b. validation_ctx (routes ! i) = Some v \<longrightarrow> validate_json (wl_json L) (Some v) (Some b) (Some []) MAX_ERR_MSG_LEN \<noteq> None"
    "\<And>h t c b. handler (routes ! i) = Some h \<Longrightarrow> worker_checks L rq (Some (routes ! i)) task (th_context th) = Some (True, t, c) \<Longrightarrow>
       h (parsed_body t) (status_code t, b, th\<lparr>th_request_id := logger_set_request_id (Some (request_id task)), th_context := c\<rparr>) \<noteq> None"
  shows "\<exists>task' app logs. worker_process_task L routes rq task th = Some (task', clean_thread app, logs) \<and>
    status_txt task' \<noteq> None \<and> worker_buf task' \<noteq> None"
proof -
  let ?r = "routes ! i"
  let ?th = "\<lambda>c. th\<lparr>th_request_id := logger_set_request_id (Some (request_id task)), th_context := c\<rparr>"
  obtain ok t c1 where chk: "worker_checks L rq (Some ?r) task (th_context th) = Some (ok, t, c1)" "worker_buf t \<noteq> None"
    using worker_checks_total [OF assms(1,4)] by blast
  have clean: "(th'\<lparr>th_error := no_error, th_request_id := [], th_context := no_context\<rparr> :: 's thread_state) = clean_thread (th_app th')" for th'
    by (cases th') (simp add: clean_thread_def)
  have "\<exists>t2 th2. (case (if ok then handler ?r else None) of None \<Rightarrow> Some (t, ?th c1) | Some h \<Rightarrow> call_handler h t (?th c1)) =
      Some (t2, th2) \<and> worker_buf t2 \<noteq> None"
  proof (cases "if ok then handler ?r else None")
    case (Some h)
    then have h: "ok" "handler ?r = Some h"
      by (simp_all split: if_splits)
    obtain b where b: "worker_buf t = Some b"
      using chk(2) by blast
    obtain res where "h (parsed_body t) (status_code t, b, ?th c1) = Some res"
      using assms(5) [OF h(2), of t c1 b] chk(1) h(1) by auto
    then show ?thesis
      using Some b by (cases res) (simp add: call_handler_def Let_def)
  qed (use chk in simp)
  then obtain t2 th2 where "(case (if ok then handler ?r else None) of None \<Rightarrow> Some (t, ?th c1) | Some h \<Rightarrow> call_handler h t (?th c1)) =
      Some (t2, th2)" "worker_buf t2 \<noteq> None" by blast
  then show ?thesis
    using assms(2) chk by (auto simp: worker_process_task_def Let_def clean logger_clear_request_id_def)
qed

text \<open>
  A sample configuration. Its JSON parser reads a value up to the first closing brace and returns the empty object.
\<close>

definition sample_libs :: "(jvalue, string) worker_libs" where
  "sample_libs = \<lparr>wl_json = ref_json, wl_sodium = ref_sodium, wl_parse = sample_parse, wl_secret = ''key'', wl_now = 1010,
     tok_new = Some [],
     tok_parse = (\<lambda>t v. (t @ v, if CHR 0x7D \<in> set (t @ v) then Some (JObject []) else None)),
     tok_error = (\<lambda>t. if CHR 0x7D \<in> set t then json_tokener_success else json_tokener_continue)\<rparr>"

definition sample_route :: "(jvalue, unit) middleware_ctx_t" where
  "sample_route = \<lparr>route_path = ''/a'', validation_ctx = None, handler = Some (\<lambda>b (st, out, th). Some (200, out @ ''{}'', th)),
     allowed_method = EVHTTP_REQ_GET, auth_mode = AUTH_JWT, is_fast = True\<rparr>"

definition sample_task :: "jvalue http_task" where
  "sample_task = zero_task\<lparr>worker_buf := Some [], middleware_ctx := Some 0\<rparr>"

definition sample_request :: "cstring \<Rightarrow> evhttp_cmd_type \<Rightarrow> string list \<Rightarrow> http_request" where
  "sample_request token cmd chunks = \<lparr>rq_header = map_of [(''Authorization'', ''Bearer '' @ token), (''Content-Type'', ''application/json'')],
     rq_command = cmd, rq_uri = ''/a'', rq_connection = Some None, rq_chunks = chunks\<rparr>"

lemma sample_handler: "handler sample_route = Some h \<Longrightarrow> h b s \<noteq> None"
  by (cases s) (auto simp: sample_route_def)

lemma sample_route_total:
  "\<exists>task' app logs. worker_process_task sample_libs [sample_route] rq sample_task (clean_thread ()) = Some (task', clean_thread app, logs) \<and>
    status_txt task' \<noteq> None \<and> worker_buf task' \<noteq> None"
proof (rule worker_process_task_total [where i = 0])
  show "worker_buf sample_task \<noteq> None" "middleware_ctx sample_task = Some 0"
    by (simp_all add: sample_task_def)
  show "\<forall>v b. validation_ctx ([sample_route] ! 0) = Some v \<longrightarrow>
      validate_json (wl_json sample_libs) (Some v) (Some b) (Some []) MAX_ERR_MSG_LEN \<noteq> None"
    by (simp add: sample_route_def)
qed (simp_all add: sample_handler del: not_None_eq)

text \<open>C13: a handler runs only for a request that passed every check of its route: with JWT authentication, a token that
  verifies under the server's secret and whose claims are the user and session the handler sees; for a POST, a body that
  is a JSON object meeting every constraint of the route's schema. Otherwise the reply is 400, 401 or 503 and does not
  depend on the handler at all.\<close>

theorem handler_guarded:
  assumes "json_strings_ok (wl_json L)" "worker_buf task \<noteq> None" "middleware_ctx task = Some i" "i < length routes"
    "handler (routes ! i) = Some h" "worker_process_task L routes rq task th = Some (task', th', logs)"
    "sodium_ok (wl_sodium L)"
  shows "(\<exists>t1 c1 t2 th2. admitted L rq (routes ! i) task (parsed_body t1) c1 \<and>
      call_handler h t1 (th\<lparr>th_request_id := logger_set_request_id (Some (request_id task)), th_context := c1\<rparr>) = Some (t2, th2) \<and>
      status_code task' = status_code t2 \<and> worker_buf task' = worker_buf t2) \<or>
    status_code task' \<in> {400, 401, 503} \<and>
      (\<forall>h'. worker_process_task L (routes[i := (routes ! i)\<lparr>handler := Some h'\<rparr>]) rq task th = Some (task', th', logs))"
  using assms(3,4,6) refl
proof (cases rule: worker_process_task_cases)
  case (1 t1 c1)
  note same = worker_checks_handler
  have "status_code task' \<in> {400, 401, 503}"
    using worker_checks_cases [OF assms(1,2) 1(1) assms(7)] 1(2) by simp
  moreover have "worker_process_task L (routes[i := (routes ! i)\<lparr>handler := Some h'\<rparr>]) rq task th = Some (task', th', logs)" for h'
    using assms(3,4,6) 1(1) by (auto simp: worker_process_task_def same Let_def)
  ultimately show ?thesis by blast
next
  case (3 h0 t1 c1 t2 th2)
  then show ?thesis
    using worker_checks_cases [OF assms(1,2) 3(1) assms(7)] assms(5) by auto
qed (use assms(5) in simp)

theorem handler_guarded_witness:
  "\<exists>token task' th' logs.
    worker_process_task sample_libs [sample_route] (sample_request token EVHTTP_REQ_GET []) sample_task (clean_thread ()) = Some (task', th', logs) \<and>
    ((\<exists>t1 c1 t2 th2. admitted sample_libs (sample_request token EVHTTP_REQ_GET []) sample_route sample_task (parsed_body t1) c1 \<and>
      call_handler (\<lambda>b (st, out, th). Some (200, out @ ''{}'', th)) t1
        ((clean_thread ())\<lparr>th_request_id := logger_set_request_id (Some (request_id sample_task)), th_context := c1\<rparr>) = Some (t2, th2) \<and>
      status_code task' = status_code t2 \<and> worker_buf task' = worker_buf t2) \<or> status_code task' \<in> {400, 401, 503})"
proof -
  let ?rq = "sample_request [] EVHTTP_REQ_GET []"
  obtain task' th' logs where r: "worker_process_task sample_libs [sample_route] ?rq sample_task (clean_thread ()) = Some (task', th', logs)"
    using sample_route_total by blast
  have "json_strings_ok (wl_json sample_libs)" "sodium_ok (wl_sodium sample_libs)"
    by (simp_all add: sample_libs_def ref_json_strings ref_sodium_ok)
  then show ?thesis
    using handler_guarded [OF _ _ _ _ _ r, of 0 "\<lambda>b (st, out, th). Some (200, out @ ''{}'', th)"] r
    by (fastforce simp: sample_task_def sample_route_def)
qed

text \<open> how libevent cut the body into blocks never matters: two requests with the same method, headers and bytes get
  the same verdict and the same parsed body, whether the bytes lie in one block (the fast path) or in many, given the
  documented behaviour of the incremental JSON parser.\<close>

theorem payload_chunking_irrelevant:
  assumes "tokener_incremental L" "parsed_body task = None" "rq_command rq = rq_command rq'" "rq_header rq = rq_header rq'"
    "concat (rq_chunks rq) = concat (rq_chunks rq')"
  shows "worker_process_payload L rq task = worker_process_payload L rq' task"
proof (cases "rq_command rq = EVHTTP_REQ_POST \<and> json_content_type (rq_header rq ''Content-Type'') \<and>
    concat (rq_chunks rq) \<noteq> [] \<and> tok_new L \<noteq> None")
  case True
  then obtain tok where "tok_new L = Some tok" by auto
  then have "worker_process_payload L rq task =
      (let (tok1, body) = tok_parse L tok (concat (rq_chunks rq)); task1 = task\<lparr>parsed_body := body\<rparr>
       in if body = None \<or> tok_error L tok1 \<noteq> json_tokener_success \<or> \<not> json_object_is_type (wl_json L) body json_type_object
          then reject HTTP_BADREQUEST ''Bad Request'' (error_json ''Invalid JSON payload or not a JSON object.'') task1
          else Some (True, task1))" (is "_ = ?parsed")
    using True assms by (intro worker_process_payload_parsed) simp_all
  moreover have "worker_process_payload L rq' task = ?parsed"
    unfolding assms(5) using True assms \<open>tok_new L = Some tok\<close> by (intro worker_process_payload_parsed) simp_all
  ultimately show ?thesis
    by (simp only:)
next
  case False
  then consider "rq_command rq \<noteq> EVHTTP_REQ_POST" | "\<not> json_content_type (rq_header rq ''Content-Type'')"
    | "concat (rq_chunks rq) = []" | "tok_new L = None"
    by blast
  then show ?thesis
  proof cases
    case 3
    then have "length (concat (rq_chunks rq)) = 0" "length (concat (rq_chunks rq')) = 0"
      using assms(5) by (simp_all only: length_0_conv)
    then show ?thesis
      using assms(3,4) by (simp only: worker_process_payload_def Let_def simp_thms if_True)
  next
    case 4
    then show ?thesis
      using assms(3-5) by (simp only: worker_process_payload_def Let_def option.case)
  qed (use assms(3,4) in \<open>simp_all add: worker_process_payload_def\<close>)
qed

lemma sample_tokener: "tokener_incremental sample_libs"
  by (auto simp: tokener_incremental_def sample_libs_def)

theorem payload_chunking_irrelevant_witness:
  "worker_process_payload sample_libs (sample_request [] EVHTTP_REQ_POST [''{'', ''} '']) sample_task =
   worker_process_payload sample_libs (sample_request [] EVHTTP_REQ_POST [''{} '']) sample_task"
  by (rule payload_chunking_irrelevant [OF sample_tokener]) (simp_all add: sample_request_def sample_task_def zero_task_def)

text \<open> a task with an output buffer is always finished, whatever the request is, as long as the schema's
  validators do not dereference null and the handler returns: the task gets a status text and keeps its buffer, and the thread's user,
  session, error and request id are cleared, so nothing leaks into the next request on the thread.\<close>

theorem worker_task_isolated:
  assumes "worker_buf task \<noteq> None" "middleware_ctx task = Some i" "i < length routes"
    "\<forall>v b. validation_ctx (routes ! i) = Some v \<longrightarrow> validate_json (wl_json L) (Some v) (Some b) (Some []) MAX_ERR_MSG_LEN \<noteq> None"
    "\<forall>h b s. handler (routes ! i) = Some h \<longrightarrow> h b s \<noteq> None"
  shows "\<exists>task' app logs. worker_process_task L routes rq task th = Some (task', clean_thread app, logs) \<and>
    status_txt task' \<noteq> None \<and> worker_buf task' \<noteq> None"
  using assms by (intro worker_process_task_total) auto

theorem worker_task_isolated_witness:
  "\<exists>task' app logs. worker_process_task sample_libs [sample_route] (sample_request [] EVHTTP_REQ_POST [''{}'']) sample_task
      (clean_thread ()) = Some (task', clean_thread app, logs) \<and> status_txt task' \<noteq> None \<and> worker_buf task' \<noteq> None"
  by (rule worker_task_isolated [of _ 0]) (simp_all add: sample_task_def sample_route_def)

end
