(* ===== verification/Server.thy ===== *)
theory Server
  imports Middleware TaskPool WorkerPool Config Jwt Logger
begin

text \<open>
  Model of the request path of \<open>lib/server.c\<close> on a reactor thread: the client address, the middleware that checks a
  request and hands it to the workers, the replies to finished tasks, and the request statistics.

  The calls a function makes on the libevent request are returned as a list. The clock, the number of the reactor and
  the success of allocations are arguments.
\<close>

section \<open>The client address\<close>

definition server_get_client_ip_fast :: "cstring_ptr \<Rightarrow> cstring" where
  "server_get_client_ip_fast address = (case address of Some a \<Rightarrow> if a \<noteq> [] then a else ''unknown'' | None \<Rightarrow> ''unknown'')"

text \<open>The verdict and the peer address, which is left unset without a connection.\<close>

definition is_trusted_proxy :: "config \<Rightarrow> http_request \<Rightarrow> bool \<times> cstring_ptr" where
  "is_trusted_proxy cfg rq =
     (case rq_connection rq of
        None \<Rightarrow> (False, None)
      | Some address \<Rightarrow>
          (let peer_ip = server_get_client_ip_fast address
           in if peer_ip = ''unknown'' then (False, Some peer_ip)
              else (g_trust_proxy_ip cfg \<noteq> [] \<and> strcmp peer_ip (g_trust_proxy_ip cfg) = 0, Some peer_ip)))"

definition INET6_ADDRSTRLEN :: nat where
  "INET6_ADDRSTRLEN = 46"

text \<open>The address and the warnings logged on the way.\<close>

definition server_extract_client_ip :: "config \<Rightarrow> http_request \<Rightarrow> cstring \<times> (LogLevel \<times> string) list" where
  "server_extract_client_ip cfg rq =
     (case rq_header rq ''X-Forwarded-For'' of
        Some xff \<Rightarrow>
          (if \<not> fst (is_trusted_proxy cfg rq)
           then
             (case rq_connection rq of Some address \<Rightarrow> server_get_client_ip_fast address | None \<Rightarrow> ''unknown'',
              [(LOG_LEVEL_WARN, ''Untrusted X-Forwarded-For header '' @ [CHR 0x27] @ xff @ [CHR 0x27] @ '' from peer '' @
                 (case snd (is_trusted_proxy cfg rq) of Some p \<Rightarrow> p | None \<Rightarrow> ''unknown'') @ '' for URI '' @ rq_uri rq)])
           else
             (case strrchr_after xff (CHR 0x2C) of
                None \<Rightarrow> (xff, [])
              | Some start \<Rightarrow> (take (INET6_ADDRSTRLEN - 1) (dropWhile (\<lambda>c. c = CHR 0x20) start), [])))
      | None \<Rightarrow>
          (case rq_connection rq of Some address \<Rightarrow> server_get_client_ip_fast address | None \<Rightarrow> ''unknown'', []))"


section \<open>The middleware\<close>

definition inject_security_headers :: "http_call list" where
  "inject_security_headers =
     [Add_header ''X-Content-Type-Options'' ''nosniff'',
      Add_header ''X-Frame-Options'' ''DENY'',
      Add_header ''Cache-Control'' ''no-store, no-cache, must-revalidate, max-age=0'',
      Add_header ''Content-Security-Policy'' (''default-src '' @ [CHR 0x27] @ ''none'' @ [CHR 0x27] @ ''; frame-ancestors '' @
        [CHR 0x27] @ ''none'' @ [CHR 0x27])]"

text \<open>A zeroed buffer of \<open>n\<close> bytes holding a C string.\<close>

definition zero_padded :: "nat \<Rightarrow> cstring \<Rightarrow> string" where
  "zero_padded n s = s @ replicate (n - length s) (CHR 0x00)"

definition validate_telemetry_api_key :: "sodium \<Rightarrow> config \<Rightarrow> http_request \<Rightarrow> bool" where
  "validate_telemetry_api_key S cfg rq =
     (let expected_key = g_telemetry_api_key cfg
      in if expected_key = [] then False
         else
           (let provided_key =
                  (case rq_header rq ''X-API-Key'' of
                     Some k \<Rightarrow> strlcpy k MAX_CONFIG_STR
                   | None \<Rightarrow>
                       (case rq_header rq ''Authorization'' of
                          Some bearer \<Rightarrow> if strncasecmp_eq bearer ''Bearer '' 7 then strlcpy (drop 7 bearer) MAX_CONFIG_STR else []
                        | None \<Rightarrow> []));
                match = sodium_memcmp S (zero_padded MAX_CONFIG_STR provided_key) (zero_padded MAX_CONFIG_STR expected_key)
            in match = 0 \<and> provided_key \<noteq> []))"

text \<open>An error body and the reply that sends it.\<close>

definition reply_error :: "int \<Rightarrow> cstring \<Rightarrow> string \<Rightarrow> http_call list" where
  "reply_error code reason msg = [Add_body (error_json msg), Send_reply code (Some reason)]"

definition server_validate_cors :: "config \<Rightarrow> http_request \<Rightarrow> cstring \<Rightarrow> bool \<times> http_call list" where
  "server_validate_cors cfg rq ip =
     (case rq_header rq ''Origin'' of
        None \<Rightarrow> (True, [])
      | Some orig \<Rightarrow>
          (if config_is_origin_allowed cfg (Some orig)
           then (True, [Add_header ''Access-Control-Allow-Origin'' orig,
                  Add_header ''Access-Control-Allow-Methods'' ''GET, POST, OPTIONS'',
                  Add_header ''Access-Control-Allow-Headers'' ''Content-Type, Authorization, X-API-Key'',
                  Add_header ''Access-Control-Max-Age'' ''86400'',
                  Add_header ''Vary'' ''Origin''])
           else (False, Write_log LOG_LEVEL_WARN (''CORS validation failed for Origin: '' @ [CHR 0x27] @ orig @ [CHR 0x27] @ '' from IP: '' @ ip @
                   '' accessing URI: '' @ rq_uri rq) # reply_error 403 ''Forbidden'' ''CORS origin not allowed.'')))"

text \<open>The check of the key warns when no key is configured.\<close>

definition server_validate_method_and_auth ::
  "sodium \<Rightarrow> config \<Rightarrow> http_request \<Rightarrow> ('j, 's) middleware_ctx_t \<Rightarrow> bool \<times> http_call list"
where
  "server_validate_method_and_auth S cfg rq ctx =
     (if rq_command rq \<noteq> allowed_method ctx
      then (False, reply_error HTTP_BADMETHOD ''Method Not Allowed'' ''Method not permitted.'')
      else if auth_mode ctx = AUTH_API_KEY \<and> \<not> validate_telemetry_api_key S cfg rq
      then (False, (if g_telemetry_api_key cfg = [] then [Write_log LOG_LEVEL_WARN ''TELEMETRY_API_KEY is not configured!''] else []) @
             reply_error 403 ''Forbidden'' ''Access Denied'')
      else (True, []))"

text \<open>The task pool and the worker queues share the tasks of the slab.\<close>

record 'j server_state =
  sv_tasks :: "'j task_pool"
  sv_fast :: pool_t
  sv_slow :: pool_t

definition sv_heap :: "'j server_state \<Rightarrow> 'j task_heap" where
  "sv_heap st = (\<lambda>a. g_task_slab (sv_tasks st) ! a)"

definition put_heap :: "'j task_heap \<Rightarrow> 'j task_pool \<Rightarrow> 'j task_pool" where
  "put_heap h pool = pool\<lparr>g_task_slab := map h [0..<length (g_task_slab pool)]\<rparr>"

definition sv_enqueue :: "('j, 's) middleware_ctx_t list \<Rightarrow> config \<Rightarrow> nat \<Rightarrow> 'j server_state \<Rightarrow> bool \<times> 'j server_state" where
  "sv_enqueue routes cfg task st =
     (let (ok, w) = worker_pool_enqueue (\<lambda>i. is_fast (routes ! i)) (unat (g_max_queue_size cfg)) task
            \<lparr>wp_heap = sv_heap st, g_fast_pool = sv_fast st, g_slow_pool = sv_slow st\<rparr>
      in (ok, \<lparr>sv_tasks = put_heap (wp_heap w) (sv_tasks st), sv_fast = g_fast_pool w, sv_slow = g_slow_pool w\<rparr>))"

text \<open>The fields of a new task.\<close>

definition fill_task :: "nat \<Rightarrow> nat \<Rightarrow> int \<times> int \<Rightarrow> nat \<Rightarrow> cstring_ptr \<Rightarrow> cstring \<Rightarrow> cstring_ptr \<Rightarrow> 'j http_task \<Rightarrow> 'j http_task" where
  "fill_task request ctx start rid ip raw_uri req_id task =
     task\<lparr>req := Some request, parsed_body := None, middleware_ctx := Some ctx, start_time := start, reactor_id := rid,
       username := [], session_id := [], client_ip := strlcpy (case ip of Some s \<Rightarrow> s | None \<Rightarrow> ''unknown'') 64,
       uri := strlcpy raw_uri 1024, request_id := strlcpy (case req_id of Some r \<Rightarrow> r | None \<Rightarrow> []) 64, cancelled := False\<rparr>"

text \<open>
  \<open>server_enqueue_task\<close> on reactor \<open>rid\<close>, whose thread has the task cache \<open>tid\<close>; \<open>request\<close> is the handle of the
  libevent request.
\<close>

definition server_enqueue_task ::
  "('j, 's) middleware_ctx_t list \<Rightarrow> config \<Rightarrow> nat \<Rightarrow> nat \<Rightarrow> bool \<Rightarrow> nat \<Rightarrow> http_request \<Rightarrow> nat \<Rightarrow> int \<times> int \<Rightarrow> cstring_ptr \<Rightarrow>
     'j server_state \<Rightarrow> (http_call list \<times> 'j server_state) outcome"
where
  "server_enqueue_task routes cfg rid tid buf_ok request rq ctx start ip st =
     bind_outcome (task_pool_alloc tid buf_ok (sv_tasks st)) (\<lambda>(task, pool1).
     case task of
       None \<Rightarrow> Ret (reply_error HTTP_SERVUNAVAIL ''Service Unavailable'' ''Server Too Busy'', st\<lparr>sv_tasks := pool1\<rparr>)
     | Some a \<Rightarrow>
         (let raw_uri = rq_uri rq; req_id = rq_header rq ''X-Request-Id''
          in if length raw_uri \<ge> 1024 \<or> (case req_id of Some r \<Rightarrow> length r \<ge> 64 | None \<Rightarrow> False) \<or>
                (case ip of Some s \<Rightarrow> length s \<ge> 64 | None \<Rightarrow> False)
             then bind_outcome (task_pool_free tid (Some a) pool1) (\<lambda>pool2.
               Ret (reply_error HTTP_BADREQUEST ''Bad Request'' ''Request Headers or URI Too Long'', st\<lparr>sv_tasks := pool2\<rparr>))
             else
               bind_outcome (update_task a (fill_task request ctx start rid ip raw_uri req_id) pool1) (\<lambda>pool2.
               let (ok, st2) = sv_enqueue routes cfg a (st\<lparr>sv_tasks := pool2\<rparr>)
               in if ok then Ret ([Set_on_complete, Own_request], st2)
                  else
                    bind_outcome (task_pool_free tid (Some a) (sv_tasks st2)) (\<lambda>pool3.
                    Ret ([Set_on_complete, Own_request, Clear_on_complete] @
                           reply_error HTTP_SERVUNAVAIL ''Service Unavailable'' ''Server Too Busy'',
                         st2\<lparr>sv_tasks := pool3\<rparr>)))))"

definition api_middleware_wrapper ::
  "sodium \<Rightarrow> ('j, 's) middleware_ctx_t list \<Rightarrow> config \<Rightarrow> nat \<Rightarrow> nat \<Rightarrow> bool \<Rightarrow> nat \<Rightarrow> http_request \<Rightarrow> nat option \<Rightarrow> int \<times> int \<Rightarrow>
     'j server_state \<Rightarrow> (http_call list \<times> 'j server_state) outcome"
where
  "api_middleware_wrapper S routes cfg rid tid buf_ok request rq arg now st =
     (if rq_connection rq = None
      then Ret ([Write_log LOG_LEVEL_AUDIT ''Client disconnected abruptly. Ignoring duplicate callback trigger.''], st)
      else
        (let (client_ip, warnings) = server_extract_client_ip cfg rq;
             before = inject_security_headers @ map (\<lambda>(level, msg). Write_log level msg) warnings
         in case arg of
              None \<Rightarrow> Ret (before @ [Send_error HTTP_INTERNAL ''Middleware Routing Fault''], st)
            | Some ctx \<Rightarrow>
                (if handler (routes ! ctx) = None
                 then Ret (before @ [Send_error HTTP_INTERNAL ''Middleware Routing Fault''], st)
                 else
                   (let (cors_ok, cors_calls) = server_validate_cors cfg rq client_ip
                    in if \<not> cors_ok then Ret (before @ cors_calls, st)
                       else if rq_command rq = EVHTTP_REQ_OPTIONS
                       then Ret (before @ cors_calls @ [Send_reply 204 (Some ''No Content'')], st)
                       else
                         (let (auth_ok, auth_calls) = server_validate_method_and_auth S cfg rq (routes ! ctx)
                          in if \<not> auth_ok then Ret (before @ cors_calls @ auth_calls, st)
                             else
                               bind_outcome (server_enqueue_task routes cfg rid tid buf_ok request rq ctx now (Some client_ip) st)
                                 (\<lambda>(calls, st'). Ret (before @ cors_calls @ calls, st')))))))"


section \<open>Replies\<close>

text \<open>
  \<open>send_http_reply\<close>: \<open>has_type\<close> says whether the output headers already have a content type.
\<close>

definition send_http_reply :: "'j http_task \<Rightarrow> bool \<Rightarrow> bool \<Rightarrow> http_call list" where
  "send_http_reply task has_type has_body =
     (if has_body
      then
        (if out_content_type task \<noteq> [] then [Add_header ''Content-Type'' (out_content_type task)]
         else if \<not> has_type then [Add_header ''Content-Type'' ''application/json''] else []) @
        [Send_reply (status_code task) (status_txt task)]
      else if status_code task \<ge> 400
      then
        (if \<not> has_type then [Add_header ''Content-Type'' ''application/json''] else []) @
        (if status_code task \<noteq> HTTP_INTERNAL
         then [Add_body (snprintf (error_json (case status_txt task of Some s \<Rightarrow> s | None \<Rightarrow> ''Error'')) 256),
               Send_reply (status_code task) (status_txt task)]
         else [Add_body (snprintf (error_json ''Internal Server Error'') 256),
               Send_reply HTTP_INTERNAL (Some ''Internal Server Error'')])
      else [Send_reply (status_code task) (status_txt task)])"

text \<open>Division of C, which truncates.\<close>

definition c_div :: "int \<Rightarrow> int \<Rightarrow> int" where
  "c_div a b = sgn a * sgn b * (\<bar>a\<bar> div \<bar>b\<bar>)"

definition measure_elapsed_ms :: "int \<times> int \<Rightarrow> int \<times> int \<Rightarrow> int" where
  "measure_elapsed_ms start stop =
     (let seconds = fst stop - fst start; nanoseconds = snd stop - snd start
      in seconds * 1000 + c_div nanoseconds 1000000)"


section \<open>Statistics\<close>

record reactor_stats =
  total_requests_fast :: "64 word"
  total_time_fast_ms :: "64 word"
  total_requests_slow :: "64 word"
  total_time_slow_ms :: "64 word"

definition zero_stats :: reactor_stats where
  "zero_stats = \<lparr>total_requests_fast = 0, total_time_fast_ms = 0, total_requests_slow = 0, total_time_slow_ms = 0\<rparr>"

text \<open>\<open>g_reactor_stats\<close> is an array with an entry per reactor, or null.\<close>

definition server_record_request_stats :: "nat \<Rightarrow> int \<Rightarrow> bool \<Rightarrow> reactor_stats list option \<Rightarrow> reactor_stats list option" where
  "server_record_request_stats rid elapsed_ms fast stats =
     map_option (\<lambda>s. s[rid :=
       (if fast
        then (s ! rid)\<lparr>total_requests_fast := total_requests_fast (s ! rid) + 1,
                       total_time_fast_ms := total_time_fast_ms (s ! rid) + word_of_int elapsed_ms\<rparr>
        else (s ! rid)\<lparr>total_requests_slow := total_requests_slow (s ! rid) + 1,
                       total_time_slow_ms := total_time_slow_ms (s ! rid) + word_of_int elapsed_ms\<rparr>)]) stats"

record server_request_stats_t =
  rs_total_requests :: "64 word"
  rs_total_requests_fast :: "64 word"
  rs_total_requests_slow :: "64 word"
  rs_total_time_ms :: "64 word"
  rs_total_time_fast_ms :: "64 word"
  rs_total_time_slow_ms :: "64 word"
  rs_avg_time_fast_ms :: "64 word"
  rs_avg_time_slow_ms :: "64 word"

definition server_get_request_stats :: "reactor_stats list option \<Rightarrow> server_request_stats_t" where
  "server_get_request_stats stats =
     (let s = (case stats of None \<Rightarrow> [] | Some s \<Rightarrow> s);
          reqs_fast = fold (\<lambda>r acc. acc + total_requests_fast r) s 0;
          time_fast = fold (\<lambda>r acc. acc + total_time_fast_ms r) s 0;
          reqs_slow = fold (\<lambda>r acc. acc + total_requests_slow r) s 0;
          time_slow = fold (\<lambda>r acc. acc + total_time_slow_ms r) s 0
      in \<lparr>rs_total_requests = reqs_fast + reqs_slow, rs_total_requests_fast = reqs_fast, rs_total_requests_slow = reqs_slow,
          rs_total_time_ms = time_fast + time_slow, rs_total_time_fast_ms = time_fast, rs_total_time_slow_ms = time_slow,
          rs_avg_time_fast_ms = (if reqs_fast \<noteq> 0 then time_fast div reqs_fast else 0),
          rs_avg_time_slow_ms = (if reqs_slow \<noteq> 0 then time_slow div reqs_slow else 0)\<rparr>)"

text \<open>
  \<open>server_get_memory_stats\<close>: the bytes read from \<open>/proc/self/statm\<close>, \<open>None\<close> when it cannot be opened or read; the
  result is the used memory in kilobytes.
\<close>

definition server_get_memory_stats :: "string option \<Rightarrow> int \<Rightarrow> 64 word" where
  "server_get_memory_stats statm page_size =
     (case statm of
        None \<Rightarrow> 0
      | Some b \<Rightarrow>
          (let p = dropWhile (\<lambda>c. c \<noteq> CHR 0x20) (c_str (take 127 b))
           in if p = [] then 0
              else word_of_int (c_div (int (digits_value (takeWhile isdigit (tl p)) 0) * page_size) 1024)))"


section \<open>Finished tasks\<close>

text \<open>
  What the reactor does with a finished task: the calls on its request, the access log, the state and the
  statistics.
\<close>

definition cleanup_cancelled_task ::
  "nat \<Rightarrow> nat \<Rightarrow> 'j server_state \<Rightarrow> (http_call list \<times> 'j server_state) outcome"
where
  "cleanup_cancelled_task tid a st =
     bind_outcome (task_pool_free tid (Some a) (sv_tasks st)) (\<lambda>pool.
       Ret (if req (sv_heap st a) \<noteq> None then [Free_request] else [], st\<lparr>sv_tasks := pool\<rparr>))"

definition process_completed_task ::
  "('j, 's) middleware_ctx_t list \<Rightarrow> config \<Rightarrow> nat \<Rightarrow> nat \<Rightarrow> int \<times> int \<Rightarrow> string \<Rightarrow> bool \<Rightarrow> nat \<Rightarrow>
     'j server_state \<times> reactor_stats list option \<Rightarrow>
     (http_call list \<times> (LogLevel \<times> string) list \<times> 'j server_state \<times> reactor_stats list option) outcome"
where
  "process_completed_task routes cfg rid tid stop out_buf has_type a s =
     (let (st, stats) = s;
          task = sv_heap st a;
          elapsed_ms = measure_elapsed_ms (start_time task) stop;
          fast = (case middleware_ctx task of Some i \<Rightarrow> is_fast (routes ! i) | None \<Rightarrow> False);
          stats1 = server_record_request_stats rid elapsed_ms fast stats;
          logs = (if g_access_log cfg
            then [(LOG_LEVEL_INFO, ''clientIP='' @ client_ip task @ '' uri='' @ uri task @ '' elapsed_ms='' @ dec_int elapsed_ms)]
            else []);
          body = (case worker_buf task of Some b \<Rightarrow> b | None \<Rightarrow> []);
          calls = [Clear_on_complete] @ (if body \<noteq> [] then [Add_body body] else []) @
            send_http_reply task has_type (out_buf @ body \<noteq> [])
      in bind_outcome (task_pool_free tid (Some a) (sv_tasks st)) (\<lambda>pool.
           Ret (calls, logs, st\<lparr>sv_tasks := pool\<rparr>, stats1)))"

text \<open>One turn of the loop of \<open>reactor_eventfd_cb\<close>.\<close>

definition reactor_handle_task ::
  "('j, 's) middleware_ctx_t list \<Rightarrow> config \<Rightarrow> nat \<Rightarrow> nat \<Rightarrow> int \<times> int \<Rightarrow> string \<Rightarrow> bool \<Rightarrow> nat \<Rightarrow>
     'j server_state \<times> reactor_stats list option \<Rightarrow>
     (http_call list \<times> (LogLevel \<times> string) list \<times> 'j server_state \<times> reactor_stats list option) outcome"
where
  "reactor_handle_task routes cfg rid tid stop out_buf has_type a s =
     (if cancelled (sv_heap (fst s) a)
      then bind_outcome (cleanup_cancelled_task tid a (fst s)) (\<lambda>(calls, st). Ret (calls, [], st, snd s))
      else process_completed_task routes cfg rid tid stop out_buf has_type a s)"


section \<open>The client address\<close>

lemma extract_untrusted:
  assumes "\<not> fst (is_trusted_proxy cfg rq)"
  shows "fst (server_extract_client_ip cfg rq) =
    (case rq_connection rq of Some address \<Rightarrow> server_get_client_ip_fast address | None \<Rightarrow> ''unknown'')"
  using assms by (simp add: server_extract_client_ip_def split: option.split)


section \<open>The API key\<close>

lemma zero_padded_inject:
  assumes "CHR 0x00 \<notin> set s" "CHR 0x00 \<notin> set t" "zero_padded n s = zero_padded n t"
  shows "s = t"
proof -
  have "takeWhile (\<lambda>c. c \<noteq> CHR 0x00) (zero_padded n x) = x" if "CHR 0x00 \<notin> set x" for x
    using that by (auto simp: zero_padded_def takeWhile_append takeWhile_eq_all_conv)
  then show ?thesis
    using assms by metis
qed

lemma api_key_match:
  assumes "sodium_ok S" "length p < MAX_CONFIG_STR" "length e < MAX_CONFIG_STR" "CHR 0x00 \<notin> set p" "CHR 0x00 \<notin> set e"
  shows "sodium_memcmp S (zero_padded MAX_CONFIG_STR p) (zero_padded MAX_CONFIG_STR e) = 0 \<longleftrightarrow> p = e"
proof -
  have "length (zero_padded MAX_CONFIG_STR p) = length (zero_padded MAX_CONFIG_STR e)"
    using assms(2,3) by (simp add: zero_padded_def)
  then show ?thesis
    using assms(1,4,5) zero_padded_inject by (auto simp: sodium_ok_def)
qed


section \<open>Admission\<close>

fun answer :: "http_call \<Rightarrow> bool" where
  "answer (Send_reply _ _) = True"
| "answer (Send_error _ _) = True"
| "answer _ = False"

definition answers :: "http_call list \<Rightarrow> nat" where
  "answers calls = length (filter answer calls)"

lemma answers_simps [simp]:
  "answers [] = 0" "answers (c # cs) = (if answer c then Suc (answers cs) else answers cs)"
  "answers (cs @ cs') = answers cs + answers cs'" "answers (reply_error code reason msg) = 1"
  "answers inject_security_headers = 0" "answers (map (\<lambda>(level, msg). Write_log level msg) ws) = 0"
  by (simp_all add: answers_def reply_error_def inject_security_headers_def filter_empty_conv split_def)

lemma pool_inv_slab: "pool_inv L pool \<Longrightarrow> length ts = length (g_task_slab pool) \<Longrightarrow> pool_inv L (pool\<lparr>g_task_slab := ts\<rparr>)"
  by (simp add: pool_inv_def pool_shape_def stacked_def caches_def [abs_def])

lemma pool_inv_leased: "pool_inv L pool \<Longrightarrow> a \<in> L \<Longrightarrow> a < length (g_task_slab pool)"
  using partitioned_disjoint(3) [of _ "caches pool" L _ a] by (auto simp: pool_inv_def pool_shape_def)

text \<open>The queue of a task's route before and after \<open>sv_enqueue\<close>.\<close>

definition route_queue :: "bool \<Rightarrow> 'j server_state \<Rightarrow> pool_t" where
  "route_queue fast st = (if fast then sv_fast st else sv_slow st)"

lemma sv_enqueue_spec:
  assumes "sv_enqueue routes cfg a st = (ok, st')" "middleware_ctx (sv_heap st a) = Some i" "fast = is_fast (routes ! i)"
    "a < length (g_task_slab (sv_tasks st))"
  shows "\<exists>ts. sv_tasks st' = (sv_tasks st)\<lparr>g_task_slab := ts\<rparr> \<and> length ts = length (g_task_slab (sv_tasks st)) \<and>
      ts ! a = (sv_heap st a)\<lparr>next_task := next_task (ts ! a)\<rparr>"
    "route_queue (\<not> fast) st' = route_queue (\<not> fast) st"
    "if ok then pool_tail (route_queue fast st') = Some a \<and> pool_size (route_queue fast st') = pool_size (route_queue fast st) + 1
     else route_queue fast st' = route_queue fast st"
proof -
  obtain h pool where e: "pool_enqueue (unat (g_max_queue_size cfg)) a (sv_heap st, route_queue fast st) = (ok, h, pool)"
    and st': "st' = (if fast then \<lparr>sv_tasks = put_heap h (sv_tasks st), sv_fast = pool, sv_slow = sv_slow st\<rparr>
      else \<lparr>sv_tasks = put_heap h (sv_tasks st), sv_fast = sv_fast st, sv_slow = pool\<rparr>)"
    using assms(1-3)
    by (auto simp: sv_enqueue_def worker_pool_enqueue_def route_queue_def Let_def split: prod.splits if_splits)
  have h: "h a = (sv_heap st a)\<lparr>next_task := next_task (h a)\<rparr>"
    using e by (auto simp: pool_enqueue_def set_next_def Let_def split: if_splits option.splits)
  then show "\<exists>ts. sv_tasks st' = (sv_tasks st)\<lparr>g_task_slab := ts\<rparr> \<and> length ts = length (g_task_slab (sv_tasks st)) \<and>
      ts ! a = (sv_heap st a)\<lparr>next_task := next_task (ts ! a)\<rparr>"
    using assms(4) by (intro exI [of _ "map h [0..<length (g_task_slab (sv_tasks st))]"]) (auto simp: st' put_heap_def)
  show "route_queue (\<not> fast) st' = route_queue (\<not> fast) st"
    by (auto simp: st' route_queue_def)
  show "if ok then pool_tail (route_queue fast st') = Some a \<and> pool_size (route_queue fast st') = pool_size (route_queue fast st) + 1
     else route_queue fast st' = route_queue fast st"
    using e by (auto simp: st' route_queue_def pool_enqueue_def Let_def split: if_splits option.splits)
qed

text \<open>A task that carries exactly what the request said.\<close>

definition carries :: "nat \<Rightarrow> nat \<Rightarrow> nat \<Rightarrow> int \<times> int \<Rightarrow> http_request \<Rightarrow> cstring \<Rightarrow> 'j http_task \<Rightarrow> bool" where
  "carries request ctx rid now rq ip task \<longleftrightarrow> req task = Some request \<and> middleware_ctx task = Some ctx \<and> reactor_id task = rid \<and>
     start_time task = now \<and> uri task = rq_uri rq \<and> client_ip task = ip \<and>
     request_id task = (case rq_header rq ''X-Request-Id'' of Some r \<Rightarrow> r | None \<Rightarrow> []) \<and> parsed_body task = None \<and>
     username task = [] \<and> session_id task = [] \<and> \<not> cancelled task \<and> worker_buf task = Some []"

lemma carries_next: "carries request ctx rid now rq ip (task\<lparr>next_task := n\<rparr>) = carries request ctx rid now rq ip task"
  by (simp add: carries_def)

lemma server_enqueue_task_spec:
  assumes inv: "pool_inv L (sv_tasks st)"
  shows "\<exists>calls st'. server_enqueue_task routes cfg rid tid buf_ok request rq ctx now (Some ip) st = Ret (calls, st') \<and>
    (answers calls = 1 \<and> sv_fast st' = sv_fast st \<and> sv_slow st' = sv_slow st \<and> pool_inv L (sv_tasks st') \<or>
     answers calls = 0 \<and> Own_request \<in> set calls \<and>
     (\<exists>a. a \<notin> L \<and> pool_inv (insert a L) (sv_tasks st') \<and> carries request ctx rid now rq ip (sv_heap st' a) \<and>
        pool_tail (route_queue (is_fast (routes ! ctx)) st') = Some a \<and>
        pool_size (route_queue (is_fast (routes ! ctx)) st') = pool_size (route_queue (is_fast (routes ! ctx)) st) + 1 \<and>
        route_queue (\<not> is_fast (routes ! ctx)) st' = route_queue (\<not> is_fast (routes ! ctx)) st))"
  using inv
proof (cases rule: alloc_spec [where tid = tid and buf_ok = buf_ok])
  case (none pool1)
  then show ?thesis
    by (simp add: server_enqueue_task_def)
next
  case (leased a pool1)
  let ?long = "length (rq_uri rq) \<ge> 1024 \<or> (case rq_header rq ''X-Request-Id'' of Some r \<Rightarrow> length r \<ge> 64 | None \<Rightarrow> False) \<or> length ip \<ge> 64"
  have len: "a < length (g_task_slab pool1)"
    using pool_inv_leased [OF leased(2)] by simp
  show ?thesis
  proof (cases ?long)
    case True
    obtain pool2 where "task_pool_free tid (Some a) pool1 = Ret pool2" "pool_inv (insert a L - {a}) pool2"
      using free_leased [OF leased(2), of a tid] by auto
    with True leased show ?thesis
      by (simp add: server_enqueue_task_def Let_def)
  next
    case short: False
    define task where "task = fill_task request ctx now rid (Some ip) (rq_uri rq) (rq_header rq ''X-Request-Id'') (fresh_task :: 'a http_task)"
    define pool2 where "pool2 = pool1\<lparr>g_task_slab := (g_task_slab pool1)[a := task]\<rparr>"
    define st1 where "st1 = st\<lparr>sv_tasks := pool2\<rparr>"
    have up: "update_task a (fill_task request ctx now rid (Some ip) (rq_uri rq) (rq_header rq ''X-Request-Id'')) pool1 = Ret pool2"
      using len leased(4) by (simp add: update_task_def pool2_def task_def)
    obtain ok st2 where e: "sv_enqueue routes cfg a st1 = (ok, st2)"
      by (metis prod.collapse)
    have at: "sv_heap st1 a = task" "a < length (g_task_slab (sv_tasks st1))" "middleware_ctx (sv_heap st1 a) = Some ctx"
      using len by (simp_all add: sv_heap_def st1_def pool2_def task_def fill_task_def)
    note spec = sv_enqueue_spec [OF e at(3) refl at(2)]
    obtain ts where ts: "sv_tasks st2 = pool2\<lparr>g_task_slab := ts\<rparr>" "length ts = length (g_task_slab pool2)"
      "ts ! a = task\<lparr>next_task := next_task (ts ! a)\<rparr>"
      using spec(1) at(1) by (auto simp: st1_def)
    have inv2: "pool_inv (insert a L) (sv_tasks st2)"
      unfolding ts(1) using leased(2) ts(2) by (intro pool_inv_slab) (auto simp: pool2_def intro: pool_inv_slab)
    have other: "route_queue f st1 = route_queue f st" for f
      by (simp add: route_queue_def st1_def)
    show ?thesis
    proof (cases ok)
      case True
      have "carries request ctx rid now rq ip task"
        using short by (auto simp: carries_def task_def fill_task_def fresh_task_def zero_task_def strlcpy_fits split: option.splits)
      moreover have "sv_heap st2 a = task\<lparr>next_task := next_task (ts ! a)\<rparr>"
        using ts(3) by (simp add: sv_heap_def ts(1))
      ultimately have "carries request ctx rid now rq ip (sv_heap st2 a)"
        by (simp only: carries_next)
      with True short leased(1,3) up e inv2 spec(2,3) show ?thesis
        by (auto simp: server_enqueue_task_def Let_def st1_def [symmetric] other)
    next
      case False
      obtain pool3 where f: "task_pool_free tid (Some a) (sv_tasks st2) = Ret pool3" "pool_inv (insert a L - {a}) pool3"
        using free_leased [OF inv2, of a tid] by auto
      have "sv_fast st2 = sv_fast st" "sv_slow st2 = sv_slow st"
        using spec(2,3) False other by (auto simp: route_queue_def split: if_splits)
      with False short leased(1,3) up e f show ?thesis
        by (auto simp: server_enqueue_task_def Let_def st1_def [symmetric])
    qed
  qed
qed


section \<open>Properties\<close>

text \<open>The conditions under which the middleware passes a request to the workers.\<close>

definition admissible :: "sodium \<Rightarrow> config \<Rightarrow> http_request \<Rightarrow> ('j, 's) middleware_ctx_t \<Rightarrow> bool" where
  "admissible S cfg rq r \<longleftrightarrow> handler r \<noteq> None \<and> rq_command rq = allowed_method r \<and> rq_command rq \<noteq> EVHTTP_REQ_OPTIONS \<and>
     (case rq_header rq ''Origin'' of None \<Rightarrow> True | Some orig \<Rightarrow> config_is_origin_allowed cfg (Some orig)) \<and>
     (auth_mode r = AUTH_API_KEY \<longrightarrow> validate_telemetry_api_key S cfg rq)"

lemma middleware_cases:
  assumes "rq_connection rq \<noteq> None"
  shows "(\<exists>calls. answers calls = 1 \<and>
      api_middleware_wrapper S routes cfg rid tid buf_ok request rq arg now st = Ret (calls, st)) \<or>
    (\<exists>ctx before. arg = Some ctx \<and> admissible S cfg rq (routes ! ctx) \<and> answers before = 0 \<and>
      api_middleware_wrapper S routes cfg rid tid buf_ok request rq arg now st =
        bind_outcome (server_enqueue_task routes cfg rid tid buf_ok request rq ctx now (Some (fst (server_extract_client_ip cfg rq))) st)
          (\<lambda>(calls, st'). Ret (before @ calls, st')))"
proof (cases arg)
  case None
  with assms show ?thesis by (auto simp: api_middleware_wrapper_def split: prod.split)
next
  case (Some ctx)
  obtain ip ws where i: "server_extract_client_ip cfg rq = (ip, ws)" by (cases "server_extract_client_ip cfg rq")
  define before where "before = inject_security_headers @ map (\<lambda>(level, msg). Write_log level msg) ws"
  have b: "answers before = 0"
    by (simp add: before_def)
  obtain cok ccalls where c: "server_validate_cors cfg rq ip = (cok, ccalls)" by (cases "server_validate_cors cfg rq ip")
  obtain aok acalls where a: "server_validate_method_and_auth S cfg rq (routes ! ctx) = (aok, acalls)"
    by (cases "server_validate_method_and_auth S cfg rq (routes ! ctx)")
  have ca: "answers ccalls = (if cok then 0 else 1)"
    "cok \<longleftrightarrow> (case rq_header rq ''Origin'' of None \<Rightarrow> True | Some orig \<Rightarrow> config_is_origin_allowed cfg (Some orig))"
    using c by (auto simp: server_validate_cors_def split: option.splits if_splits)
  have aa: "answers acalls = (if aok then 0 else 1)" "aok \<longleftrightarrow> rq_command rq = allowed_method (routes ! ctx) \<and>
      (auth_mode (routes ! ctx) = AUTH_API_KEY \<longrightarrow> validate_telemetry_api_key S cfg rq)"
    using a by (auto simp: server_validate_method_and_auth_def split: if_splits)
  note w = api_middleware_wrapper_def [of S routes cfg rid tid buf_ok request rq "Some ctx" now st, unfolded i prod.case Let_def before_def [symmetric]]
  show ?thesis
  proof (cases "handler (routes ! ctx) \<noteq> None \<and> cok \<and> rq_command rq \<noteq> EVHTTP_REQ_OPTIONS \<and> aok")
    case True
    then have "admissible S cfg rq (routes ! ctx)"
      using ca(2) aa(2) by (auto simp: admissible_def)
    moreover have "api_middleware_wrapper S routes cfg rid tid buf_ok request rq arg now st =
        bind_outcome (server_enqueue_task routes cfg rid tid buf_ok request rq ctx now (Some (fst (server_extract_client_ip cfg rq))) st)
          (\<lambda>(calls, st'). Ret ((before @ ccalls) @ calls, st'))"
      using True Some assms c a by (auto simp: w i)
    moreover have "answers (before @ ccalls) = 0"
      using ca(1) b True by simp
    ultimately show ?thesis
      using Some by blast
  next
    case False
    then show ?thesis
      using Some assms c a b ca(1) aa(1) by (auto simp: w)
  qed
qed

text \<open>C10: the middleware never loses a request, a task or an answer, and never answers twice. With a task pool in any reachable state
  it returns. A request without a connection is left alone. Otherwise it either sends exactly one reply, leaves both worker
  queues as they were and leaves exactly the same tasks leased as before, so that a task taken for a request that turns out
  too long or does not fit the queue is given back; or it sends no reply, takes ownership of the request and appends to the
  queue of the route's pool one task that nobody else holds and that carries the request's URI, address, request id and
  route unshortened, this task being the only one leased in addition. The second happens only for a permitted origin, the
  route's method, and with a valid key where the route asks for one.\<close>

theorem middleware_one_answer:
  assumes "reach pool_start pool_step (sv_tasks st, L)"
  shows "\<exists>calls st'. api_middleware_wrapper S routes cfg rid tid buf_ok request rq arg now st = Ret (calls, st') \<and>
    (if rq_connection rq = None then answers calls = 0 \<and> st' = st
     else answers calls = 1 \<and> sv_fast st' = sv_fast st \<and> sv_slow st' = sv_slow st \<and> pool_inv L (sv_tasks st') \<or>
       answers calls = 0 \<and> Own_request \<in> set calls \<and>
       (\<exists>ctx a. arg = Some ctx \<and> admissible S cfg rq (routes ! ctx) \<and> a \<notin> L \<and> pool_inv (insert a L) (sv_tasks st') \<and>
          carries request ctx rid now rq (fst (server_extract_client_ip cfg rq)) (sv_heap st' a) \<and>
          pool_tail (route_queue (is_fast (routes ! ctx)) st') = Some a \<and>
          pool_size (route_queue (is_fast (routes ! ctx)) st') = pool_size (route_queue (is_fast (routes ! ctx)) st) + 1 \<and>
          route_queue (\<not> is_fast (routes ! ctx)) st' = route_queue (\<not> is_fast (routes ! ctx)) st))"
proof (cases "rq_connection rq = None")
  case True
  then show ?thesis by (simp add: api_middleware_wrapper_def)
next
  case False
  have inv: "pool_inv L (sv_tasks st)"
    using pool.reach_inv [OF assms(1)] by (simp add: pool_system_inv_def)
  let ?ip = "fst (server_extract_client_ip cfg rq)"
  consider (answered) calls where "answers calls = 1"
      "api_middleware_wrapper S routes cfg rid tid buf_ok request rq arg now st = Ret (calls, st)"
    | (passed) ctx before where "arg = Some ctx" "admissible S cfg rq (routes ! ctx)" "answers before = 0"
      "api_middleware_wrapper S routes cfg rid tid buf_ok request rq arg now st =
        bind_outcome (server_enqueue_task routes cfg rid tid buf_ok request rq ctx now (Some ?ip) st)
          (\<lambda>(calls, st'). Ret (before @ calls, st'))"
    using middleware_cases [OF False, of S routes cfg rid tid buf_ok request arg now st] by blast
  then show ?thesis
  proof cases
    case answered
    with inv False show ?thesis by simp
  next
    case passed
    note spec = server_enqueue_task_spec [OF inv, of routes cfg rid tid buf_ok request rq ctx now ?ip]
    then obtain calls st' where e: "server_enqueue_task routes cfg rid tid buf_ok request rq ctx now (Some ?ip) st = Ret (calls, st')"
      by blast
    have "api_middleware_wrapper S routes cfg rid tid buf_ok request rq arg now st = Ret (before @ calls, st')"
      using passed(4) e by simp
    moreover have "answers (before @ calls) = answers calls"
      using passed(3) by simp
    ultimately show ?thesis
      using spec e passed(1,2) False by (intro exI [of _ "before @ calls"] exI [of _ st']) auto
  qed
qed

definition sample_server :: "nat server_state" where
  "sample_server = \<lparr>sv_tasks = small_pool, sv_fast = zero_pool, sv_slow = zero_pool\<rparr>"

definition plain_request :: http_request where
  "plain_request = \<lparr>rq_header = (\<lambda>_. None), rq_command = EVHTTP_REQ_GET, rq_uri = ''/ping'', rq_connection = Some (Some ''10.0.0.9''),
     rq_chunks = []\<rparr>"

definition plain_route :: "(nat, unit) middleware_ctx_t" where
  "plain_route = \<lparr>route_path = ''/ping'', validation_ctx = None, handler = Some (\<lambda>_ s. Some s), allowed_method = EVHTTP_REQ_GET,
     auth_mode = AUTH_NONE, is_fast = True\<rparr>"

text \<open>A request for the sample route is passed on; with a URI that is too long it is answered.\<close>

lemma sample_passed:
  "\<exists>st'. api_middleware_wrapper ref_sodium [plain_route] initial_config 0 0 True 7 plain_request (Some 0) (0, 0) sample_server =
     Ret (inject_security_headers @ [Set_on_complete, Own_request], st')"
  using small_pool_lease
  by (simp add: api_middleware_wrapper_def server_enqueue_task_def sample_server_def plain_request_def plain_route_def
      server_extract_client_ip_def server_get_client_ip_fast_def server_validate_cors_def server_validate_method_and_auth_def
      small_pool_leased_def update_task_def store_def fill_task_def sv_enqueue_def worker_pool_enqueue_def pool_enqueue_def zero_pool_def
      sv_heap_def initial_config_def Let_def)

lemma small_pool_leased_reachable: "reach pool_start pool_step (small_pool_leased, {0})"
  using reach_step [OF small_pool_reachable pool_step.lease [OF small_pool_lease, of "{}"]] by simp

lemma sample_refused:
  "\<exists>st'. api_middleware_wrapper ref_sodium [plain_route] initial_config 0 0 True 7 (plain_request\<lparr>rq_uri := replicate 1024 (CHR ''x'')\<rparr>)
      (Some 0) (0, 0) sample_server =
     Ret (inject_security_headers @ reply_error HTTP_BADREQUEST ''Bad Request'' ''Request Headers or URI Too Long'', st')"
proof -
  obtain pool where "task_pool_free 0 (Some 0) small_pool_leased = Ret pool"
    using free_leased [of "{0}" small_pool_leased 0 0] pool.reach_inv [OF small_pool_leased_reachable]
    by (auto simp: pool_system_inv_def)
  then show ?thesis
    using small_pool_lease
    by (simp add: api_middleware_wrapper_def server_enqueue_task_def sample_server_def plain_request_def plain_route_def
        server_extract_client_ip_def server_get_client_ip_fast_def server_validate_cors_def server_validate_method_and_auth_def Let_def)
qed

theorem middleware_one_answer_witness:
  "(\<exists>calls st' a. api_middleware_wrapper ref_sodium [plain_route] initial_config 0 0 True 7 plain_request (Some 0) (0, 0) sample_server =
      Ret (calls, st') \<and> answers calls = 0 \<and> pool_inv {a} (sv_tasks st') \<and> pool_tail (sv_fast st') = Some a \<and> pool_size (sv_fast st') = 1) \<and>
   (\<exists>calls st'. api_middleware_wrapper ref_sodium [plain_route] initial_config 0 0 True 7 (plain_request\<lparr>rq_uri := replicate 1024 (CHR ''x'')\<rparr>)
      (Some 0) (0, 0) sample_server = Ret (calls, st') \<and> answers calls = 1 \<and> pool_inv {} (sv_tasks st'))"
proof
  have r: "reach pool_start pool_step (sv_tasks sample_server, {})"
    using small_pool_reachable by (simp add: sample_server_def)
  note t = middleware_one_answer [OF r, of ref_sodium "[plain_route]" initial_config 0 0 True 7]
  show "\<exists>calls st' a. api_middleware_wrapper ref_sodium [plain_route] initial_config 0 0 True 7 plain_request (Some 0) (0, 0) sample_server =
      Ret (calls, st') \<and> answers calls = 0 \<and> pool_inv {a} (sv_tasks st') \<and> pool_tail (sv_fast st') = Some a \<and> pool_size (sv_fast st') = 1"
    using sample_passed t [of plain_request "Some 0" "(0, 0)"]
    by (auto simp: plain_route_def plain_request_def route_queue_def sample_server_def zero_pool_def)
  show "\<exists>calls st'. api_middleware_wrapper ref_sodium [plain_route] initial_config 0 0 True 7 (plain_request\<lparr>rq_uri := replicate 1024 (CHR ''x'')\<rparr>)
      (Some 0) (0, 0) sample_server = Ret (calls, st') \<and> answers calls = 1 \<and> pool_inv {} (sv_tasks st')"
    using sample_refused t [of "plain_request\<lparr>rq_uri := replicate 1024 (CHR ''x'')\<rparr>" "Some 0" "(0, 0)"]
    by (auto simp: plain_request_def)
qed

text \<open>C29: the telemetry key check accepts exactly the configured, non-empty key: the compared key is the \<open>X-API-Key\<close>
  header, or without one the text after \<open>Bearer\<close>, up to 1023 bytes, and both are compared whole.\<close>

theorem api_key_exact:
  assumes "sodium_ok S" "length (g_telemetry_api_key cfg) < MAX_CONFIG_STR" "CHR 0x00 \<notin> set (g_telemetry_api_key cfg)"
    "\<forall>h k. rq_header rq h = Some k \<longrightarrow> CHR 0x00 \<notin> set k"
  shows "validate_telemetry_api_key S cfg rq \<longleftrightarrow> g_telemetry_api_key cfg \<noteq> [] \<and>
    (case rq_header rq ''X-API-Key'' of
       Some k \<Rightarrow> take 1023 k = g_telemetry_api_key cfg
     | None \<Rightarrow> (\<exists>b. rq_header rq ''Authorization'' = Some b \<and> strncasecmp_eq b ''Bearer '' 7 \<and> take 1023 (drop 7 b) = g_telemetry_api_key cfg))"
proof -
  have key: "sodium_memcmp S (zero_padded MAX_CONFIG_STR (strlcpy k MAX_CONFIG_STR)) (zero_padded MAX_CONFIG_STR (g_telemetry_api_key cfg)) = 0 \<and>
      strlcpy k MAX_CONFIG_STR \<noteq> [] \<longleftrightarrow> take 1023 k = g_telemetry_api_key cfg"
    if "CHR 0x00 \<notin> set k" "g_telemetry_api_key cfg \<noteq> []" for k
  proof -
    have p: "strlcpy k MAX_CONFIG_STR = take 1023 k"
      by (simp add: strlcpy_def MAX_CONFIG_STR_def)
    have "CHR 0x00 \<notin> set (take 1023 k)" "length (take 1023 k) < MAX_CONFIG_STR"
      using that(1) by (auto simp: MAX_CONFIG_STR_def dest: in_set_takeD)
    then show ?thesis
      unfolding p using api_key_match [OF assms(1), of "take 1023 k" "g_telemetry_api_key cfg"] assms(2,3) that(2) by auto
  qed
  have bearer: "CHR 0x00 \<notin> set (drop 7 b)" if "rq_header rq ''Authorization'' = Some b" for b
    using assms(4) that by (auto dest: in_set_dropD)
  show ?thesis
    using key [of "the (rq_header rq ''X-API-Key'')"] key [of "drop 7 (the (rq_header rq ''Authorization''))"] bearer assms(4)
    by (auto simp: validate_telemetry_api_key_def Let_def split: option.split)
qed

theorem api_key_exact_witness:
  "validate_telemetry_api_key ref_sodium (initial_config\<lparr>g_telemetry_api_key := ''k1''\<rparr>)
     (plain_request\<lparr>rq_header := (\<lambda>h. if h = ''X-API-Key'' then Some ''k1'' else None)\<rparr>)"
  using api_key_exact [OF ref_sodium_ok, of "initial_config\<lparr>g_telemetry_api_key := ''k1''\<rparr>"
    "plain_request\<lparr>rq_header := (\<lambda>h. if h = ''X-API-Key'' then Some ''k1'' else None)\<rparr>"]
  by (simp add: MAX_CONFIG_STR_def)

text \<open>C30: clients cannot choose the address they are logged and limited by: unless the peer is the configured proxy (one address), the
  extracted address does not depend on \<open>X-Forwarded-For\<close>; and behind the proxy it is the last entry of the list, the
  one the proxy appended, cut to an address's length.\<close>

theorem client_ip_not_spoofable:
  assumes "CHR 0x2C \<notin> set b"
  shows "(g_trust_proxy_ip cfg = [] \<or> rq_connection rq \<noteq> Some (Some (g_trust_proxy_ip cfg)) \<longrightarrow>
      fst (server_extract_client_ip cfg (rq\<lparr>rq_header := hs\<rparr>)) = fst (server_extract_client_ip cfg rq)) \<and>
    (fst (is_trusted_proxy cfg rq) \<and> rq_header rq ''X-Forwarded-For'' = Some (a @ '','' @ b) \<longrightarrow>
      fst (server_extract_client_ip cfg rq) = take 45 (dropWhile (\<lambda>c. c = CHR 0x20) b))"
proof (intro conjI impI)
  assume "g_trust_proxy_ip cfg = [] \<or> rq_connection rq \<noteq> Some (Some (g_trust_proxy_ip cfg))"
  then have "\<not> fst (is_trusted_proxy cfg rq)" "\<not> fst (is_trusted_proxy cfg (rq\<lparr>rq_header := hs\<rparr>))"
    by (auto simp: is_trusted_proxy_def server_get_client_ip_fast_def Let_def split: option.splits if_splits)
  then show "fst (server_extract_client_ip cfg (rq\<lparr>rq_header := hs\<rparr>)) = fst (server_extract_client_ip cfg rq)"
    by (simp add: extract_untrusted)
next
  assume "fst (is_trusted_proxy cfg rq) \<and> rq_header rq ''X-Forwarded-For'' = Some (a @ '','' @ b)"
  moreover have "strrchr_after (a @ '','' @ b) (CHR 0x2C) = Some b"
    using assms by (simp add: strrchr_after_def takeWhile_append takeWhile_eq_all_conv)
  ultimately show "fst (server_extract_client_ip cfg rq) = take 45 (dropWhile (\<lambda>c. c = CHR 0x20) b)"
    by (simp add: server_extract_client_ip_def INET6_ADDRSTRLEN_def)
qed

theorem client_ip_not_spoofable_witness:
  "fst (server_extract_client_ip (initial_config\<lparr>g_trust_proxy_ip := ''10.0.0.9''\<rparr>)
     (plain_request\<lparr>rq_header := (\<lambda>h. if h = ''X-Forwarded-For'' then Some (''6.6.6.6'' @ '','' @ '' 192.0.2.1'') else None)\<rparr>)) = ''192.0.2.1''"
  using client_ip_not_spoofable [of "'' 192.0.2.1''" "initial_config\<lparr>g_trust_proxy_ip := ''10.0.0.9''\<rparr>"
    "plain_request\<lparr>rq_header := (\<lambda>h. if h = ''X-Forwarded-For'' then Some (''6.6.6.6'' @ '','' @ '' 192.0.2.1'') else None)\<rparr>"
    "\<lambda>_. None" "''6.6.6.6''"]
  by (simp add: is_trusted_proxy_def server_get_client_ip_fast_def plain_request_def)


section \<open>Statistics\<close>

lemma fold_sum: "fold (\<lambda>r acc. acc + f r) s (a :: 64 word) = a + sum_list (map f s)"
  by (induction s arbitrary: a) (simp_all add: add.assoc)

lemma sum_list_replace:
  fixes f :: "'a \<Rightarrow> 64 word"
  assumes "i < length s"
  shows "sum_list (map f (s[i := x])) = sum_list (map f s) + (f x - f (s ! i))"
  using assms
proof (induction s arbitrary: i)
  case (Cons y s)
  then show ?case by (cases i) (auto simp: algebra_simps)
qed simp

text \<open>A history of finished requests: reactor, elapsed time and whether the route is fast.\<close>

type_synonym finished = "nat \<times> int \<times> bool"

fun record_all :: "finished list \<Rightarrow> reactor_stats list option \<Rightarrow> reactor_stats list option" where
  "record_all [] stats = stats"
| "record_all ((rid, ms, fast) # es) stats = record_all es (server_record_request_stats rid ms fast stats)"

definition stats_of :: "(finished \<Rightarrow> bool) \<Rightarrow> finished list \<Rightarrow> 64 word \<times> 64 word" where
  "stats_of P es = (word_of_nat (length (filter P es)), word_of_int (sum_list (map (\<lambda>(_, ms, _). ms) (filter P es))))"

lemma record_all_sums:
  assumes "\<forall>(rid, ms, fast) \<in> set es. rid < length s"
  shows "\<exists>s'. record_all es (Some s) = Some s' \<and> length s' = length s \<and>
    sum_list (map total_requests_fast s') = sum_list (map total_requests_fast s) + fst (stats_of (\<lambda>(_, _, fast). fast) es) \<and>
    sum_list (map total_time_fast_ms s') = sum_list (map total_time_fast_ms s) + snd (stats_of (\<lambda>(_, _, fast). fast) es) \<and>
    sum_list (map total_requests_slow s') = sum_list (map total_requests_slow s) + fst (stats_of (\<lambda>(_, _, fast). \<not> fast) es) \<and>
    sum_list (map total_time_slow_ms s') = sum_list (map total_time_slow_ms s) + snd (stats_of (\<lambda>(_, _, fast). \<not> fast) es)"
  using assms
proof (induction es arbitrary: s)
  case Nil
  then show ?case by (simp add: stats_of_def)
next
  case (Cons e es)
  obtain rid ms fast where e: "e = (rid, ms, fast)" by (cases e)
  define s1 where "s1 = the (server_record_request_stats rid ms fast (Some s))"
  have s1: "server_record_request_stats rid ms fast (Some s) = Some s1" "length s1 = length s"
    by (simp_all add: s1_def server_record_request_stats_def)
  have rid: "rid < length s"
    using Cons.prems e by auto
  obtain s' where s': "record_all es (Some s1) = Some s'" "length s' = length s1"
    "sum_list (map total_requests_fast s') = sum_list (map total_requests_fast s1) + fst (stats_of (\<lambda>(_, _, fast). fast) es)"
    "sum_list (map total_time_fast_ms s') = sum_list (map total_time_fast_ms s1) + snd (stats_of (\<lambda>(_, _, fast). fast) es)"
    "sum_list (map total_requests_slow s') = sum_list (map total_requests_slow s1) + fst (stats_of (\<lambda>(_, _, fast). \<not> fast) es)"
    "sum_list (map total_time_slow_ms s') = sum_list (map total_time_slow_ms s1) + snd (stats_of (\<lambda>(_, _, fast). \<not> fast) es)"
    using Cons.IH [of s1] Cons.prems s1(2) by auto
  have step: "sum_list (map total_requests_fast s1) = sum_list (map total_requests_fast s) + (if fast then 1 else 0)"
    "sum_list (map total_time_fast_ms s1) = sum_list (map total_time_fast_ms s) + (if fast then word_of_int ms else 0)"
    "sum_list (map total_requests_slow s1) = sum_list (map total_requests_slow s) + (if fast then 0 else 1)"
    "sum_list (map total_time_slow_ms s1) = sum_list (map total_time_slow_ms s) + (if fast then 0 else word_of_int ms)"
    using rid by (simp_all add: s1_def server_record_request_stats_def sum_list_replace)
  show ?case
    using s' step s1 e by (cases fast) (simp_all add: stats_of_def)
qed

text \<open>The statistics are exact: after any history of finished requests on \<open>n\<close> reactors the aggregated counters are
  the number of fast and of slow requests and the sums of their times (in 64-bit arithmetic), the totals are their
  sums, and an average is the quotient, or 0 without requests.\<close>

theorem request_stats_exact:
  assumes "\<forall>(rid, ms, fast) \<in> set es. rid < n"
  shows "server_get_request_stats (record_all es (Some (replicate n zero_stats))) =
    (let (rf, tf) = stats_of (\<lambda>(_, _, fast). fast) es; (rs, ts) = stats_of (\<lambda>(_, _, fast). \<not> fast) es
     in \<lparr>rs_total_requests = word_of_nat (length es), rs_total_requests_fast = rf, rs_total_requests_slow = rs,
         rs_total_time_ms = tf + ts, rs_total_time_fast_ms = tf, rs_total_time_slow_ms = ts,
         rs_avg_time_fast_ms = (if rf \<noteq> 0 then tf div rf else 0), rs_avg_time_slow_ms = (if rs \<noteq> 0 then ts div rs else 0)\<rparr>)"
proof -
  have zero: "sum_list (map total_requests_fast (replicate n zero_stats)) = 0" "sum_list (map total_time_fast_ms (replicate n zero_stats)) = 0"
    "sum_list (map total_requests_slow (replicate n zero_stats)) = 0" "sum_list (map total_time_slow_ms (replicate n zero_stats)) = 0"
    by (simp_all add: zero_stats_def sum_list_replicate)
  have "length (filter (\<lambda>(_, _, fast). fast) es) + length (filter (\<lambda>(_, _, fast). \<not> fast) es) = length es"
    by (induction es) auto
  then have total: "fst (stats_of (\<lambda>(_, _, fast). fast) es) + fst (stats_of (\<lambda>(_, _, fast). \<not> fast) es) = word_of_nat (length es)"
    by (simp add: stats_of_def flip: of_nat_add)
  have "\<forall>(rid, ms, fast) \<in> set es. rid < length (replicate n zero_stats)"
    using assms by simp
  from record_all_sums [OF this] show ?thesis
    using total zero by (auto simp: server_get_request_stats_def fold_sum Let_def split: prod.split)
qed

theorem request_stats_exact_witness:
  "rs_total_requests (server_get_request_stats (record_all [(0, 3, True), (1, 5, False)] (Some (replicate 2 zero_stats)))) = 2"
  using request_stats_exact [of "[(0, 3, True), (1, 5, False)]" 2] by (simp add: stats_of_def Let_def)

text \<open>The elapsed time is within a millisecond of the exact one and never negative on a monotonic clock.\<close>

lemma c_div_error:
  assumes "0 < b"
  shows "\<bar>b * c_div a b - a\<bar> < b"
proof -
  have q: "b * (\<bar>a\<bar> div b) = \<bar>a\<bar> - \<bar>a\<bar> mod b"
    by (simp add: minus_mod_eq_mult_div)
  have "b * c_div a b = sgn a * (b * (\<bar>a\<bar> div b))"
    using assms by (simp add: c_div_def)
  also have "\<dots> = a - sgn a * (\<bar>a\<bar> mod b)"
    unfolding q by (simp add: right_diff_distrib sgn_mult_abs)
  finally have "b * c_div a b - a = - (sgn a * (\<bar>a\<bar> mod b))"
    by simp
  then have "\<bar>b * c_div a b - a\<bar> \<le> \<bar>a\<bar> mod b"
    using assms by (simp add: abs_mult abs_sgn_eq)
  then show ?thesis
    using pos_mod_bound [OF assms, of "\<bar>a\<bar>"] by linarith
qed

lemma measure_elapsed_bounds:
  "\<bar>1000000 * measure_elapsed_ms start stop - (1000000000 * (fst stop - fst start) + (snd stop - snd start))\<bar> < 1000000"
  using c_div_error [of 1000000 "snd stop - snd start"] by (simp add: measure_elapsed_ms_def Let_def algebra_simps)


section \<open>Completion\<close>

text \<open>The replies among a list of calls, and the body and content types they are sent with.\<close>

fun replies :: "http_call list \<Rightarrow> (int \<times> cstring_ptr) list" where
  "replies [] = []"
| "replies (Send_reply code reason # cs) = (code, reason) # replies cs"
| "replies (Send_error code reason # cs) = (code, Some reason) # replies cs"
| "replies (_ # cs) = replies cs"

fun sent_body :: "http_call list \<Rightarrow> string" where
  "sent_body [] = []"
| "sent_body (Add_body b # cs) = b @ sent_body cs"
| "sent_body (_ # cs) = sent_body cs"

fun content_types :: "http_call list \<Rightarrow> cstring list" where
  "content_types [] = []"
| "content_types (Add_header name val # cs) = (if name = ''Content-Type'' then val # content_types cs else content_types cs)"
| "content_types (_ # cs) = content_types cs"

text \<open>C31: a finished task is answered exactly once with its own status and body, or not at all when its client has gone, and always
  returned to the pool. For a task some thread holds, handling it never aborts. If the task is cancelled its request is
  freed and nothing is sent or counted. Otherwise one reply goes out with the task's status and status text. Its body is
  what the worker wrote, with the task's content type (JSON by default); without any body an error status gets its text
  as a JSON error, and the status 500 gets \<open>Internal Server Error\<close>. The request is counted in the statistics, and
  exactly this task becomes free again.\<close>

theorem completion_one_reply:
  assumes "reach pool_start pool_step (sv_tasks st, L)" "a \<in> L"
  defines "task \<equiv> sv_heap st a"
  defines "body \<equiv> (case worker_buf task of Some b \<Rightarrow> b | None \<Rightarrow> [])"
  shows "\<exists>calls logs st' stats'.
    reactor_handle_task routes cfg rid tid stop out_buf has_type a (st, stats) = Ret (calls, logs, st', stats') \<and>
    pool_inv (L - {a}) (sv_tasks st') \<and> a \<in> set (tl_cache (sv_tasks st') tid) \<and> sv_fast st' = sv_fast st \<and> sv_slow st' = sv_slow st \<and>
    (if cancelled task then calls = (if req task \<noteq> None then [Free_request] else []) \<and> stats' = stats
     else stats' = server_record_request_stats rid (measure_elapsed_ms (start_time task) stop)
         (case middleware_ctx task of Some i \<Rightarrow> is_fast (routes ! i) | None \<Rightarrow> False) stats \<and>
       (if out_buf @ body \<noteq> []
        then replies calls = [(status_code task, status_txt task)] \<and> sent_body calls = body \<and>
          content_types calls = (if out_content_type task \<noteq> [] then [out_content_type task]
            else if has_type then [] else [''application/json''])
        else if status_code task \<ge> 400
        then replies calls = [(status_code task, if status_code task = HTTP_INTERNAL then Some ''Internal Server Error'' else status_txt task)] \<and>
          sent_body calls = snprintf (error_json (if status_code task = HTTP_INTERNAL then ''Internal Server Error''
            else case status_txt task of Some s \<Rightarrow> s | None \<Rightarrow> ''Error'')) 256 \<and>
          content_types calls = (if has_type then [] else [''application/json''])
        else replies calls = [(status_code task, status_txt task)] \<and> sent_body calls = [] \<and> content_types calls = []))"
proof -
  have inv: "pool_inv L (sv_tasks st)"
    using pool.reach_inv [OF assms(1)] by (simp add: pool_system_inv_def)
  obtain pool' where p: "task_pool_free tid (Some a) (sv_tasks st) = Ret pool'" "a \<in> set (tl_cache pool' tid)" "pool_inv (L - {a}) pool'"
    using free_leased [OF inv assms(2), of tid] by auto
  show ?thesis
  proof (cases "cancelled task")
    case True
    with p show ?thesis
      by (simp add: reactor_handle_task_def cleanup_cancelled_task_def task_def)
  next
    case False
    then show ?thesis
      using p unfolding reactor_handle_task_def process_completed_task_def Let_def fst_conv snd_conv prod.case task_def [symmetric]
        body_def [symmetric] by (auto simp: send_http_reply_def)
  qed
qed

theorem completion_one_reply_witness:
  "\<exists>calls logs st' stats'. reactor_handle_task [] initial_config 0 0 (1, 0) ''x'' False 0
      (\<lparr>sv_tasks = small_pool_leased, sv_fast = zero_pool, sv_slow = zero_pool\<rparr>, None) = Ret (calls, logs, st', stats') \<and>
    0 \<in> set (tl_cache (sv_tasks st') 0) \<and> replies calls = [(status_code fresh_task, status_txt (fresh_task :: nat http_task))] \<and>
    content_types calls = [''application/json'']"
proof -
  have t: "sv_heap \<lparr>sv_tasks = small_pool_leased, sv_fast = zero_pool, sv_slow = zero_pool\<rparr> 0 = fresh_task"
    by (simp add: sv_heap_def small_pool_leased_def)
  show ?thesis
    using completion_one_reply [of "\<lparr>sv_tasks = small_pool_leased, sv_fast = zero_pool, sv_slow = zero_pool\<rparr>" "{0}" 0
      "[]" initial_config 0 0 "(1, 0)" "''x''" False None] small_pool_leased_reachable
    unfolding t by (auto simp: fresh_task_def zero_task_def)
qed

end
