(* ===== verification/HttpClient.thy ===== *)
theory HttpClient
  imports Config Context JsonApi
begin

text \<open>
  Model of \<open>lib/http_client.c\<close>: the growing response buffer, the construction of a request and its outcome.

  libcurl is a parameter: a function from the options of a request to a transfer, which says what is delivered to the
  write callback and how the transfer ends by itself. As libcurl documents, a callback that returns another number
  than it was given ends the transfer with \<open>CURLE_WRITE_ERROR\<close>. A store outside the buffer is \<open>None\<close>.
\<close>

section \<open>The response buffer\<close>

definition HTTP_CLIENT_CHUNK_SIZE :: nat where
  "HTTP_CLIENT_CHUNK_SIZE = 4096"

text \<open>The allocated block and the two sizes.\<close>

record memory_struct =
  mem_memory :: "string option"
  mem_size :: "64 word"
  mem_capacity :: "64 word"

text \<open>\<open>realloc\<close>, whose new bytes have an unspecified value.\<close>

definition resize :: "char \<Rightarrow> string option \<Rightarrow> nat \<Rightarrow> string" where
  "resize junk blk n = (let b = (case blk of Some b \<Rightarrow> b | None \<Rightarrow> []) in take n b @ replicate (n - length b) junk)"

text \<open>The new capacity: doubled, and at least what is required.\<close>

definition grown :: "64 word \<Rightarrow> 64 word \<Rightarrow> 64 word" where
  "grown cap req =
     (let doubled = (if unat cap * 2 \<ge> 2 ^ 64 then req else cap * 2) in if doubled < req then req else doubled)"

text \<open>The block after a successful \<open>realloc\<close>, if one was needed.\<close>

definition reserve :: "char \<Rightarrow> 64 word \<Rightarrow> memory_struct \<Rightarrow> memory_struct" where
  "reserve junk req mem =
     (let new_cap = grown (mem_capacity mem) req
      in if req > mem_capacity mem
         then mem\<lparr>mem_memory := Some (resize junk (mem_memory mem) (unat new_cap)), mem_capacity := new_cap\<rparr>
         else mem)"

text \<open>
  \<open>write_memory_cb\<close>: \<open>contents\<close> are the \<open>size * nmemb\<close> delivered bytes. The result is the returned number, the buffer
  and the thread error.
\<close>

definition write_memory_cb ::
  "64 word \<Rightarrow> char \<Rightarrow> bool \<Rightarrow> string \<Rightarrow> 64 word \<Rightarrow> 64 word \<Rightarrow> memory_struct \<times> thread_error \<Rightarrow>
     (64 word \<times> memory_struct \<times> thread_error) option"
where
  "write_memory_cb max_payload junk alloc_ok contents sz nmemb s =
     (let (mem, err) = s
      in if nmemb \<noteq> 0 \<and> sz > (- 1) div nmemb then Some (0, mem, err)
         else
           (let realsize = sz * nmemb;
                new_size = mem_size mem + realsize
            in if unat (mem_size mem) + unat realsize \<ge> 2 ^ 64 then Some (0, mem, err)
               else if new_size > max_payload then Some (0, mem, err)
               else if unat new_size + 1 \<ge> 2 ^ 64 then Some (0, mem, err)
               else
                 (let req_cap = new_size + 1
                  in if req_cap > mem_capacity mem \<and> \<not> alloc_ok
                     then Some (0, mem\<lparr>mem_memory := None, mem_size := 0, mem_capacity := 0\<rparr>,
                            set_thread_error TL_ERR_ERROR ''Out of memory in HTTP client write callback'' err)
                     else
                       (let mem1 = reserve junk req_cap mem
                        in case mem_memory mem1 of
                             None \<Rightarrow> None
                           | Some blk \<Rightarrow>
                               (case copy_into blk (unat (mem_size mem1)) (take (unat realsize) contents) of
                                  None \<Rightarrow> None
                                | Some blk1 \<Rightarrow>
                                    (case store blk1 (unat new_size) (CHR 0x00) of
                                       None \<Rightarrow> None
                                     | Some blk2 \<Rightarrow>
                                         Some (realsize, mem1\<lparr>mem_memory := Some blk2, mem_size := new_size\<rparr>, err)))))))"


section \<open>Requests\<close>

datatype curl_opt = Opt_long string int | Opt_string string cstring | Opt_headers "cstring list"

definition apply_curl_defaults :: "curl_opt list" where
  "apply_curl_defaults =
     [Opt_long ''TCP_KEEPALIVE'' 1, Opt_long ''TCP_KEEPIDLE'' 120, Opt_long ''TCP_KEEPINTVL'' 60,
      Opt_string ''WRITEFUNCTION'' ''write_memory_cb'', Opt_long ''NOSIGNAL'' 1, Opt_long ''TIMEOUT'' 10, Opt_long ''CONNECTTIMEOUT'' 5, Opt_long ''SSL_VERIFYPEER'' 1, Opt_long ''SSL_VERIFYHOST'' 2,
      Opt_string ''USERAGENT'' ''evhttp-apiserver/1.0'', Opt_string ''SSLVERSION'' ''TLSv1_2 | MAX_DEFAULT'',
      Opt_string ''PROTOCOLS_STR'' ''https,http'',
      Opt_long ''FOLLOWLOCATION'' 0]"

text \<open>
  A transfer: the blocks delivered to the callback (each with size 1), the result code, the HTTP status and the error
  texts. \<open>CURLE_OK\<close> is 0 and \<open>CURLE_WRITE_ERROR\<close> is 23.
\<close>

record transfer =
  tr_blocks :: "string list"
  tr_result :: nat
  tr_http_code :: int
  tr_strerror :: cstring
  tr_errbuf :: cstring

text \<open>
  The success of allocations during a request, for \<open>realloc\<close> by the number of bytes received so far, and the junk byte of
  fresh memory.
\<close>

record http_env =
  he_max_payload :: "64 word"
  he_curl :: bool
  he_chunk :: bool
  he_headers :: bool
  he_realloc :: "nat \<Rightarrow> bool"
  he_junk :: char

definition CURLE_WRITE_ERROR :: nat where
  "CURLE_WRITE_ERROR = 23"

text \<open>Delivering the blocks to the callback until one is refused.\<close>

fun deliver :: "http_env \<Rightarrow> string list \<Rightarrow> memory_struct \<times> thread_error \<Rightarrow> (bool \<times> memory_struct \<times> thread_error) option" where
  "deliver E [] s = Some (True, s)"
| "deliver E (b # bs) s =
     (case write_memory_cb (he_max_payload E) (he_junk E) (he_realloc E (unat (mem_size (fst s)))) b 1 (word_of_nat (length b)) s of
        None \<Rightarrow> None
      | Some (n, s1) \<Rightarrow> if n \<noteq> word_of_nat (length b) then Some (False, s1) else deliver E bs s1)"

text \<open>The options of a handle that was reset and set up for a request.\<close>

definition request_options :: "cstring \<Rightarrow> cstring_ptr \<Rightarrow> cstring list \<Rightarrow> curl_opt list" where
  "request_options url body headers =
     apply_curl_defaults @ [Opt_string ''URL'' url] @
     (case body of Some b \<Rightarrow> [Opt_string ''COPYPOSTFIELDS'' b, Opt_long ''POST'' 1] | None \<Rightarrow> [Opt_long ''HTTPGET'' 1]) @
     [Opt_headers headers]"

text \<open>\<open>setup_curl_request\<close>: the options, or \<open>None\<close> on failure, with the buffer and the thread error.\<close>

definition setup_curl_request ::
  "http_env \<Rightarrow> cstring \<Rightarrow> cstring_ptr \<Rightarrow> cstring list \<Rightarrow> memory_struct \<times> thread_error \<Rightarrow>
     curl_opt list option \<times> memory_struct \<times> thread_error"
where
  "setup_curl_request E url body headers s =
     (let (chunk, err) = s
      in if \<not> he_curl E then (None, chunk, err)
         else if \<not> he_chunk E
         then (None, chunk\<lparr>mem_memory := None\<rparr>,
           set_thread_error TL_ERR_ERROR ''Out of memory allocating initial chunk memory in do_http_request'' err)
         else
           (let chunk1 = \<lparr>mem_memory = Some ((replicate HTTP_CLIENT_CHUNK_SIZE (he_junk E))[0 := CHR 0x00]), mem_size = 0,
                  mem_capacity = word_of_nat HTTP_CLIENT_CHUNK_SIZE\<rparr>
            in if headers \<noteq> [] \<and> \<not> he_headers E
               then (None, chunk1, set_thread_error TL_ERR_ERROR ''Out of memory allocating curl headers'' err)
               else
                 (Some (request_options url body headers), chunk1, err)))"

definition build_request_url :: "cstring_ptr \<Rightarrow> cstring_ptr \<Rightarrow> nat \<Rightarrow> cstring option" where
  "build_request_url base_url uri max_len =
     (let text = (case (base_url, uri) of
          (Some b, Some u) \<Rightarrow> Some (b @ u)
        | (Some b, None) \<Rightarrow> Some b
        | (None, Some u) \<Rightarrow> Some u
        | (None, None) \<Rightarrow> None)
      in case text of None \<Rightarrow> None | Some t \<Rightarrow> if length t < max_len then Some t else None)"

text \<open>
  \<open>perform_http_request\<close>: whether it succeeded, the HTTP code (left as it is when the request cannot be set up), the
  buffer and the thread error.
\<close>

definition perform_http_request ::
  "(curl_opt list \<Rightarrow> transfer) \<Rightarrow> http_env \<Rightarrow> cstring_ptr \<Rightarrow> cstring_ptr \<Rightarrow> cstring_ptr \<Rightarrow> cstring list \<Rightarrow> int \<Rightarrow>
     memory_struct \<times> thread_error \<Rightarrow> (bool \<times> int \<times> memory_struct \<times> thread_error) option"
where
  "perform_http_request curl E base_url uri body headers http_code s =
     (case build_request_url base_url uri 1024 of
        None \<Rightarrow> Some (False, 500, fst s, set_thread_error TL_ERR_ERROR ''URL truncation error'' (snd s))
      | Some url \<Rightarrow>
          (case setup_curl_request E url body headers s of
             (None, s1) \<Rightarrow> Some (False, http_code, s1)
           | (Some opts, s1) \<Rightarrow>
               (let t = curl opts
                in case deliver E (tr_blocks t) s1 of
                     None \<Rightarrow> None
                   | Some (all, mem, err) \<Rightarrow>
                       (let res = (if \<not> all then CURLE_WRITE_ERROR else tr_result t)
                        in if res \<noteq> 0
                           then Some (False, 503, mem,
                             set_thread_error TL_ERR_ERROR (''libcurl network failure: '' @ tr_strerror t @ '' ('' @
                               (if tr_errbuf t \<noteq> [] then tr_errbuf t else ''no details'') @ '') | URL: '' @ url) err)
                           else
                             (let trunc_body = (case mem_memory mem of Some m \<Rightarrow> snprintf (c_str m) 256 | None \<Rightarrow> [])
                              in Some (True, tr_http_code t, mem,
                                   if tr_http_code t \<ge> 400
                                   then set_thread_error TL_ERR_ERROR (''HTTP '' @ dec_int (tr_http_code t) @ '' from '' @ url @
                                     '' | Response: '' @ (if trunc_body \<noteq> [] then trunc_body else ''<empty>'')) err
                                   else err))))))"

definition no_chunk :: memory_struct where
  "no_chunk = \<lparr>mem_memory = None, mem_size = 0, mem_capacity = 0\<rparr>"

text \<open>The response body as a C string, for \<open>do_http_request\<close> and \<open>http_client_post_raw\<close>.\<close>

definition http_client_post_raw ::
  "(curl_opt list \<Rightarrow> transfer) \<Rightarrow> http_env \<Rightarrow> cstring_ptr \<Rightarrow> cstring_ptr \<Rightarrow> cstring_ptr \<Rightarrow> cstring list \<Rightarrow> int \<Rightarrow> thread_error \<Rightarrow>
     (cstring_ptr \<times> int \<times> thread_error) option"
where
  "http_client_post_raw curl E base_url uri body headers http_code err =
     (case perform_http_request curl E base_url uri body headers http_code (no_chunk, err) of
        None \<Rightarrow> None
      | Some (ok, code, mem, err1) \<Rightarrow>
          Some (if ok \<and> mem_size mem > 0 then map_option c_str (mem_memory mem) else None, code, err1))"

definition do_http_request ::
  "(cstring \<Rightarrow> 'j option) \<Rightarrow> (curl_opt list \<Rightarrow> transfer) \<Rightarrow> http_env \<Rightarrow> cstring_ptr \<Rightarrow> cstring_ptr \<Rightarrow> cstring_ptr \<Rightarrow>
     cstring list \<Rightarrow> int \<Rightarrow> thread_error \<Rightarrow> ('j option \<times> int \<times> thread_error) option"
where
  "do_http_request json_tokener_parse curl E base_url uri body headers http_code err =
     map_option (\<lambda>(text, code, err1). (case text of None \<Rightarrow> None | Some t \<Rightarrow> json_tokener_parse t, code, err1))
       (http_client_post_raw curl E base_url uri body headers http_code err)"

definition http_client_get_json where
  "http_client_get_json json_tokener_parse curl E base_url uri headers http_code err =
     do_http_request json_tokener_parse curl E base_url uri None headers http_code err"

definition http_client_post_json where
  "http_client_post_json json_tokener_parse curl E base_url uri body headers http_code err =
     do_http_request json_tokener_parse curl E base_url uri body headers http_code err"


section \<open>What the buffer holds\<close>

text \<open>The buffer holds exactly the bytes, terminated, in a block of the recorded capacity.\<close>

definition http_holds :: "memory_struct \<Rightarrow> string \<Rightarrow> bool" where
  "http_holds mem bs \<longleftrightarrow>
     (\<exists>rest. mem_memory mem = Some (bs @ CHR 0x00 # rest) \<and> unat (mem_capacity mem) = Suc (length bs + length rest)) \<and>
     unat (mem_size mem) = length bs"

lemma store_tail:
  "rest \<noteq> [] \<Longrightarrow> length bs = n \<Longrightarrow> store (bs @ rest) n c = Some (bs @ c # tl rest)"
  by (cases rest) (auto simp: store_def list_update_append)

lemma copy_and_terminate:
  assumes "length bs = n" "n + length cs < length (bs @ rest)"
  shows "\<exists>blk1. copy_into (bs @ rest) n cs = Some blk1 \<and>
    store blk1 (n + length cs) (CHR 0x00) = Some ((bs @ cs) @ CHR 0x00 # drop (Suc (length cs)) rest)"
proof -
  have "length cs < length rest"
    using assms by simp
  then show ?thesis
    using assms store_tail [of "drop (length cs) rest" "bs @ cs" "n + length cs" "CHR 0x00"]
    by (simp add: copy_into_tail tl_drop drop_Suc)
qed

lemma length_resize [simp]: "length (resize junk blk n) = n"
  by (cases blk) (simp_all add: resize_def)

lemma resize_keeps: "length bs \<le> n \<Longrightarrow> \<exists>rest. resize junk (Some (bs @ xs)) n = bs @ rest"
  by (simp add: resize_def)

lemma word_of_nat_small: "n < 2 ^ 64 \<Longrightarrow> unat (word_of_nat n :: 64 word) = n"
  by (simp add: unat_of_nat take_bit_nat_eq_self)

lemma unat_add_small:
  fixes x y :: "64 word"
  shows "unat x + unat y < 2 ^ 64 \<Longrightarrow> unat (x + y) = unat x + unat y"
  by (simp add: unat_word_ariths)

lemma grown_bounds:
  assumes "unat cap < unat req"
  shows "unat req \<le> unat (grown cap req)" "unat (grown cap req) \<le> 2 * unat req"
  using assms unat_mult_lem [of cap 2] by (auto simp: grown_def Let_def word_less_nat_alt)


lemma no_product_overflow: "n \<noteq> 0 \<Longrightarrow> \<not> (1 :: 64 word) > (- 1) div n"
proof -
  assume "n \<noteq> 0"
  moreover have "unat n \<le> unat (- 1 :: 64 word)"
    by (simp add: word_le_nat_alt [symmetric])
  ultimately have "1 \<le> unat (- 1 :: 64 word) div unat n"
    by (metis div_greater_zero_iff gr0I less_eq_Suc_le One_nat_def unat_eq_zero)
  then show ?thesis
    by (simp add: word_less_nat_alt unat_div)
qed

text \<open>The verdict of the callback on a block delivered with size 1.\<close>

lemma write_refuses:
  assumes "unat (mem_size mem) + length b < 2 ^ 64" "unat (mem_size mem) + length b > unat mx"
  shows "write_memory_cb mx junk alloc_ok b 1 (word_of_nat (length b)) (mem, err) = Some (0, mem, err)"
  using assms no_product_overflow [of "word_of_nat (length b)"]
  by (auto simp: write_memory_cb_def Let_def word_of_nat_small unat_add_small word_less_nat_alt)

lemma write_without_memory:
  assumes "http_holds mem bs" "length bs + length b \<le> unat mx" "unat mx < 2 ^ 63"
    "unat (mem_capacity mem) \<le> length bs + length b"
  shows "write_memory_cb mx junk False b 1 (word_of_nat (length b)) (mem, err) =
    Some (0, mem\<lparr>mem_memory := None, mem_size := 0, mem_capacity := 0\<rparr>,
      set_thread_error TL_ERR_ERROR ''Out of memory in HTTP client write callback'' err)"
  using assms no_product_overflow [of "word_of_nat (length b)"]
  by (auto simp: write_memory_cb_def http_holds_def Let_def word_of_nat_small unat_add_small word_less_nat_alt)

text \<open>The block the bytes are copied into: the old one, or a larger copy of it.\<close>

lemma reserve_room:
  assumes "http_holds mem bs" "unat req = Suc (length bs + n)"
  shows "\<exists>rest. mem_memory (reserve junk req mem) = Some (bs @ rest) \<and>
    unat (mem_capacity (reserve junk req mem)) = length bs + length rest \<and> n < length rest \<and>
    unat (mem_capacity (reserve junk req mem)) \<le> max (unat (mem_capacity mem)) (2 * Suc (length bs + n)) \<and>
    mem_size (reserve junk req mem) = mem_size mem"
proof (cases "req > mem_capacity mem")
  case True
  obtain old where old: "mem_memory mem = Some (bs @ old)" and cap: "unat (mem_capacity mem) = length bs + length old"
    using assms(1) by (auto simp: http_holds_def)
  have g: "unat req \<le> unat (grown (mem_capacity mem) req)" "unat (grown (mem_capacity mem) req) \<le> 2 * unat req"
    using grown_bounds [of "mem_capacity mem" req] True by (simp_all add: word_less_nat_alt)
  obtain rest where r: "resize junk (mem_memory mem) (unat (grown (mem_capacity mem) req)) = bs @ rest"
    using resize_keeps [of bs "unat (grown (mem_capacity mem) req)" junk old] g(1) assms(2) old by auto
  have "length bs + length rest = unat (grown (mem_capacity mem) req)"
    using arg_cong [OF r, of length] by simp
  then show ?thesis
    using True g r assms(2) by (auto simp: reserve_def Let_def)
next
  case False
  then show ?thesis
    using assms by (auto simp: reserve_def http_holds_def word_less_nat_alt)
qed

lemma write_accepts:
  assumes "http_holds mem bs" "length bs + length b \<le> unat mx" "unat mx < 2 ^ 63"
    "alloc_ok \<or> length bs + length b < unat (mem_capacity mem)"
  shows "\<exists>mem1. write_memory_cb mx junk alloc_ok b 1 (word_of_nat (length b)) (mem, err) = Some (word_of_nat (length b), mem1, err) \<and>
    http_holds mem1 (bs @ b) \<and> unat (mem_capacity mem1) \<le> max (unat (mem_capacity mem)) (2 * Suc (unat mx))"
proof -
  define req where "req = mem_size mem + word_of_nat (length b) + 1"
  have sz: "unat (mem_size mem) = length bs" "unat (mem_size mem + word_of_nat (length b)) = length bs + length b"
    using assms by (simp_all add: http_holds_def word_of_nat_small unat_add_small)
  have r: "unat req = Suc (length bs + length b)"
    using assms(2,3) sz(2) unat_add_small [of "mem_size mem + word_of_nat (length b)" 1] by (simp add: req_def)
  obtain rest where t: "mem_memory (reserve junk req mem) = Some (bs @ rest)"
      "unat (mem_capacity (reserve junk req mem)) = length bs + length rest" "length b < length rest"
      "unat (mem_capacity (reserve junk req mem)) \<le> max (unat (mem_capacity mem)) (2 * Suc (length bs + length b))"
      "mem_size (reserve junk req mem) = mem_size mem"
    using reserve_room [OF assms(1) r, of junk] by auto
  obtain blk1 where c: "copy_into (bs @ rest) (length bs) b = Some blk1"
      "store blk1 (length bs + length b) (CHR 0x00) = Some ((bs @ b) @ CHR 0x00 # drop (Suc (length b)) rest)"
    using copy_and_terminate [of bs "length bs" b rest] t by auto
  have nomem: "\<not> (req > mem_capacity mem \<and> \<not> alloc_ok)"
    using assms(4) r by (auto simp: word_less_nat_alt)
  define mem1 where "mem1 = (reserve junk req mem)\<lparr>mem_memory := Some ((bs @ b) @ CHR 0x00 # drop (Suc (length b)) rest),
    mem_size := mem_size mem + word_of_nat (length b)\<rparr>"
  have nonz: "\<not> ((word_of_nat (length b) :: 64 word) \<noteq> 0 \<and> (1 :: 64 word) > (- 1) div word_of_nat (length b))"
    using no_product_overflow [of "word_of_nat (length b)"] by blast
  have conds: "\<not> unat (mem_size mem) + unat (word_of_nat (length b) :: 64 word) \<ge> 2 ^ 64"
      "\<not> mem_size mem + word_of_nat (length b) > mx" "\<not> unat (mem_size mem + word_of_nat (length b)) + 1 \<ge> 2 ^ 64"
    using assms(2,3) sz by (simp_all add: word_of_nat_small word_less_nat_alt)
  have "take (unat (word_of_nat (length b) :: 64 word)) b = b"
    using assms(2,3) by (simp add: word_of_nat_small)
  then have "write_memory_cb mx junk alloc_ok b 1 (word_of_nat (length b)) (mem, err) = Some (word_of_nat (length b), mem1, err)"
    by (simp only: write_memory_cb_def prod.case Let_def mult_1 req_def [symmetric] nonz conds conds [unfolded sz] nomem if_False t(1,5) sz option.case c
      mem1_def)
  moreover have "http_holds mem1 (bs @ b)"
    using t(2,3) sz(2) by (auto simp: http_holds_def mem1_def)
  moreover have "unat (mem_capacity mem1) \<le> max (unat (mem_capacity mem)) (2 * Suc (unat mx))"
    using t(4) assms(2) by (auto simp: mem1_def)
  ultimately show ?thesis
    by blast
qed


lemma deliver_collects:
  assumes "http_holds mem bs" "unat (he_max_payload E) < 2 ^ 63" "length bs + length (concat blocks) < 2 ^ 63"
    "unat (mem_capacity mem) \<le> max HTTP_CLIENT_CHUNK_SIZE (2 * Suc (unat (he_max_payload E)))"
    "length bs \<le> unat (he_max_payload E)"
  shows "\<exists>all mem1 err1. deliver E blocks (mem, err) = Some (all, mem1, err1) \<and>
    (all \<longrightarrow> http_holds mem1 (bs @ concat blocks) \<and> err1 = err \<and> length (bs @ concat blocks) \<le> unat (he_max_payload E) \<and>
       unat (mem_capacity mem1) \<le> max HTTP_CLIENT_CHUNK_SIZE (2 * Suc (unat (he_max_payload E)))) \<and>
    ((\<forall>n. he_realloc E n) \<longrightarrow> (all \<longleftrightarrow> length (bs @ concat blocks) \<le> unat (he_max_payload E)))"
  using assms
proof (induction blocks arbitrary: bs mem)
  case Nil
  then show ?case by (intro exI [of _ True]) simp
next
  case (Cons b blocks)
  have lb: "length b < 2 ^ 63" "unat (mem_size mem) = length bs"
    using Cons.prems by (simp_all add: http_holds_def)
  consider "length bs + length b > unat (he_max_payload E)"
    | "length bs + length b \<le> unat (he_max_payload E)" "he_realloc E (unat (mem_size mem)) \<or> length bs + length b < unat (mem_capacity mem)"
    | "length bs + length b \<le> unat (he_max_payload E)" "\<not> he_realloc E (unat (mem_size mem))" "unat (mem_capacity mem) \<le> length bs + length b"
    by linarith
  then show ?case
  proof cases
    case 1
    have "write_memory_cb (he_max_payload E) (he_junk E) (he_realloc E (unat (mem_size mem))) b 1 (word_of_nat (length b)) (mem, err) = Some (0, mem, err)"
      using 1 lb Cons.prems(3) by (intro write_refuses) simp_all
    moreover have "(word_of_nat (length b) :: 64 word) \<noteq> 0"
      using 1 lb Cons.prems(5) word_of_nat_small [of "length b"] by auto
    ultimately show ?thesis
      using 1 by (intro exI [of _ False]) simp
  next
    case 2
    obtain mem1 where w: "write_memory_cb (he_max_payload E) (he_junk E) (he_realloc E (unat (mem_size mem))) b 1 (word_of_nat (length b)) (mem, err) =
        Some (word_of_nat (length b), mem1, err)" "http_holds mem1 (bs @ b)"
        "unat (mem_capacity mem1) \<le> max (unat (mem_capacity mem)) (2 * Suc (unat (he_max_payload E)))"
      using write_accepts [OF Cons.prems(1) 2(1) Cons.prems(2) 2(2), of "he_junk E" err] by blast
    show ?thesis
      using Cons.IH [OF w(2) Cons.prems(2)] Cons.prems(3,4) w 2(1) by (simp add: add.assoc)
  next
    case 3
    have "(word_of_nat (length b) :: 64 word) \<noteq> 0"
      using 3 lb Cons.prems(1) word_of_nat_small [of "length b"] by (auto simp: http_holds_def)
    then show ?thesis
      using 3 write_without_memory [OF Cons.prems(1) 3(1) Cons.prems(2) 3(3), of "he_junk E" err]
      by (intro exI [of _ False]) auto
  qed
qed


lemma setup_curl_request_cases:
  "(\<exists>s1. setup_curl_request E url body headers s = (None, s1)) \<and> \<not> (he_curl E \<and> he_chunk E \<and> he_headers E) \<or>
   (\<exists>mem. setup_curl_request E url body headers s = (Some (request_options url body headers), mem, snd s) \<and>
      http_holds mem [] \<and> unat (mem_capacity mem) = HTTP_CLIENT_CHUNK_SIZE)"
proof -
  have r: "(replicate HTTP_CLIENT_CHUNK_SIZE junk)[0 := CHR 0x00] = CHR 0x00 # replicate (HTTP_CLIENT_CHUNK_SIZE - 1) junk" for junk
    by (simp add: HTTP_CLIENT_CHUNK_SIZE_def list_eq_iff_nth_eq nth_Cons')
  have "unat (word_of_nat HTTP_CLIENT_CHUNK_SIZE :: 64 word) = Suc (HTTP_CLIENT_CHUNK_SIZE - 1)"
    "HTTP_CLIENT_CHUNK_SIZE = Suc (HTTP_CLIENT_CHUNK_SIZE - 1)"
    by (simp_all add: HTTP_CLIENT_CHUNK_SIZE_def)
  then show ?thesis
    unfolding setup_curl_request_def r Let_def by (auto simp: http_holds_def split: prod.split)
qed

lemma perform_http_request_spec:
  assumes "unat (he_max_payload E) < 2 ^ 63" "\<forall>opts. length (concat (tr_blocks (curl opts))) < 2 ^ 63"
  shows "\<exists>ok code mem err1. perform_http_request curl E base_url uri body headers code0 (no_chunk, err) = Some (ok, code, mem, err1) \<and>
    (ok \<longrightarrow> (\<exists>url t. build_request_url base_url uri 1024 = Some url \<and> t = curl (request_options url body headers) \<and>
       tr_result t = 0 \<and> code = tr_http_code t \<and> http_holds mem (concat (tr_blocks t)) \<and>
       length (concat (tr_blocks t)) \<le> unat (he_max_payload E) \<and>
       unat (mem_capacity mem) \<le> max HTTP_CLIENT_CHUNK_SIZE (2 * Suc (unat (he_max_payload E))))) \<and>
    (he_curl E \<and> he_chunk E \<and> he_headers E \<and> (\<forall>n. he_realloc E n) \<longrightarrow>
       (ok \<longleftrightarrow> (\<exists>url t. build_request_url base_url uri 1024 = Some url \<and> t = curl (request_options url body headers) \<and>
          tr_result t = 0 \<and> length (concat (tr_blocks t)) \<le> unat (he_max_payload E))))"
proof (cases "build_request_url base_url uri 1024")
  case None
  then show ?thesis
    by (intro exI [of _ False]) (simp add: perform_http_request_def)
next
  case (Some url)
  note url = Some
  define t where "t = curl (request_options url body headers)"
  from setup_curl_request_cases [of E url body headers "(no_chunk, err)"] show ?thesis
  proof (elim disjE exE conjE)
    fix s1 assume "setup_curl_request E url body headers (no_chunk, err) = (None, s1)" "\<not> (he_curl E \<and> he_chunk E \<and> he_headers E)"
    then show ?thesis
      by (cases s1) (auto simp: perform_http_request_def url)
  next
    fix mem assume m: "setup_curl_request E url body headers (no_chunk, err) = (Some (request_options url body headers), mem, snd (no_chunk, err))"
      "http_holds mem []" "unat (mem_capacity mem) = HTTP_CLIENT_CHUNK_SIZE"
    have "length (concat (tr_blocks t)) < 2 ^ 63"
      using assms(2) unfolding t_def by blast
    then obtain all mem1 err1 where d: "deliver E (tr_blocks t) (mem, err) = Some (all, mem1, err1)"
        "all \<longrightarrow> http_holds mem1 (concat (tr_blocks t)) \<and> err1 = err \<and> length (concat (tr_blocks t)) \<le> unat (he_max_payload E) \<and>
           unat (mem_capacity mem1) \<le> max HTTP_CLIENT_CHUNK_SIZE (2 * Suc (unat (he_max_payload E)))"
        "(\<forall>n. he_realloc E n) \<longrightarrow> (all \<longleftrightarrow> length (concat (tr_blocks t)) \<le> unat (he_max_payload E))"
      using deliver_collects [OF m(2) assms(1), of "tr_blocks t" err] m(3) by auto
    show ?thesis
      unfolding perform_http_request_def url m(1) option.case prod.case Let_def t_def [symmetric] snd_conv d(1)
      using d(2,3) by (intro exI [of _ "all \<and> tr_result t = 0"]) (auto simp: url CURLE_WRITE_ERROR_def t_def)
  qed
qed


lemma do_http_request_total:
  assumes "unat (he_max_payload E) < 2 ^ 63" "\<forall>opts. length (concat (tr_blocks (curl opts))) < 2 ^ 63"
  shows "\<exists>r code err1. do_http_request parse curl E base_url uri body headers code0 err = Some (r, code, err1)"
  using perform_http_request_spec [OF assms, of base_url uri body headers code0 err]
  by (auto simp: do_http_request_def http_client_post_raw_def)

text \<open>A request that goes well delivers the parsed body and leaves the thread error alone.\<close>

lemma do_http_request_ok:
  assumes "he_curl E" "he_chunk E" "he_headers E" "\<forall>n. he_realloc E n" "unat (he_max_payload E) < 2 ^ 63"
    "build_request_url base_url uri 1024 = Some url" "t = curl (request_options url body headers)" "tr_result t = 0"
    "tr_http_code t < 400" "concat (tr_blocks t) = bytes" "bytes \<noteq> []" "length bytes \<le> unat (he_max_payload E)"
  shows "do_http_request parse curl E base_url uri body headers code0 err = Some (parse (c_str bytes), tr_http_code t, err)"
proof -
  obtain mem where m: "setup_curl_request E url body headers (no_chunk, err) = (Some (request_options url body headers), mem, err)"
      "http_holds mem []" "unat (mem_capacity mem) = HTTP_CLIENT_CHUNK_SIZE"
    using setup_curl_request_cases [of E url body headers "(no_chunk, err)"] assms(1-4) by auto
  obtain mem1 where d: "deliver E (tr_blocks t) (mem, err) = Some (True, mem1, err)" "http_holds mem1 bytes"
    using deliver_collects [OF m(2) assms(5), of "tr_blocks t" err] m(3) assms(4,5,10,12) by auto
  obtain rest where r: "mem_memory mem1 = Some (bytes @ CHR 0x00 # rest)" "unat (mem_size mem1) = length bytes"
    using d(2) by (auto simp: http_holds_def)
  have "0 < mem_size mem1"
    using r(2) assms(11) by (metis length_0_conv unat_0 word_gt_0)
  moreover have "c_str (bytes @ CHR 0x00 # rest) = c_str bytes"
    by (induction bytes) (simp_all add: c_str_def)
  ultimately show ?thesis
    unfolding do_http_request_def http_client_post_raw_def perform_http_request_def assms(6) option.case m(1) prod.case Let_def
      assms(7) [symmetric] d(1)
    using assms(8,9) r(1) by simp
qed

text \<open>C32: Whatever a server sends, and whichever allocation fails, the client stays inside its buffer, and a response it reports
  as successful is held complete and terminated, with the status code of the transfer; it has at most
  \<open>MAX_PAYLOAD_SIZE\<close> bytes, in a buffer of at most about twice that size. When no allocation fails, a request
  succeeds exactly if its URL fits, the transfer succeeds and the body is within the limit.
\<close>

theorem http_response_collected:
  assumes "unat (he_max_payload E) < 2 ^ 63" "\<forall>opts. length (concat (tr_blocks (curl opts))) < 2 ^ 63"
  shows "\<exists>ok code mem err1. perform_http_request curl E base_url uri body headers code0 (no_chunk, err) = Some (ok, code, mem, err1) \<and>
    (ok \<longrightarrow> (\<exists>url t. build_request_url base_url uri 1024 = Some url \<and> t = curl (request_options url body headers) \<and>
       tr_result t = 0 \<and> code = tr_http_code t \<and> http_holds mem (concat (tr_blocks t)) \<and>
       length (concat (tr_blocks t)) \<le> unat (he_max_payload E) \<and>
       unat (mem_capacity mem) \<le> max HTTP_CLIENT_CHUNK_SIZE (2 * Suc (unat (he_max_payload E))))) \<and>
    (he_curl E \<and> he_chunk E \<and> he_headers E \<and> (\<forall>n. he_realloc E n) \<longrightarrow>
       (ok \<longleftrightarrow> (\<exists>url t. build_request_url base_url uri 1024 = Some url \<and> t = curl (request_options url body headers) \<and>
          tr_result t = 0 \<and> length (concat (tr_blocks t)) \<le> unat (he_max_payload E))))"
  using assms by (rule perform_http_request_spec)

definition sample_transfer :: "curl_opt list \<Rightarrow> transfer" where
  "sample_transfer opts = \<lparr>tr_blocks = [''{'', ''}''], tr_result = 0, tr_http_code = 200, tr_strerror = [], tr_errbuf = []\<rparr>"

definition sample_http_env :: http_env where
  "sample_http_env = \<lparr>he_max_payload = 1000, he_curl = True, he_chunk = True, he_headers = True, he_realloc = (\<lambda>_. True), he_junk = CHR ''?''\<rparr>"

theorem http_response_collected_witness:
  "\<exists>code mem err1. perform_http_request sample_transfer sample_http_env (Some ''http://a'') None None [] 0 (no_chunk, no_error) =
     Some (True, code, mem, err1) \<and> code = 200 \<and> http_holds mem ''{}''"
proof -
  have e: "unat (he_max_payload sample_http_env) < 2 ^ 63" "unat (he_max_payload sample_http_env) = 1000"
    "he_curl sample_http_env" "he_chunk sample_http_env" "he_headers sample_http_env" "\<forall>n. he_realloc sample_http_env n"
    by (simp_all add: sample_http_env_def)
  have tr: "tr_blocks (sample_transfer opts) = [''{'', ''}'']" "tr_result (sample_transfer opts) = 0"
      "tr_http_code (sample_transfer opts) = 200" for opts
    by (simp_all add: sample_transfer_def)
  have t: "\<forall>opts. length (concat (tr_blocks (sample_transfer opts))) < 2 ^ 63"
    by (simp add: sample_transfer_def)
  have u: "build_request_url (Some ''http://a'') None 1024 = Some ''http://a''"
    by (simp add: build_request_url_def)
  show ?thesis
    using http_response_collected [OF e(1) t, of "Some ''http://a''" None None "[]" 0 no_error]
    by (auto simp: e u tr)
qed

end
