(* ===== verification/Dtoa.thy ===== *)
theory Dtoa
  imports JsonUtil Doubles "HOL-Library.Log_Nat"
begin

text \<open>
  Model of the printer for doubles of \<open>lib/json_util.c\<close>: \<open>fast_dtoa\<close> with \<open>format_int_part\<close> and \<open>format_frac_part\<close>.
  Arithmetic on doubles is exact rational arithmetic followed by rounding to 53 significant bits, ties to even. As in the
  integer printers a buffer is the list of its bytes and a store outside it is \<open>None\<close>.
\<close>

section \<open>Rounding\<close>

definition round_half_even :: "rat \<Rightarrow> int" where
  "round_half_even q =
     (let f = \<lfloor>q\<rfloor>; d = q - of_int f
      in if d < 1 / 2 then f else if d > 1 / 2 then f + 1 else if even f then f else f + 1)"

text \<open>The largest exponent whose power of two is at most a positive rational.\<close>

definition binary_exponent :: "rat \<Rightarrow> int" where
  "binary_exponent q =
     (let (n, d) = quotient_of q; e = int (floorlog 2 (nat n)) - int (floorlog 2 (nat d))
      in if 2 powi e \<le> q then e else e - 1)"

text \<open>The double nearest to a rational of the normal range, or to zero.\<close>

definition round_double :: "rat \<Rightarrow> rat" where
  "round_double q =
     (if q = 0 then 0
      else let u = 2 powi (binary_exponent q - 52) in of_int (round_half_even (q / u)) * u)"


section \<open>The printer\<close>

text \<open>\<open>printf("%.17g")\<close> of a finite value above \<open>10 ^ 15\<close> in magnitude: 17 significant digits without trailing zeros.\<close>

definition strip_zeros :: "string \<Rightarrow> string" where
  "strip_zeros ds = rev (dropWhile (\<lambda>c. c = CHR ''0'') (rev ds))"

definition point_digits :: "string \<Rightarrow> string" where
  "point_digits ds = (let fs = strip_zeros ds in if fs = [] then [] else CHR ''.'' # fs)"

definition printf_g17 :: "bool \<Rightarrow> rat \<Rightarrow> string" where
  "printf_g17 neg m =
     (let x0 = length (dec (nat \<lfloor>m\<rfloor>)) - 1;
          r = nat (round_half_even (if x0 \<le> 16 then m * 10 ^ (16 - x0) else m / 10 ^ (x0 - 16)));
          (x, ds) = (if r = 10 ^ 17 then (x0 + 1, dec (10 ^ 16)) else (x0, dec r))
      in (if neg then ''-'' else []) @
         (if x < 17 then take (x + 1) ds @ point_digits (drop (x + 1) ds)
          else take 1 ds @ point_digits (drop 1 ds) @ ''e+'' @ dec x))"

function format_int_part :: "64 word \<Rightarrow> string \<Rightarrow> nat \<Rightarrow> string option" where
  "format_int_part temp_int buf pos =
     (if temp_int \<ge> 100 then
        (if pos < 2 then None
         else (case write2 buf (pos - 2) (ucast (temp_int mod 100)) of
                 None \<Rightarrow> None
               | Some b \<Rightarrow> format_int_part (temp_int div 100) b (pos - 2)))
      else if temp_int < 10 then
        (if pos < 1 then None else store buf (pos - 1) (char_of (48 + unat temp_int)))
      else (if pos < 2 then None else write2 buf (pos - 2) (ucast temp_int)))"
  by pat_completeness auto
termination
  by (relation "measure (\<lambda>(t, _, _). unat t)") (auto simp: unat_div word_le_nat_alt)

text \<open>\<open>while (pos > len && buf[pos - 1] == c) pos--\<close>\<close>

fun back_over :: "char \<Rightarrow> string \<Rightarrow> nat \<Rightarrow> nat \<Rightarrow> nat" where
  "back_over c buf len pos = (if pos > len \<and> buf ! (pos - 1) = c then back_over c buf len (pos - 1) else pos)"

text \<open>
  \<open>(uint32_t)(frac * 1000000.0 + 0.5)\<close>, and the three turns of the digit loop, which write at offsets 4, 2 and 0 after
  the point.
\<close>

definition frac_millionths :: "rat \<Rightarrow> 32 word" where
  "frac_millionths fr = word_of_int \<lfloor>round_double (round_double (fr * 1000000) + 1 / 2)\<rfloor>"

definition write_frac :: "32 word \<Rightarrow> string \<Rightarrow> nat \<Rightarrow> string option" where
  "write_frac n buf pos = do {
     b1 \<leftarrow> write2 buf (pos + 4) (n mod 100);
     b2 \<leftarrow> write2 b1 (pos + 2) (n div 100 mod 100);
     write2 b2 pos (n div 100 div 100 mod 100)
   }"

definition format_frac_part :: "rat \<Rightarrow> string \<Rightarrow> nat \<Rightarrow> nat \<Rightarrow> (nat \<times> string) option" where
  "format_frac_part fr buf pos len =
     (if fr > round_double (1 / 10 ^ 9) \<and> pos + 8 < length buf
      then do {
        b0 \<leftarrow> store buf pos (CHR ''.'');
        b1 \<leftarrow> write_frac (frac_millionths fr) b0 (pos + 1);
        let pos1 = back_over (CHR ''0'') b1 len (pos + 7);
        Some (if pos1 > len \<and> b1 ! (pos1 - 1) = CHR ''.'' then pos1 - 1 else pos1, b1)
      }
      else Some (pos, buf))"

definition fast_dtoa :: "double \<Rightarrow> string option \<Rightarrow> (nat \<times> string option) option" where
  "fast_dtoa val buf_ptr =
     (case buf_ptr of
        None \<Rightarrow> Some (0, None)
      | Some buf \<Rightarrow>
          (if length buf < 2 then Some (0, Some buf)
           else
             (case val of
                Fin neg m \<Rightarrow>
                  (if m > 10 ^ 15
                   then (let t = printf_g17 neg m; w = snprintf t (length buf)
                         in Some (if length t < length buf then length t else 0,
                              Some (w @ CHR 0x00 # drop (Suc (length w)) buf)))
                   else
                     (let int_part = (word_of_int \<lfloor>m\<rfloor> :: 64 word);
                          fr = m - of_int \<lfloor>m\<rfloor>;
                          len = (if neg then count_digits_u64 int_part + 1 else count_digits_u64 int_part)
                      in if len + 1 > length buf then Some (0, Some buf)
                         else do {
                           b1 \<leftarrow> format_int_part int_part buf len;
                           b2 \<leftarrow> (if neg then store b1 0 (CHR ''-'') else Some b1);
                           (pos, b3) \<leftarrow> format_frac_part fr b2 len len;
                           b4 \<leftarrow> (if pos = 1 \<and> b3 ! 0 = CHR ''-'' then store b3 0 (CHR ''0'') else Some b3);
                           b5 \<leftarrow> store b4 pos (CHR 0x00);
                           Some (pos, Some b5)
                         }))
              | _ \<Rightarrow> do {
                  b1 \<leftarrow> store buf 0 (CHR ''0'');
                  b2 \<leftarrow> store b1 1 (CHR 0x00);
                  Some (1, Some b2)
                })))"

declare format_int_part.simps [simp del] back_over.simps [simp del]


section \<open>Rounding errors\<close>

lemma round_half_even_error: "\<bar>of_int (round_half_even q) - q\<bar> \<le> 1 / 2"
proof -
  define f where "f = \<lfloor>q\<rfloor>"
  have "of_int f \<le> q" "q < of_int f + 1"
    using floor_correct [of q] by (simp_all add: f_def)
  then show ?thesis
    unfolding round_half_even_def Let_def f_def [symmetric] by (auto simp: abs_le_iff)
qed

lemma floorlog_2_bounds:
  assumes "0 < n"
  shows "2 powi (int (floorlog 2 n) - 1) \<le> (of_nat n :: rat)" "(of_nat n :: rat) < 2 powi int (floorlog 2 n)"
proof -
  have b: "2 ^ (floorlog 2 n - 1) \<le> n" "n < 2 ^ floorlog 2 n" "0 < floorlog 2 n"
    using floorlog_bounds [of n 2] assms by (auto simp: floorlog_def)
  have "(of_nat (2 ^ (floorlog 2 n - 1)) :: rat) \<le> of_nat n"
    using b(1) by (simp only: of_nat_le_iff)
  moreover have "(2 :: rat) powi (int (floorlog 2 n) - 1) = 2 ^ (floorlog 2 n - 1)"
    using b(3) by (simp add: power_int_def nat_diff_distrib)
  ultimately show "2 powi (int (floorlog 2 n) - 1) \<le> (of_nat n :: rat)"
    by simp
  have "(of_nat n :: rat) < of_nat (2 ^ floorlog 2 n)"
    using b(2) by (simp only: of_nat_less_iff)
  then show "(of_nat n :: rat) < 2 powi int (floorlog 2 n)"
    by simp
qed

lemma binary_exponent_le:
  assumes "0 < q"
  shows "2 powi binary_exponent q \<le> q"
proof -
  obtain n d where qd: "quotient_of q = (n, d)" "0 < d" "q = of_int n / of_int d"
    by (metis old.prod.exhaust quotient_of_denom_pos quotient_of_div)
  have n: "0 < n"
    using assms qd by (simp add: zero_less_divide_iff)
  define a b where "a = int (floorlog 2 (nat n))" and "b = int (floorlog 2 (nat d))"
  have "(2 :: rat) powi (a - 1) \<le> of_int n" "(of_int d :: rat) < 2 powi b"
    using floorlog_2_bounds [of "nat n"] floorlog_2_bounds [of "nat d"] n qd(2) by (simp_all add: a_def b_def)
  then have "(2 :: rat) powi (a - 1) / 2 powi b \<le> of_int n / of_int d"
    using n qd(2) by (intro frac_le) simp_all
  moreover have "(2 :: rat) powi (a - 1) / 2 powi b = 2 powi (a - b - 1)"
    by (simp add: power_int_diff [symmetric] algebra_simps)
  ultimately show ?thesis
    using qd(1,3) by (simp add: binary_exponent_def a_def [symmetric] b_def [symmetric] Let_def)
qed

lemma round_double_error:
  assumes "0 \<le> q"
  shows "\<bar>round_double q - q\<bar> \<le> q / 2 ^ 53"
proof (cases "q = 0")
  case False
  define u :: rat where "u = 2 powi (binary_exponent q - 52)"
  have u: "0 < u" "u * 2 ^ 52 \<le> q"
    using binary_exponent_le [of q] False assms by (simp_all add: u_def power_int_diff)
  have "round_double q - q = (of_int (round_half_even (q / u)) - q / u) * u"
    using u(1) False by (simp add: round_double_def u_def [symmetric] Let_def left_diff_distrib)
  then have "\<bar>round_double q - q\<bar> = \<bar>of_int (round_half_even (q / u)) - q / u\<bar> * u"
    using u(1) by (simp only: abs_mult abs_of_pos)
  also have "\<dots> \<le> 1 / 2 * u"
    using round_half_even_error [of "q / u"] u(1) by (intro mult_right_mono) simp_all
  finally show ?thesis
    using u(2) by simp
qed (simp add: round_double_def)

text \<open>The printed number of millionths is the nearest one, up to an error far below a millionth.\<close>

lemma frac_millionths_near:
  assumes "0 \<le> fr" "fr < 1"
  shows "\<bar>of_nat (unat (frac_millionths fr)) - fr * 10 ^ 6\<bar> < 503 / 1000"
proof -
  define x where "x = round_double (fr * 1000000)"
  define y where "y = round_double (x + 1 / 2)"
  have x: "x \<le> fr * 1000000 + 1 / 1000" "fr * 1000000 \<le> x + 1 / 1000"
    using round_double_error [of "fr * 1000000"] assms unfolding x_def [symmetric] abs_le_iff by (simp_all add: field_simps)
  then have r: "1 / 4 \<le> x + 1 / 2" "x + 1 / 2 \<le> 1000001"
    using assms by linarith+
  then have y: "y \<le> x + 1 / 2 + 1 / 1000" "x + 1 / 2 \<le> y + 1 / 1000"
    using round_double_error [of "x + 1 / 2"] unfolding y_def [symmetric] abs_le_iff by (simp_all add: field_simps)
  have f: "of_int \<lfloor>y\<rfloor> \<le> y" "y < of_int \<lfloor>y\<rfloor> + 1"
    using floor_correct [of y] by simp_all
  have "0 \<le> y" "y < 1000002"
    using r y by linarith+
  then have "0 \<le> \<lfloor>y\<rfloor>" "\<lfloor>y\<rfloor> < 1000002"
    by (simp_all add: floor_less_iff)
  then have e: "of_nat (unat (frac_millionths fr)) = (of_int \<lfloor>y\<rfloor> :: rat)"
    unfolding frac_millionths_def x_def [symmetric] y_def [symmetric]
    by (simp add: uint_word_of_int_eq take_bit_int_eq_self flip: nat_uint_eq)
  have p: "(10 :: rat) ^ 6 = 1000000"
    by simp
  show ?thesis
    unfolding e abs_less_iff p using x y f by (intro conjI) linarith+
qed


section \<open>The text\<close>

lemma format_int_part_spec:
  "printing off len target (unat t) pos buf \<Longrightarrow>
   \<exists>b. format_int_part t buf pos = Some b \<and> length b = len \<and> drop off b = target"
proof (induction t buf pos rule: format_int_part.induct)
  case (1 t buf pos)
  show ?case
  proof (cases "100 \<le> unat t")
    case True
    have v: "unat (ucast (t mod 100) :: 32 word) = unat t mod 100"
      by (simp add: unat_ucast_32 unat_mod less_trans [OF mod_less_divisor])
    obtain b where b: "2 \<le> pos" "write2 buf (pos - 2) (ucast (t mod 100)) = Some b"
        "printing off len target (unat (t div 100)) (pos - 2) b"
      using printing_two [OF "1.prems" True v] by (auto simp: unat_div)
    then show ?thesis
      using "1.IH" [of b] True by (subst format_int_part.simps) (simp add: word_le_nat_alt)
  next
    case False
    then have u: "unat (ucast t :: 32 word) = unat t"
      by (simp add: unat_ucast_32)
    then obtain b where "itoa_last (ucast t) pos buf = Some (off, b)" "length b = len" "drop off b = target"
      using itoa_last_spec [of off len target "ucast t" pos buf] "1.prems" False by auto
    with False u show ?thesis
      by (subst format_int_part.simps) (auto simp: itoa_last_def word_le_nat_alt word_less_nat_alt split: if_splits)
  qed
qed

lemma back_over_append:
  "back_over c (pre @ ds @ rest) (length pre) (length pre + length ds) =
     length pre + length (rev (dropWhile (\<lambda>x. x = c) (rev ds)))"
proof (induction ds arbitrary: rest rule: rev_induct)
  case Nil
  then show ?case by (simp add: back_over.simps)
next
  case (snoc d ds)
  show ?case
    using snoc.IH [of "d # rest"] by (subst back_over.simps) (auto simp: nth_append)
qed

definition six_digits :: "nat \<Rightarrow> string" where
  "six_digits n = two_digits (n div 10000 mod 100) @ two_digits (n div 100 mod 100) @ two_digits (n mod 100)"

lemma length_six_digits [simp]: "length (six_digits n) = 6"
  by (simp add: six_digits_def)

lemma write2_at:
  assumes "unat v < 100" "length pre = dst"
  shows "write2 (pre @ a # b # rest) dst v = Some (pre @ two_digits (unat v) @ rest)"
  using assms digits_lut_entries [of "unat v"] by (simp add: write2_def two_digits_def list_update_append)

lemma write_frac_text:
  assumes "6 \<le> length rest" "length pre = pos"
  shows "write_frac n (pre @ rest) pos = Some (pre @ six_digits (unat n) @ drop 6 rest)"
proof -
  obtain a b c d e f rest1 where r: "rest = a # b # c # d # e # f # rest1"
    using assms(1) by (metis (no_types) Suc_le_length_iff numeral_eq_Suc pred_numeral_simps BitM.simps)
  have v: "unat (n mod 100) = unat n mod 100" "unat (n div 100 mod 100) = unat n div 100 mod 100"
      "unat (n div 100 div 100 mod 100) = unat n div 10000 mod 100"
    by (simp_all add: unat_mod unat_div div_mult2_eq [symmetric])
  have "write2 (pre @ rest) (pos + 4) (n mod 100) = Some ((pre @ [a, b, c, d]) @ two_digits (unat n mod 100) @ rest1)"
    using write2_at [of "n mod 100" "pre @ [a, b, c, d]" "pos + 4" e f rest1] assms(2) by (simp add: r v)
  moreover have "write2 ((pre @ [a, b]) @ c # d # two_digits (unat n mod 100) @ rest1) (pos + 2) (n div 100 mod 100) =
      Some ((pre @ [a, b]) @ two_digits (unat n div 100 mod 100) @ two_digits (unat n mod 100) @ rest1)"
    using assms(2) by (subst write2_at) (simp_all add: v)
  moreover have "write2 (pre @ a # b # two_digits (unat n div 100 mod 100) @ two_digits (unat n mod 100) @ rest1) pos
      (n div 100 div 100 mod 100) = Some (pre @ six_digits (unat n) @ rest1)"
    using assms(2) by (subst write2_at) (simp_all add: v six_digits_def)
  ultimately show ?thesis
    by (simp add: write_frac_def r)
qed


lemma six_digits_isdigit: "\<forall>c \<in> set (six_digits n). isdigit c"
  by (auto simp: six_digits_def two_digits_def less_mult_imp_div_less)

lemma strip_zeros_prefix: "\<exists>k. ds = strip_zeros ds @ replicate k (CHR ''0'')"
proof -
  have "rev ds = takeWhile (\<lambda>c. c = CHR ''0'') (rev ds) @ rev (strip_zeros ds)"
    by (simp add: strip_zeros_def)
  moreover have "takeWhile (\<lambda>c. c = CHR ''0'') (rev ds) =
      replicate (length (takeWhile (\<lambda>c. c = CHR ''0'') (rev ds))) (CHR ''0'')"
    by (rule replicate_eqI) (auto dest: set_takeWhileD)
  ultimately show ?thesis
    by (metis rev_append rev_replicate rev_rev_ident)
qed

text \<open>The characters after the integer part.\<close>

definition frac_text :: "rat \<Rightarrow> string" where
  "frac_text fr =
     (if fr > round_double (1 / 10 ^ 9) then point_digits (six_digits (unat (frac_millionths fr))) else [])"

lemma point_digits_last:
  assumes "\<forall>c \<in> set ds. isdigit c"
  shows "(CHR ''.'' # ds @ rest) ! length (strip_zeros ds) = CHR ''.'' \<longleftrightarrow> strip_zeros ds = []"
proof (cases "strip_zeros ds" rule: rev_cases)
  case (snoc xs x)
  obtain k where "ds = (xs @ [x]) @ replicate k (CHR ''0'')"
    using strip_zeros_prefix [of ds] snoc by auto
  with assms snoc show ?thesis
    by (auto simp: nth_append isdigit_def)
qed simp

lemma format_frac_part_text:
  assumes "length pre = len" "len + 8 < length (pre @ rest)"
  shows "\<exists>b. format_frac_part fr (pre @ rest) len len = Some (length (pre @ frac_text fr), b) \<and>
    take (length (pre @ frac_text fr)) b = pre @ frac_text fr \<and> length b = length (pre @ rest)"
proof (cases "fr > round_double (1 / 10 ^ 9)")
  case False
  then show ?thesis
    using assms(1) by (auto simp: format_frac_part_def frac_text_def)
next
  case True
  obtain r0 rest1 where r: "rest = r0 # rest1" "7 < length rest1"
    using assms by (cases rest) auto
  define ds where "ds = six_digits (unat (frac_millionths fr))"
  define b1 where "b1 = pre @ (CHR ''.'' # ds) @ drop 6 rest1"
  have st: "store (pre @ rest) len (CHR ''.'') = Some ((pre @ ''.'') @ rest1)"
    using assms(1) r by (simp add: store_def list_update_append)
  have wf: "write_frac (frac_millionths fr) ((pre @ ''.'') @ rest1) (len + 1) = Some b1"
    using r assms(1) by (subst write_frac_text) (simp_all add: b1_def ds_def)
  have pos: "back_over (CHR ''0'') b1 len (len + 7) = len + Suc (length (strip_zeros ds))"
    using back_over_append [of "CHR ''0''" pre "CHR ''.'' # ds" "drop 6 rest1"] assms(1)
    by (simp add: b1_def ds_def strip_zeros_def dropWhile_append)
  have dot: "b1 ! (len + length (strip_zeros ds)) = CHR ''.'' \<longleftrightarrow> strip_zeros ds = []"
    using point_digits_last [of ds "drop 6 rest1"] six_digits_isdigit assms(1) by (simp add: b1_def ds_def nth_append)
  obtain k where k: "ds = strip_zeros ds @ replicate k (CHR ''0'')"
    using strip_zeros_prefix by blast
  have tk: "take (len + length (point_digits ds)) b1 = pre @ point_digits ds"
    unfolding b1_def using assms(1) by (subst k) (simp add: point_digits_def Let_def)
  have "format_frac_part fr (pre @ rest) len len = Some (len + length (point_digits ds), b1)"
    using True assms(2) dot
    by (simp add: format_frac_part_def st wf pos point_digits_def Let_def del: One_nat_def append_assoc append.simps)
  moreover have "length b1 = length (pre @ rest)"
    using r by (simp add: b1_def ds_def)
  ultimately show ?thesis
    using tk True assms(1) by (simp add: frac_text_def ds_def)
qed

text \<open>The text for a value up to \<open>10 ^ 15\<close> in magnitude.\<close>

definition dtoa_text :: "bool \<Rightarrow> rat \<Rightarrow> string" where
  "dtoa_text neg m = (if neg then ''-'' else []) @ dec (nat \<lfloor>m\<rfloor>) @ frac_text (m - of_int \<lfloor>m\<rfloor>)"


lemma unat_floor_64:
  fixes m :: rat
  assumes "0 \<le> m" "m \<le> 10 ^ 15"
  shows "unat (word_of_int \<lfloor>m\<rfloor> :: 64 word) = nat \<lfloor>m\<rfloor>" "nat \<lfloor>m\<rfloor> < 10 ^ 16"
proof -
  have "0 \<le> \<lfloor>m\<rfloor>" "\<lfloor>m\<rfloor> < 10 ^ 16"
    using assms by (simp_all add: floor_less_iff)
  moreover from this have "nat \<lfloor>m\<rfloor> < nat (10 ^ 16)"
    by (subst nat_less_eq_zless) simp_all
  ultimately show "unat (word_of_int \<lfloor>m\<rfloor> :: 64 word) = nat \<lfloor>m\<rfloor>" "nat \<lfloor>m\<rfloor> < 10 ^ 16"
    by (simp_all add: uint_word_of_int_eq take_bit_int_eq_self flip: nat_uint_eq)
qed

lemma length_frac_text: "length (frac_text fr) \<le> 7"
proof -
  obtain k where "six_digits (unat (frac_millionths fr)) =
      strip_zeros (six_digits (unat (frac_millionths fr))) @ replicate k (CHR ''0'')"
    using strip_zeros_prefix by blast
  then have "length (strip_zeros (six_digits (unat (frac_millionths fr)))) \<le> 6"
    by (metis le_add1 length_append length_six_digits)
  then show ?thesis
    by (simp add: frac_text_def point_digits_def Let_def)
qed

lemma int_part_text:
  fixes m :: rat
  assumes "0 \<le> m" "m \<le> 10 ^ 15" "len = length ((if neg then ''-'' else []) @ dec (nat \<lfloor>m\<rfloor>))" "len < length buf"
  shows "\<exists>b. format_int_part (word_of_int \<lfloor>m\<rfloor>) buf len = Some b \<and> length b = length buf \<and>
    (if neg then store b 0 (CHR ''-'') else Some b) = Some (((if neg then ''-'' else []) @ dec (nat \<lfloor>m\<rfloor>)) @ drop len buf)"
proof -
  define off :: nat where "off = (if neg then 1 else 0)"
  have "printing off (length buf) (dec (nat \<lfloor>m\<rfloor>) @ drop len buf) (unat (word_of_int \<lfloor>m\<rfloor> :: 64 word)) len buf"
    using assms unat_floor_64 [OF assms(1,2)] by (simp add: printing_def off_def)
  then obtain b where b: "format_int_part (word_of_int \<lfloor>m\<rfloor>) buf len = Some b" "length b = length buf"
      "drop off b = dec (nat \<lfloor>m\<rfloor>) @ drop len buf"
    using format_int_part_spec by blast
  moreover have "0 < length b"
    unfolding b(2) using assms(4) by linarith
  ultimately show ?thesis
    using printed_with_sign [of neg b "dec (nat \<lfloor>m\<rfloor>) @ drop len buf"] by (simp add: off_def)
qed

lemma dec_not_minus: "dec n ! 0 \<noteq> CHR ''-''"
proof -
  have "isdigit (dec n ! 0)"
    using dec_all_digits [of n] nth_mem [of 0 "dec n"] by simp
  then show ?thesis
    by (auto simp: isdigit_def)
qed

lemma fast_dtoa_text:
  assumes "0 \<le> m" "m \<le> 10 ^ 15" "26 \<le> length buf"
  shows "\<exists>b. fast_dtoa (Fin neg m) (Some buf) = Some (length (dtoa_text neg m), Some b) \<and>
    take (length (dtoa_text neg m)) b = dtoa_text neg m \<and> b ! length (dtoa_text neg m) = CHR 0x00 \<and> length b = length buf"
proof -
  define pre where "pre = (if neg then ''-'' else []) @ dec (nat \<lfloor>m\<rfloor>)"
  define fr where "fr = m - of_int \<lfloor>m\<rfloor>"
  have len: "(if neg then count_digits_u64 (word_of_int \<lfloor>m\<rfloor>) + 1 else count_digits_u64 (word_of_int \<lfloor>m\<rfloor>)) = length pre"
    using unat_floor_64 [OF assms(1,2)] by (simp add: count_digits_u64_dec pre_def)
  have small: "length pre \<le> 17"
    using length_dec_le [of "nat \<lfloor>m\<rfloor>" 16] unat_floor_64 [OF assms(1,2)] by (simp add: pre_def)
  obtain b1 where b1: "format_int_part (word_of_int \<lfloor>m\<rfloor>) buf (length pre) = Some b1"
      "(if neg then store b1 0 (CHR ''-'') else Some b1) = Some (pre @ drop (length pre) buf)"
    using int_part_text [of m "length pre" neg buf] assms small by (auto simp: pre_def)
  obtain b3 where b3: "format_frac_part fr (pre @ drop (length pre) buf) (length pre) (length pre) = Some (length (pre @ frac_text fr), b3)"
      "take (length (pre @ frac_text fr)) b3 = pre @ frac_text fr" "length b3 = length buf"
    using format_frac_part_text [of pre "length pre" "drop (length pre) buf" fr] small assms(3) by auto
  have t: "dtoa_text neg m = pre @ frac_text fr"
    by (simp add: dtoa_text_def pre_def fr_def)
  have "0 < length pre"
    by (simp add: pre_def)
  then have "b3 ! 0 = pre ! 0"
    by (metis append_take_drop_id b3(2) nth_append length_append trans_less_add1)
  then have no: "\<not> (length (pre @ frac_text fr) = 1 \<and> b3 ! 0 = CHR ''-'')"
    using dec_not_minus [of "nat \<lfloor>m\<rfloor>"] by (auto simp: pre_def)
  have lt: "length (pre @ frac_text fr) < length b3"
    using small length_frac_text [of fr] b3(3) assms(3) by simp
  have "fast_dtoa (Fin neg m) (Some buf) = Some (length (dtoa_text neg m), Some (b3[length (dtoa_text neg m) := CHR 0x00]))"
    using assms(2,3) small lt unfolding fast_dtoa_def option.case double.case Let_def len fr_def [symmetric] t
    by (simp add: b1 b3(1) no store_in_bounds del: length_append One_nat_def)
  then show ?thesis
    using lt b3 unfolding t by (intro exI [of _ "b3[length (pre @ frac_text fr) := CHR 0x00]"]) (simp del: length_append)
qed


section \<open>The value of the text\<close>

text \<open>The number a decimal text stands for: an optional sign, digits, and digits after a point.\<close>

definition decimal_value :: "string \<Rightarrow> rat" where
  "decimal_value s =
     (let neg = (s \<noteq> [] \<and> hd s = CHR ''-'');
          u = (if neg then tl s else s);
          fp = tl (dropWhile isdigit u);
          v = of_nat (digits_value (takeWhile isdigit u) 0) + of_nat (digits_value fp 0) / 10 ^ length fp
      in if neg then - v else v)"

lemma digits_value_append: "digits_value (xs @ ys) acc = digits_value ys (digits_value xs acc)"
  by (induction xs arbitrary: acc) simp_all

lemma digits_value_zeros: "digits_value (replicate k (CHR ''0'')) acc = acc * 10 ^ k"
  by (induction k arbitrary: acc) (simp_all add: digit_val_def)

lemma digits_value_two: "v < 100 \<Longrightarrow> digits_value (two_digits v) acc = 100 * acc + v"
  by (simp add: two_digits_def less_mult_imp_div_less)

lemma digits_value_six: "digits_value (six_digits n) 0 = n mod 1000000"
proof -
  have "n mod 1000000 = 100 * (100 * (n div 10000 mod 100) + n div 100 mod 100) + n mod 100"
    using mod_mult2_eq [of n 100 10000] mod_mult2_eq [of "n div 100" 100 100] by (simp add: div_mult2_eq [symmetric])
  then show ?thesis
    by (simp add: six_digits_def digits_value_append digits_value_two)
qed

lemma strip_zeros_value:
  "(of_nat (digits_value (strip_zeros ds) 0) / 10 ^ length (strip_zeros ds) :: rat) = of_nat (digits_value ds 0) / 10 ^ length ds"
proof -
  obtain k where k: "ds = strip_zeros ds @ replicate k (CHR ''0'')"
    using strip_zeros_prefix by blast
  have "digits_value ds 0 = digits_value (strip_zeros ds) 0 * 10 ^ k" "length ds = length (strip_zeros ds) + k"
    by (subst k, simp add: digits_value_append digits_value_zeros) (subst k, simp)
  then show ?thesis
    by (simp add: power_add)
qed

lemma decimal_value_dtoa_text:
  assumes "0 \<le> m"
  defines "fr \<equiv> m - of_int \<lfloor>m\<rfloor>"
  defines "v \<equiv> of_int \<lfloor>m\<rfloor> +
    (if fr > round_double (1 / 10 ^ 9) then of_nat (unat (frac_millionths fr) mod 1000000) / 10 ^ 6 else 0)"
  shows "decimal_value (dtoa_text neg m) = (if neg then - v else v)"
proof -
  have dig: "\<forall>c \<in> set (dec (nat \<lfloor>m\<rfloor>)). isdigit c"
    using dec_all_digits by blast
  have pt: "\<not> isdigit (CHR ''.'')"
    by (simp add: isdigit_def)
  have f: "fs = [] \<or> hd fs = CHR ''.'' \<Longrightarrow> takeWhile isdigit (dec (nat \<lfloor>m\<rfloor>) @ fs) = dec (nat \<lfloor>m\<rfloor>) \<and>
      dropWhile isdigit (dec (nat \<lfloor>m\<rfloor>) @ fs) = fs" for fs
    using dig pt by (cases fs) (auto simp: takeWhile_append2 dropWhile_append2)
  have ft: "frac_text fr = [] \<or> hd (frac_text fr) = CHR ''.''"
    by (simp add: frac_text_def point_digits_def Let_def)
  have tl: "(of_nat (digits_value (tl (frac_text fr)) 0) / 10 ^ length (tl (frac_text fr)) :: rat) =
      (if fr > round_double (1 / 10 ^ 9) then of_nat (unat (frac_millionths fr) mod 1000000) / 10 ^ 6 else 0)"
    using strip_zeros_value [of "six_digits (unat (frac_millionths fr))"]
    by (auto simp: frac_text_def point_digits_def Let_def digits_value_six)
  have hd: "hd (dec (nat \<lfloor>m\<rfloor>) @ frac_text fr) \<noteq> CHR ''-''"
    using dec_not_minus [of "nat \<lfloor>m\<rfloor>"] by (simp add: hd_conv_nth nth_append)
  have dv: "digits_value (dec (nat \<lfloor>m\<rfloor>)) 0 = nat \<lfloor>m\<rfloor>"
    using digits_value_dec_acc [of "nat \<lfloor>m\<rfloor>" "[]"] by simp
  show ?thesis
    using f [OF ft] tl hd dv assms(1)
    unfolding decimal_value_def dtoa_text_def fr_def [symmetric] v_def
    by (auto simp: Let_def of_nat_nat)
qed


text \<open>The fraction rounds up to one from about \<open>1 - 5 / 10 ^ 7\<close> on.\<close>

lemma frac_millionths_bounds:
  assumes "0 \<le> fr" "fr < 1"
  shows "unat (frac_millionths fr) \<le> 1000000" "fr \<le> 1 - 503 / 10 ^ 9 \<Longrightarrow> unat (frac_millionths fr) < 1000000"
    "fr \<ge> 1 - 497 / 10 ^ 9 \<Longrightarrow> unat (frac_millionths fr) = 1000000"
proof -
  define k where "k = unat (frac_millionths fr)"
  have near: "of_nat k < fr * 1000000 + 503 / 1000" "fr * 1000000 < of_nat k + 503 / 1000"
    using frac_millionths_near [OF assms] unfolding k_def abs_less_iff by simp_all
  have "(of_nat k :: rat) < of_nat 1000001"
    using near(1) assms(2) by simp
  then have le: "k \<le> 1000000"
    unfolding of_nat_less_iff by linarith
  then show "unat (frac_millionths fr) \<le> 1000000"
    by (simp add: k_def)
  show "unat (frac_millionths fr) < 1000000" if "fr \<le> 1 - 503 / 10 ^ 9"
  proof -
    have "(of_nat k :: rat) < of_nat 1000000"
      using near(1) that by (simp add: field_simps)
    then show ?thesis
      unfolding of_nat_less_iff k_def .
  qed
  show "unat (frac_millionths fr) = 1000000" if "fr \<ge> 1 - 497 / 10 ^ 9"
  proof -
    have "(of_nat 999999 :: rat) < of_nat k"
      using near(2) that by (simp add: field_simps)
    then show ?thesis
      using le unfolding of_nat_less_iff k_def by linarith
  qed
qed

lemma dtoa_text_accurate:
  assumes "0 \<le> m" "unat (frac_millionths (m - of_int \<lfloor>m\<rfloor>)) \<noteq> 1000000"
  shows "\<bar>decimal_value (dtoa_text neg m) - dval (Fin neg m)\<bar> \<le> 503 / 10 ^ 9"
proof -
  define fr where "fr = m - of_int \<lfloor>m\<rfloor>"
  define k where "k = unat (frac_millionths fr)"
  have fr: "0 \<le> fr" "fr < 1"
    using floor_correct [of m] unfolding fr_def by linarith+
  have near: "of_nat k < fr * 1000000 + 503 / 1000" "fr * 1000000 < of_nat k + 503 / 1000"
    using frac_millionths_near [OF fr] unfolding k_def abs_less_iff by simp_all
  have k: "k mod 1000000 = k"
    using frac_millionths_bounds(1) [OF fr] assms(2) by (simp add: k_def fr_def)
  have "round_double (1 / 10 ^ 9) \<le> 2 / 10 ^ 9"
    using round_double_error [of "1 / 10 ^ 9"] unfolding abs_le_iff by (simp add: field_simps)
  then have "\<bar>(if fr > round_double (1 / 10 ^ 9) then of_nat k / 1000000 else 0) - fr\<bar> \<le> 503 / 10 ^ 9"
    using near fr(1) unfolding abs_le_iff by (auto simp: field_simps)
  moreover have "decimal_value (dtoa_text neg m) - dval (Fin neg m) = (if neg then - 1 else 1) *
      ((if fr > round_double (1 / 10 ^ 9) then of_nat k / 1000000 else 0) - fr)"
    unfolding decimal_value_dtoa_text [OF assms(1)] fr_def [symmetric] k_def [symmetric] k by (simp add: fr_def)
  ultimately show ?thesis
    by (simp add: abs_mult)
qed

lemma digit_0: "digit 0 = CHR ''0''"
  by code_simp

lemma dtoa_text_carry:
  assumes "unat (frac_millionths (m - of_int \<lfloor>m\<rfloor>)) = 1000000"
  shows "dtoa_text neg m = (if neg then ''-'' else []) @ dec (nat \<lfloor>m\<rfloor>)"
proof -
  have "strip_zeros (six_digits 1000000) = []"
    by (simp add: strip_zeros_def six_digits_def two_digits_def digit_0)
  then show ?thesis
    using assms by (simp add: dtoa_text_def frac_text_def point_digits_def)
qed



end
