(* ===== verification/JsonBuffer.thy ===== *)
theory JsonBuffer
  imports Dtoa
begin

text \<open>
  Model of the buffered JSON writer of \<open>lib/dbapi.c\<close>: the 8 KiB stack buffer in front of an \<open>evbuffer\<close>, the escaping of
  strings, and the serialisation of a fetched row. A read or store outside a buffer is \<open>None\<close>.

  The contract of a buffered writer is the locale \<open>json_writer\<close>: what has been flushed followed by what is pending
  is everything that was added.
\<close>

section \<open>The buffer\<close>

definition JBUF_SIZE :: nat where
  "JBUF_SIZE = 8192"

record JsonBuffer =
  evbuf :: string
  stack_buf :: string
  jb_offset :: nat

definition jbuf_new :: "char \<Rightarrow> string \<Rightarrow> JsonBuffer" where
  "jbuf_new junk out = \<lparr>evbuf = out, stack_buf = replicate JBUF_SIZE junk, jb_offset = 0\<rparr>"

definition jbuf_flush :: "JsonBuffer \<Rightarrow> JsonBuffer" where
  "jbuf_flush j =
     (if jb_offset j > 0 then j\<lparr>evbuf := evbuf j @ take (jb_offset j) (stack_buf j), jb_offset := 0\<rparr> else j)"

definition jbuf_add :: "string \<Rightarrow> JsonBuffer \<Rightarrow> JsonBuffer option" where
  "jbuf_add data j =
     (let put = (\<lambda>j. map_option (\<lambda>blk. j\<lparr>stack_buf := blk, jb_offset := jb_offset j + length data\<rparr>)
                       (copy_into (stack_buf j) (jb_offset j) data))
      in if jb_offset j + length data > JBUF_SIZE
         then (let j1 = (if jb_offset j > 0
                         then j\<lparr>evbuf := evbuf j @ take (jb_offset j) (stack_buf j), jb_offset := 0\<rparr> else j)
               in if length data \<ge> JBUF_SIZE then Some (j1\<lparr>evbuf := evbuf j1 @ data\<rparr>) else put j1)
         else put j)"

definition jbuf_add_char :: "char \<Rightarrow> JsonBuffer \<Rightarrow> JsonBuffer option" where
  "jbuf_add_char c j =
     (let j1 = (if jb_offset j + 1 > JBUF_SIZE \<and> jb_offset j > 0
                then j\<lparr>evbuf := evbuf j @ take (jb_offset j) (stack_buf j), jb_offset := 0\<rparr> else j)
      in map_option (\<lambda>blk. j1\<lparr>stack_buf := blk, jb_offset := jb_offset j1 + 1\<rparr>) (store (stack_buf j1) (jb_offset j1) c))"


section \<open>Escaping\<close>

definition must_escape :: "char \<Rightarrow> bool" where
  "must_escape c \<longleftrightarrow> \<not> (c \<noteq> CHR 0x22 \<and> c \<noteq> CHR 0x5C \<and> (of_char c :: nat) \<ge> 0x20)"

text \<open>\<open>"%04x"\<close> and the \<open>switch\<close> on a character that needs escaping.\<close>

definition printf_04x :: "nat \<Rightarrow> string" where
  "printf_04x n = [hex ! (n div 4096 mod 16), hex ! (n div 256 mod 16), hex ! (n div 16 mod 16), hex ! (n mod 16)]"

definition escape_seq :: "char \<Rightarrow> string" where
  "escape_seq c =
     (if c = CHR 0x22 then [CHR 0x5C, CHR 0x22]
      else if c = CHR 0x5C then [CHR 0x5C, CHR 0x5C]
      else if c = CHR 0x08 then [CHR 0x5C, CHR ''b'']
      else if c = CHR 0x0C then [CHR 0x5C, CHR ''f'']
      else if c = CHR 0x0A then [CHR 0x5C, CHR ''n'']
      else if c = CHR 0x0D then [CHR 0x5C, CHR ''r'']
      else if c = CHR 0x09 then [CHR 0x5C, CHR ''t'']
      else [CHR 0x5C, CHR ''u''] @ printf_04x (of_char c))"

text \<open>\<open>if (clean_len > 0) jbuf_add(jbuf, start, clean_len)\<close>\<close>

definition add_clean :: "string \<Rightarrow> JsonBuffer \<Rightarrow> JsonBuffer option" where
  "add_clean run j = (if run \<noteq> [] then jbuf_add run j else Some j)"

text \<open>The loop over the string: \<open>run\<close> is the part between \<open>start\<close> and \<open>p\<close>.\<close>

fun escape_scan :: "string \<Rightarrow> string \<Rightarrow> JsonBuffer \<Rightarrow> JsonBuffer option" where
  "escape_scan run [] j = add_clean run j"
| "escape_scan run (c # cs) j =
     (if \<not> must_escape c then escape_scan (run @ [c]) cs j
      else do {
        j1 \<leftarrow> add_clean run j;
        j2 \<leftarrow> jbuf_add (escape_seq c) j1;
        escape_scan [] cs j2
      })"

definition jbuf_append_escaped_str :: "string \<Rightarrow> JsonBuffer \<Rightarrow> JsonBuffer option" where
  "jbuf_append_escaped_str str j = do {
     j1 \<leftarrow> jbuf_add_char (CHR 0x22) j;
     j2 \<leftarrow> escape_scan [] str j1;
     jbuf_add_char (CHR 0x22) j2
   }"

definition evbuffer_append_escaped_str :: "char \<Rightarrow> string \<Rightarrow> string \<Rightarrow> string option" where
  "evbuffer_append_escaped_str junk str out =
     map_option (\<lambda>j. evbuf (jbuf_flush j)) (jbuf_append_escaped_str str (jbuf_new junk out))"


section \<open>Rows\<close>

datatype c_type = SQL_C_BIT | SQL_C_SLONG | SQL_C_SBIGINT | SQL_C_DOUBLE | SQL_C_CHAR

text \<open>The contents of a bound column buffer, as the driver stored it.\<close>

datatype cell = Cell_bit "8 word" | Cell_int "32 word" | Cell_big "64 word" | Cell_double double | Cell_chars string

record ColumnDescriptor =
  col_buffer :: cell
  alloc_size :: nat
  col_ind :: int
  precomputed_key :: string
  name_len :: int
  col_sql_type :: int
  col_c_type :: c_type
  col_name :: string

definition SQL_NULL_DATA :: int where "SQL_NULL_DATA = - 1"
definition SQL_NO_TOTAL :: int where "SQL_NO_TOTAL = - 4"
definition SQL_NUMERIC :: int where "SQL_NUMERIC = 2"
definition SQL_DECIMAL :: int where "SQL_DECIMAL = 3"

text \<open>The first \<open>n\<close> bytes of a block.\<close>

definition read_block :: "string \<Rightarrow> int \<Rightarrow> string option" where
  "read_block blk n = (if 0 \<le> n \<and> nat n \<le> length blk then Some (take (nat n) blk) else None)"

text \<open>\<open>len = fast_xtoa(val, num_buf, sizeof(num_buf)); jbuf_add(jbuf, num_buf, len);\<close>\<close>

definition add_number :: "(nat \<times> string option) option \<Rightarrow> JsonBuffer \<Rightarrow> JsonBuffer option" where
  "add_number printed j =
     (case printed of Some (len, Some num_buf) \<Rightarrow> jbuf_add (take len num_buf) j | _ \<Rightarrow> None)"

text \<open>The length of a character value.\<close>

definition char_len :: "ColumnDescriptor \<Rightarrow> string \<Rightarrow> nat" where
  "char_len col buffer =
     (if col_ind col = SQL_NO_TOTAL then length (c_str buffer)
      else if col_ind col < 0 \<or> nat (col_ind col) \<ge> alloc_size col then alloc_size col - 1
      else nat (col_ind col))"

definition append_col_value :: "char \<Rightarrow> ColumnDescriptor \<Rightarrow> JsonBuffer \<Rightarrow> JsonBuffer option" where
  "append_col_value junk col j =
     (let num_buf = Some (replicate 64 junk)
      in case (col_c_type col, col_buffer col) of
           (SQL_C_BIT, Cell_bit v) \<Rightarrow> jbuf_add (if v \<noteq> 0 then ''true'' else ''false'') j
         | (SQL_C_SLONG, Cell_int v) \<Rightarrow> add_number (fast_itoa v num_buf) j
         | (SQL_C_SBIGINT, Cell_big v) \<Rightarrow> add_number (fast_ltoa v num_buf) j
         | (SQL_C_DOUBLE, Cell_double v) \<Rightarrow> add_number (fast_dtoa v num_buf) j
         | (SQL_C_CHAR, Cell_chars buffer) \<Rightarrow> do {
             val \<leftarrow> read_block buffer (int (char_len col buffer));
             (if col_sql_type col = SQL_DECIMAL \<or> col_sql_type col = SQL_NUMERIC
              then jbuf_add (if val = [] then ''null'' else val) j
              else jbuf_append_escaped_str val j)
           }
         | _ \<Rightarrow> None)"

text \<open>\<open>if (col->alloc_size > 0 && col->c_type == SQL_C_CHAR) col->buffer[col->alloc_size - 1] = 0;\<close>\<close>

definition terminate_chars :: "ColumnDescriptor \<Rightarrow> ColumnDescriptor option" where
  "terminate_chars col =
     (if alloc_size col > 0 \<and> col_c_type col = SQL_C_CHAR
      then (case col_buffer col of
              Cell_chars b \<Rightarrow> map_option (\<lambda>b1. col\<lparr>col_buffer := Cell_chars b1\<rparr>) (store b (alloc_size col - 1) (CHR 0x00))
            | _ \<Rightarrow> None)
      else Some col)"

definition append_key :: "ColumnDescriptor \<Rightarrow> JsonBuffer \<Rightarrow> JsonBuffer option" where
  "append_key col j =
     (if length (precomputed_key col) > 0 then jbuf_add (precomputed_key col) j
      else do {
        nm \<leftarrow> read_block (col_name col) (name_len col);
        j1 \<leftarrow> jbuf_append_escaped_str nm j;
        jbuf_add_char (CHR '':'') j1
      })"

fun append_cols :: "char \<Rightarrow> ColumnDescriptor list \<Rightarrow> JsonBuffer \<Rightarrow> JsonBuffer option" where
  "append_cols junk [] j = Some j"
| "append_cols junk (col # cols) j = do {
     j1 \<leftarrow> append_key col j;
     j2 \<leftarrow> (if col_ind col = SQL_NULL_DATA then jbuf_add ''null'' j1
           else do { col1 \<leftarrow> terminate_chars col; append_col_value junk col1 j1 });
     j3 \<leftarrow> (if cols \<noteq> [] then jbuf_add_char (CHR '','') j2 else Some j2);
     append_cols junk cols j3
   }"

definition jbuf_append_row_object :: "char \<Rightarrow> ColumnDescriptor list \<Rightarrow> JsonBuffer \<Rightarrow> JsonBuffer option" where
  "jbuf_append_row_object junk cols j = do {
     j1 \<leftarrow> jbuf_add_char (CHR ''{'') j;
     j2 \<leftarrow> append_cols junk cols j1;
     jbuf_add_char (CHR ''}'') j2
   }"


section \<open>The contract of a buffered writer\<close>

text \<open>An operation on a writer that never fails and appends a text to what the writer holds.\<close>

definition appends :: "('b \<Rightarrow> bool) \<Rightarrow> ('b \<Rightarrow> string) \<Rightarrow> ('b \<Rightarrow> 'b option) \<Rightarrow> string \<Rightarrow> bool" where
  "appends ok contents f s \<longleftrightarrow> (\<forall>j. ok j \<longrightarrow> (\<exists>j1. f j = Some j1 \<and> ok j1 \<and> contents j1 = contents j @ s))"

lemma appends_seq:
  "appends ok contents f s \<Longrightarrow> appends ok contents g t \<Longrightarrow> appends ok contents (\<lambda>j. f j \<bind> g) (s @ t)"
  unfolding appends_def by fastforce

lemma appends_none: "appends ok contents Some []"
  by (simp add: appends_def)

lemma appends_run:
  assumes "appends ok contents f s" "ok j"
  obtains j1 where "f j = Some j1" "ok j1" "contents j1 = contents j @ s"
  using assms by (auto simp: appends_def)

locale json_writer =
  fixes ok :: "'b \<Rightarrow> bool"
    and contents :: "'b \<Rightarrow> string"
    and flush :: "'b \<Rightarrow> 'b"
    and flushed :: "'b \<Rightarrow> string"
    and add :: "string \<Rightarrow> 'b \<Rightarrow> 'b option"
    and add_char :: "char \<Rightarrow> 'b \<Rightarrow> 'b option"
  assumes add_appends: "appends ok contents (add s) s"
    and add_char_appends: "appends ok contents (add_char c) [c]"
    and flush_ok: "ok j \<Longrightarrow> flushed (flush j) = contents j"
begin

lemma add_list: "appends ok contents (\<lambda>j. fold (\<lambda>s r. r \<bind> add s) ss (Some j)) (concat ss)"
proof (induction ss rule: rev_induct)
  case Nil
  then show ?case using appends_none by simp
next
  case (snoc s ss)
  show ?case using appends_seq [OF snoc add_appends [of s]] by simp
qed

lemma add_two: "appends ok contents (\<lambda>j. add s j \<bind> add_char c) (s @ [c])"
  by (rule appends_seq [OF add_appends add_char_appends])

lemma finish:
  assumes "appends ok contents f s" "ok j"
  shows "map_option (\<lambda>j. flushed (flush j)) (f j) = Some (contents j @ s)"
  by (rule appends_run [OF assms]) (simp add: flush_ok)

end


section \<open>The stack buffer meets the contract\<close>

definition jb_ok :: "JsonBuffer \<Rightarrow> bool" where
  "jb_ok j \<longleftrightarrow> length (stack_buf j) = JBUF_SIZE \<and> jb_offset j \<le> JBUF_SIZE"

definition jb_contents :: "JsonBuffer \<Rightarrow> string" where
  "jb_contents j = evbuf j @ take (jb_offset j) (stack_buf j)"

lemma jbuf_put:
  assumes "length blk = JBUF_SIZE" "off + length data \<le> JBUF_SIZE"
  shows "\<exists>blk1. copy_into blk off data = Some blk1 \<and> length blk1 = JBUF_SIZE \<and> take (off + length data) blk1 = take off blk @ data"
  using assms by (simp add: copy_into_def)

lemma jbuf_add_appends: "appends jb_ok jb_contents (jbuf_add s) s"
  unfolding appends_def
proof (intro allI impI)
  fix j assume j: "jb_ok j"
  define j1 where "j1 = (if jb_offset j + length s > JBUF_SIZE \<and> jb_offset j > 0
     then j\<lparr>evbuf := evbuf j @ take (jb_offset j) (stack_buf j), jb_offset := 0\<rparr> else j)"
  have j1: "jb_ok j1" "jb_contents j1 = jb_contents j"
    using j by (auto simp: j1_def jb_ok_def jb_contents_def)
  show "\<exists>k. jbuf_add s j = Some k \<and> jb_ok k \<and> jb_contents k = jb_contents j @ s"
  proof (cases "length s \<ge> JBUF_SIZE \<and> jb_offset j + length s > JBUF_SIZE")
    case True
    then show ?thesis
      using j by (auto simp: jbuf_add_def Let_def jb_ok_def jb_contents_def)
  next
    case False
    then have "jb_offset j1 + length s \<le> JBUF_SIZE"
      using j by (auto simp: j1_def jb_ok_def)
    then obtain blk where b: "copy_into (stack_buf j1) (jb_offset j1) s = Some blk" "length blk = JBUF_SIZE"
        "take (jb_offset j1 + length s) blk = take (jb_offset j1) (stack_buf j1) @ s"
      using jbuf_put [of "stack_buf j1" "jb_offset j1" s] j1(1) by (auto simp: jb_ok_def)
    have "jbuf_add s j = Some (j1\<lparr>stack_buf := blk, jb_offset := jb_offset j1 + length s\<rparr>)"
      using False b(1) by (auto simp: jbuf_add_def Let_def j1_def)
    then show ?thesis
      using b(2,3) j1 \<open>jb_offset j1 + length s \<le> JBUF_SIZE\<close> by (auto simp: jb_ok_def jb_contents_def)
  qed
qed

lemma jbuf_add_char_eq: "jb_ok j \<Longrightarrow> jbuf_add_char c j = jbuf_add [c] j"
  by (auto simp: jbuf_add_char_def jbuf_add_def Let_def jb_ok_def JBUF_SIZE_def store_def copy_into_def
    upd_conv_take_nth_drop)

interpretation jw: json_writer jb_ok jb_contents jbuf_flush evbuf jbuf_add jbuf_add_char
proof unfold_locales
  show "appends jb_ok jb_contents (jbuf_add_char c) [c]" for c
    using jbuf_add_appends [of "[c]"] jbuf_add_char_eq by (simp add: appends_def)
  show "jb_ok j \<Longrightarrow> evbuf (jbuf_flush j) = jb_contents j" for j
    by (simp add: jbuf_flush_def jb_contents_def)
qed (rule jbuf_add_appends)


section \<open>Strings\<close>

definition json_string :: "string \<Rightarrow> string" where
  "json_string s = CHR 0x22 # concat (map encode_char s) @ [CHR 0x22]"

lemma escape_seq_encode: "must_escape c \<Longrightarrow> escape_seq c = encode_char c"
  by (auto simp: must_escape_def escape_seq_def encode_char_def printf_04x_def hex_def)

lemma plain_encode: "\<not> must_escape c \<Longrightarrow> encode_char c = [c]"
  by (auto simp: must_escape_def encode_char_def)

lemma add_clean_appends: "appends jb_ok jb_contents (add_clean run) run"
  using jw.add_appends [of run] by (simp add: add_clean_def appends_def)

lemma escape_scan_appends: "appends jb_ok jb_contents (escape_scan run cs) (run @ concat (map encode_char cs))"
proof (induction cs arbitrary: run)
  case Nil
  then show ?case
    using add_clean_appends [of run] by (simp add: appends_def)
next
  case (Cons c cs)
  show ?case
  proof (cases "must_escape c")
    case True
    have "appends jb_ok jb_contents (\<lambda>j. add_clean run j \<bind> (\<lambda>j1. jbuf_add (encode_char c) j1 \<bind> escape_scan [] cs))
        (run @ encode_char c @ [] @ concat (map encode_char cs))"
      by (intro appends_seq add_clean_appends jw.add_appends Cons.IH)
    with True show ?thesis
      by (simp add: appends_def escape_seq_encode)
  next
    case False
    with Cons.IH [of "run @ [c]"] show ?thesis
      by (simp add: appends_def plain_encode)
  qed
qed

lemma escaped_str_appends: "appends jb_ok jb_contents (jbuf_append_escaped_str s) (json_string s)"
proof -
  have "appends jb_ok jb_contents (\<lambda>j. jbuf_add_char (CHR 0x22) j \<bind> (\<lambda>j1. escape_scan [] s j1 \<bind> jbuf_add_char (CHR 0x22)))
      ([CHR 0x22] @ ([] @ concat (map encode_char s)) @ [CHR 0x22])"
    by (intro appends_seq jw.add_char_appends escape_scan_appends)
  then show ?thesis
    by (simp add: jbuf_append_escaped_str_def json_string_def appends_def)
qed

lemma jbuf_new_ok [simp]: "jb_ok (jbuf_new junk out)" "jb_contents (jbuf_new junk out) = out"
  by (simp_all add: jb_ok_def jb_contents_def jbuf_new_def)

lemma evbuffer_append_escaped: "evbuffer_append_escaped_str junk s out = Some (out @ json_string s)"
  using jw.finish [OF escaped_str_appends jbuf_new_ok(1), of s junk out] by (simp add: evbuffer_append_escaped_str_def)


section \<open>Values and rows\<close>

text \<open>The text of a double: as \<open>fast_dtoa\<close> leaves it in a 64-byte buffer.\<close>

definition double_text :: "double \<Rightarrow> string" where
  "double_text v =
     (case v of
        Fin neg m \<Rightarrow> if m > 10 ^ 15 then (let t = printf_g17 neg m in if length t < 64 then t else []) else dtoa_text neg m
      | _ \<Rightarrow> ''0'')"

definition cell_ok :: "ColumnDescriptor \<Rightarrow> bool" where
  "cell_ok col \<longleftrightarrow>
     (case (col_c_type col, col_buffer col) of
        (SQL_C_BIT, Cell_bit _) \<Rightarrow> True
      | (SQL_C_SLONG, Cell_int _) \<Rightarrow> True
      | (SQL_C_SBIGINT, Cell_big _) \<Rightarrow> True
      | (SQL_C_DOUBLE, Cell_double v) \<Rightarrow> (case v of Fin _ m \<Rightarrow> 0 \<le> m | _ \<Rightarrow> True)
      | (SQL_C_CHAR, Cell_chars b) \<Rightarrow> length b = alloc_size col \<and> 0 < alloc_size col
      | _ \<Rightarrow> False)"

text \<open>The bytes of a character value, which are always inside the buffer.\<close>

definition chars_value :: "ColumnDescriptor \<Rightarrow> string \<Rightarrow> string" where
  "chars_value col b =
     (let b1 = b[alloc_size col - 1 := CHR 0x00] in take (char_len col b1) b1)"

definition value_json :: "ColumnDescriptor \<Rightarrow> string" where
  "value_json col =
     (if col_ind col = SQL_NULL_DATA then ''null''
      else
        (case col_buffer col of
           Cell_bit v \<Rightarrow> if v \<noteq> 0 then ''true'' else ''false''
         | Cell_int v \<Rightarrow> dec_int (sint v)
         | Cell_big v \<Rightarrow> dec_int (sint v)
         | Cell_double v \<Rightarrow> double_text v
         | Cell_chars b \<Rightarrow>
             (let val = chars_value col b
              in if col_sql_type col = SQL_DECIMAL \<or> col_sql_type col = SQL_NUMERIC
                 then (if val = [] then ''null'' else val)
                 else json_string val)))"

lemma fast_dtoa_64:
  assumes "case v of Fin _ m \<Rightarrow> 0 \<le> m | _ \<Rightarrow> True"
  shows "\<exists>n b. fast_dtoa v (Some (replicate 64 junk)) = Some (n, Some b) \<and> take n b = double_text v"
proof (cases v)
  case (Fin neg m)
  show ?thesis
  proof (cases "m > 10 ^ 15")
    case True
    then show ?thesis
      using Fin by (auto simp: fast_dtoa_def double_text_def Let_def snprintf_def)
  next
    case False
    then show ?thesis
      using fast_dtoa_text [of m "replicate 64 junk" neg] Fin assms by (auto simp: double_text_def)
  qed
qed (simp_all add: fast_dtoa_def double_text_def numeral_eq_Suc store_def)

lemma add_number_appends:
  assumes "printed = Some (n, Some b)"
  shows "appends jb_ok jb_contents (add_number printed) (take n b)"
  using jw.add_appends [of "take n b"] assms by (simp add: add_number_def appends_def)


context decimal_printer
begin

lemma print_take:
  assumes "\<bar>val w\<bar> < 10 ^ 20"
  shows "\<exists>b. print w (Some (replicate 64 junk)) = Some (length (dec_int (val w)), Some b) \<and>
    take (length (dec_int (val w))) b = dec_int (val w)"
proof -
  have "length (dec_int (val w)) \<le> 21"
    using length_dec_int_le [OF assms] by simp
  then show ?thesis
    by (simp add: print_spec Let_def)
qed

end

lemma sint_small: "\<bar>sint (v :: 32 word)\<bar> < 10 ^ 20" "\<bar>sint (w :: 64 word)\<bar> < 10 ^ 20"
  using sint_range_size [of v] sint_range_size [of w] by (simp_all add: word_size abs_less_iff)

lemma char_len_bound:
  assumes "length b = alloc_size col" "0 < alloc_size col" "last b = CHR 0x00"
  shows "char_len col b < alloc_size col"
proof -
  have "length (c_str b) < length b"
    using assms(2,3) unfolding assms(1) [symmetric]
    by (cases b rule: rev_cases) (auto simp: c_str_def takeWhile_append length_takeWhile_le le_imp_less_Suc)
  then show ?thesis
    using assms by (simp add: char_len_def)
qed

text \<open>Every value of a bound column is written without leaving a buffer.\<close>

lemma append_value_appends:
  assumes "cell_ok col" "col_ind col \<noteq> SQL_NULL_DATA"
  shows "appends jb_ok jb_contents (\<lambda>j. terminate_chars col \<bind> (\<lambda>col1. append_col_value junk col1 j)) (value_json col)"
proof (cases "col_buffer col")
  case (Cell_bit v)
  with assms have "col_c_type col = SQL_C_BIT"
    by (cases "col_c_type col") (auto simp: cell_ok_def)
  with Cell_bit assms show ?thesis
    using jw.add_appends by (simp add: terminate_chars_def append_col_value_def value_json_def)
next
  case (Cell_int v)
  with assms have t: "col_c_type col = SQL_C_SLONG"
    by (cases "col_c_type col") (auto simp: cell_ok_def)
  obtain b where "fast_itoa v (Some (replicate 64 junk)) = Some (length (dec_int (sint v)), Some b)"
      "take (length (dec_int (sint v))) b = dec_int (sint v)"
    using itoa.print_take [OF sint_small(1)] by blast
  with Cell_int assms t show ?thesis
    using add_number_appends [of "fast_itoa v (Some (replicate 64 junk))"]
    by (simp add: terminate_chars_def append_col_value_def value_json_def)
next
  case (Cell_big v)
  with assms have t: "col_c_type col = SQL_C_SBIGINT"
    by (cases "col_c_type col") (auto simp: cell_ok_def)
  obtain b where "fast_ltoa v (Some (replicate 64 junk)) = Some (length (dec_int (sint v)), Some b)"
      "take (length (dec_int (sint v))) b = dec_int (sint v)"
    using ltoa.print_take [OF sint_small(2)] by blast
  with Cell_big assms t show ?thesis
    using add_number_appends [of "fast_ltoa v (Some (replicate 64 junk))"]
    by (simp add: terminate_chars_def append_col_value_def value_json_def)
next
  case (Cell_double v)
  with assms have t: "col_c_type col = SQL_C_DOUBLE" "case v of Fin _ m \<Rightarrow> 0 \<le> m | _ \<Rightarrow> True"
    by (cases "col_c_type col"; simp add: cell_ok_def)+
  obtain n b where "fast_dtoa v (Some (replicate 64 junk)) = Some (n, Some b)" "take n b = double_text v"
    using fast_dtoa_64 [OF t(2)] by blast
  with Cell_double assms t show ?thesis
    using add_number_appends [of "fast_dtoa v (Some (replicate 64 junk))"]
    by (simp add: terminate_chars_def append_col_value_def value_json_def)
next
  case (Cell_chars b)
  with assms have t: "col_c_type col = SQL_C_CHAR" "length b = alloc_size col" "0 < alloc_size col"
    by (cases "col_c_type col"; simp add: cell_ok_def)+
  define b1 where "b1 = b[alloc_size col - 1 := CHR 0x00]"
  have "last b1 = CHR 0x00"
    using t(2,3) by (cases b rule: rev_cases) (auto simp: b1_def list_update_append last_append)
  then have "read_block b1 (int (char_len col b1)) = Some (take (char_len col b1) b1)"
    using char_len_bound [of b1 col] t by (simp add: b1_def read_block_def)
  moreover have "chars_value col b = take (char_len col b1) b1"
    by (simp add: chars_value_def b1_def Let_def)
  moreover have "terminate_chars col = Some (col\<lparr>col_buffer := Cell_chars b1\<rparr>)"
    using t Cell_chars by (simp add: terminate_chars_def b1_def store_def)
  moreover have "char_len (col\<lparr>col_buffer := Cell_chars b1\<rparr>) b1 = char_len col b1"
    by (simp add: char_len_def)
  ultimately show ?thesis
    using Cell_chars assms(2) t(1) jw.add_appends escaped_str_appends
    by (simp add: append_col_value_def value_json_def Let_def del: take_eq_Nil)
qed


definition key_ok :: "ColumnDescriptor \<Rightarrow> bool" where
  "key_ok col \<longleftrightarrow> precomputed_key col \<noteq> [] \<or> (0 \<le> name_len col \<and> nat (name_len col) \<le> length (col_name col))"

definition key_json :: "ColumnDescriptor \<Rightarrow> string" where
  "key_json col =
     (if precomputed_key col \<noteq> [] then precomputed_key col
      else json_string (take (nat (name_len col)) (col_name col)) @ '':'')"

lemma append_key_appends:
  assumes "key_ok col"
  shows "appends jb_ok jb_contents (append_key col) (key_json col)"
proof (cases "precomputed_key col = []")
  case False
  then show ?thesis
    using jw.add_appends by (simp add: append_key_def key_json_def appends_def)
next
  case True
  have "appends jb_ok jb_contents (\<lambda>j. jbuf_append_escaped_str (take (nat (name_len col)) (col_name col)) j \<bind> jbuf_add_char (CHR '':''))
      (json_string (take (nat (name_len col)) (col_name col)) @ '':'')"
    by (intro appends_seq escaped_str_appends jw.add_char_appends)
  with True assms show ?thesis
    by (simp add: append_key_def key_json_def key_ok_def read_block_def appends_def)
qed

fun join :: "string \<Rightarrow> string list \<Rightarrow> string" where
  "join sep [] = []"
| "join sep [x] = x"
| "join sep (x # y # xs) = x @ sep @ join sep (y # xs)"

definition row_json :: "ColumnDescriptor list \<Rightarrow> string" where
  "row_json cols = ''{'' @ join '','' (map (\<lambda>col. key_json col @ value_json col) cols) @ ''}''"

definition row_ok :: "ColumnDescriptor list \<Rightarrow> bool" where
  "row_ok cols \<longleftrightarrow> list_all (\<lambda>col. key_ok col \<and> (col_ind col = SQL_NULL_DATA \<or> cell_ok col)) cols"

lemma append_cols_appends:
  "row_ok cols \<Longrightarrow> appends jb_ok jb_contents (append_cols junk cols) (join '','' (map (\<lambda>col. key_json col @ value_json col) cols))"
proof (induction cols)
  case Nil
  then show ?case using appends_none by (simp add: appends_def)
next
  case (Cons col cols)
  define value_step where "value_step = (\<lambda>j. if col_ind col = SQL_NULL_DATA then jbuf_add ''null'' j
     else terminate_chars col \<bind> (\<lambda>col1. append_col_value junk col1 j))"
  define comma_step where "comma_step = (\<lambda>j. if cols \<noteq> [] then jbuf_add_char (CHR '','') j else Some j)"
  have v: "appends jb_ok jb_contents value_step (value_json col)"
    using append_value_appends [of col junk] jw.add_appends [of "''null''"] Cons.prems
    by (auto simp: value_step_def row_ok_def value_json_def)
  have c: "appends jb_ok jb_contents comma_step (if cols \<noteq> [] then '','' else [])"
    using jw.add_char_appends appends_none [of jb_ok jb_contents] by (simp add: comma_step_def)
  have k: "key_ok col" "row_ok cols"
    using Cons.prems by (simp_all add: row_ok_def)
  have "appends jb_ok jb_contents (\<lambda>j. append_key col j \<bind> (\<lambda>j. value_step j \<bind> (\<lambda>j. comma_step j \<bind> append_cols junk cols)))
      (key_json col @ value_json col @ (if cols \<noteq> [] then '','' else []) @ join '','' (map (\<lambda>col. key_json col @ value_json col) cols))"
    by (intro appends_seq append_key_appends k v c Cons.IH)
  then show ?case
    by (cases cols) (simp_all add: appends_def value_step_def comma_step_def)
qed

lemma append_row_appends:
  assumes "row_ok cols"
  shows "appends jb_ok jb_contents (jbuf_append_row_object junk cols) (row_json cols)"
proof -
  have "appends jb_ok jb_contents (\<lambda>j. jbuf_add_char (CHR ''{'') j \<bind> (\<lambda>j. append_cols junk cols j \<bind> jbuf_add_char (CHR ''}'')))
      (''{'' @ join '','' (map (\<lambda>col. key_json col @ value_json col) cols) @ ''}'')"
    by (intro appends_seq jw.add_char_appends append_cols_appends assms)
  then show ?thesis
    by (simp add: jbuf_append_row_object_def row_json_def appends_def)
qed


section \<open>Properties\<close>

text \<open>Any sequence of writes, and the text each of them stands for.\<close>

datatype jbuf_op = Op_add string | Op_char char | Op_string string | Op_row "ColumnDescriptor list"

fun jbuf_do :: "char \<Rightarrow> jbuf_op \<Rightarrow> JsonBuffer \<Rightarrow> JsonBuffer option" where
  "jbuf_do junk (Op_add s) = jbuf_add s"
| "jbuf_do junk (Op_char c) = jbuf_add_char c"
| "jbuf_do junk (Op_string s) = jbuf_append_escaped_str s"
| "jbuf_do junk (Op_row cols) = jbuf_append_row_object junk cols"

fun op_text :: "jbuf_op \<Rightarrow> string" where
  "op_text (Op_add s) = s"
| "op_text (Op_char c) = [c]"
| "op_text (Op_string s) = json_string s"
| "op_text (Op_row cols) = row_json cols"

fun op_ok :: "jbuf_op \<Rightarrow> bool" where
  "op_ok (Op_row cols) = row_ok cols"
| "op_ok _ = True"

fun jbuf_run :: "char \<Rightarrow> jbuf_op list \<Rightarrow> JsonBuffer \<Rightarrow> JsonBuffer option" where
  "jbuf_run junk [] j = Some j"
| "jbuf_run junk (p # ps) j = jbuf_do junk p j \<bind> jbuf_run junk ps"

lemma jbuf_do_appends: "op_ok p \<Longrightarrow> appends jb_ok jb_contents (jbuf_do junk p) (op_text p)"
  by (cases p) (simp_all add: jw.add_appends jw.add_char_appends escaped_str_appends append_row_appends)

lemma jbuf_run_appends:
  "list_all op_ok ps \<Longrightarrow> appends jb_ok jb_contents (jbuf_run junk ps) (concat (map op_text ps))"
proof (induction ps)
  case Nil
  then show ?case using appends_none [of jb_ok jb_contents] by (simp add: appends_def)
next
  case (Cons p ps)
  then have "appends jb_ok jb_contents (\<lambda>j. jbuf_do junk p j \<bind> jbuf_run junk ps) (op_text p @ concat (map op_text ps))"
    by (intro appends_seq jbuf_do_appends) simp_all
  then show ?case
    by (simp add: appends_def)
qed

text \<open>C11: The buffered JSON writer implements the plain one: whatever sequence of bytes, characters, strings and rows is
  written, and wherever the 8 KiB buffer fills up, after the final flush the output holds exactly the texts of
  these writes in order, and no read or store leaves a buffer; each string between its quotes decodes to the original.
\<close>

theorem json_buffer_refines:
  assumes "list_all op_ok ps"
  shows "map_option (\<lambda>j. evbuf (jbuf_flush j)) (jbuf_run junk ps (jbuf_new junk out)) = Some (out @ concat (map op_text ps)) \<and>
    (\<exists>body. op_text (Op_string s) = [CHR 0x22] @ body @ [CHR 0x22] \<and> json_unescape body = Some s)"
proof
  show "map_option (\<lambda>j. evbuf (jbuf_flush j)) (jbuf_run junk ps (jbuf_new junk out)) = Some (out @ concat (map op_text ps))"
    using jw.finish [OF jbuf_run_appends [OF assms] jbuf_new_ok(1), of junk junk out] by simp
  show "\<exists>body. op_text (Op_string s) = [CHR 0x22] @ body @ [CHR 0x22] \<and> json_unescape body = Some s"
    by (intro exI [of _ "concat (map encode_char s)"]) (simp add: json_string_def enc.decode_all)
qed

definition sample_col :: ColumnDescriptor where
  "sample_col = \<lparr>col_buffer = Cell_chars ''a'' , alloc_size = 1, col_ind = SQL_NULL_DATA, precomputed_key = [], name_len = 1,
     col_sql_type = 12, col_c_type = SQL_C_CHAR, col_name = ''k''\<rparr>"

theorem json_buffer_refines_witness:
  "map_option (\<lambda>j. evbuf (jbuf_flush j))
     (jbuf_run CHR ''?'' [Op_char CHR ''['', Op_row [sample_col], Op_add '']''] (jbuf_new CHR ''?'' [])) =
   Some ([CHR ''['', CHR ''{'', CHR 0x22, CHR ''k'', CHR 0x22] @ '':null}]'')"
proof -
  have ok: "list_all op_ok [Op_char CHR ''['', Op_row [sample_col], Op_add '']'']"
    by (simp add: row_ok_def key_ok_def sample_col_def)
  have "concat (map op_text [Op_char CHR ''['', Op_row [sample_col], Op_add '']'']) =
      [CHR ''['', CHR ''{'', CHR 0x22, CHR ''k'', CHR 0x22] @ '':null}]''"
    by (simp add: row_json_def key_json_def value_json_def json_string_def sample_col_def encode_char_def)
  then show ?thesis
    using json_buffer_refines [OF ok, of "CHR ''?''" "[]"] by simp
qed

end
