(* ===== verification/DbConn.thy ===== *)
theory DbConn
  imports JsonBuffer Config Context
begin

text \<open>
  Model of the connections of \<open>lib/dbapi.c\<close>: the thread-local ODBC handles, diagnostics, and the binding of query
  parameters.

  ODBC is a parameter, the record \<open>odbc\<close> of its functions on a state of its own; handles are positive numbers
  and 0 is the null handle. The model keeps the list \<open>live\<close> of the handles allocated and not freed, and records in
  \<open>db_fault\<close> that a handle was used after it was freed, and in \<open>db_overread\<close> that memory was accessed outside a buffer;
  these fields stand for nothing in the code, which never reads them.
  The warnings logged about unsupported attributes are left out.
\<close>

section \<open>ODBC\<close>

datatype SQLRETURN = SQL_SUCCESS | SQL_SUCCESS_WITH_INFO | SQL_NO_DATA | SQL_FAIL int

definition SQL_SUCCEEDED :: "SQLRETURN \<Rightarrow> bool" where
  "SQL_SUCCEEDED r \<longleftrightarrow> r = SQL_SUCCESS \<or> r = SQL_SUCCESS_WITH_INFO"

record diag_rec =
  sqlState :: cstring
  nativeError :: int
  diag_msg :: cstring

text \<open>A parameter of a query, and what is bound for it.\<close>

datatype QueryParam = PARAM_STRING cstring_ptr | PARAM_INT "32 word option" | PARAM_DOUBLE "double option" | PARAM_NULL

datatype bound = Bound_null c_type | Bound_string nat cstring | Bound_int "32 word" | Bound_double double

text \<open>What \<open>SQLDescribeCol\<close> tells about a column: the 128 bytes of the name buffer, the length of the name, type and size.\<close>

record col_info =
  ci_name :: string
  ci_name_len :: int
  ci_sql_type :: int
  ci_size :: nat

record 'w odbc =
  odbc_alloc :: "nat list \<Rightarrow> 'w \<Rightarrow> nat option \<times> 'w"
  odbc_set_attr :: "nat \<Rightarrow> string \<Rightarrow> nat \<Rightarrow> 'w \<Rightarrow> 'w"
  odbc_connect :: "nat \<Rightarrow> cstring \<Rightarrow> 'w \<Rightarrow> SQLRETURN \<times> 'w"
  odbc_diag :: "nat option \<Rightarrow> 'w \<Rightarrow> diag_rec list"
  odbc_free :: "nat \<Rightarrow> 'w \<Rightarrow> 'w"
  odbc_close :: "nat \<Rightarrow> string \<Rightarrow> 'w \<Rightarrow> 'w"
  odbc_bind_parameter :: "nat \<Rightarrow> nat \<Rightarrow> bound \<Rightarrow> 'w \<Rightarrow> SQLRETURN \<times> 'w"
  odbc_exec :: "nat \<Rightarrow> cstring \<Rightarrow> 'w \<Rightarrow> SQLRETURN \<times> 'w"
  odbc_num_cols :: "nat \<Rightarrow> 'w \<Rightarrow> SQLRETURN \<times> int \<times> 'w"
  odbc_describe :: "nat \<Rightarrow> nat \<Rightarrow> 'w \<Rightarrow> SQLRETURN \<times> col_info \<times> 'w"
  odbc_bind_col :: "nat \<Rightarrow> nat \<Rightarrow> c_type \<Rightarrow> nat \<Rightarrow> nat \<Rightarrow> 'w \<Rightarrow> SQLRETURN \<times> 'w"
  odbc_fetch :: "nat \<Rightarrow> 'w \<Rightarrow> SQLRETURN \<times> (cell \<times> int) list \<times> 'w"
  odbc_get_data :: "nat \<Rightarrow> 'w \<Rightarrow> SQLRETURN \<times> string \<times> int option \<times> 'w"
  odbc_more :: "nat \<Rightarrow> 'w \<Rightarrow> SQLRETURN \<times> 'w"
  odbc_memory :: "'w \<Rightarrow> bool \<times> 'w"

text \<open>The library never hands out the null handle or a handle that is in use.\<close>

definition odbc_fresh :: "'w odbc \<Rightarrow> bool" where
  "odbc_fresh O' \<longleftrightarrow> (\<forall>l w h w'. odbc_alloc O' l w = (Some h, w') \<longrightarrow> h \<noteq> 0 \<and> h \<notin> set l)"


section \<open>The state of a thread\<close>

definition MAX_DB_CONNECTIONS :: int where
  "MAX_DB_CONNECTIONS = 4"

record 'w db =
  tl_hdbc :: "nat list"
  tl_hstmt :: "nat list"
  tl_last_native_error :: int
  tl_last_error_msg :: cstring
  db_error :: thread_error
  live :: "nat list"
  db_fault :: bool
  db_overread :: bool
  world :: 'w

text \<open>Using a handle, and running a function of ODBC on it.\<close>

definition touch :: "nat \<Rightarrow> 'w db \<Rightarrow> 'w db" where
  "touch h s = (if h \<in> set (live s) then s else s\<lparr>db_fault := True\<rparr>)"

definition on_handle :: "nat \<Rightarrow> ('w \<Rightarrow> 'w) \<Rightarrow> 'w db \<Rightarrow> 'w db" where
  "on_handle h f s = (touch h s)\<lparr>world := f (world s)\<rparr>"

definition free_handle :: "'w odbc \<Rightarrow> nat \<Rightarrow> 'w db \<Rightarrow> 'w db" where
  "free_handle O' h s = (on_handle h (odbc_free O' h) s)\<lparr>live := removeAll h (live s)\<rparr>"

definition db_reset_connection :: "'w odbc \<Rightarrow> int \<Rightarrow> 'w db \<Rightarrow> 'w db" where
  "db_reset_connection O' db_id s =
     (if db_id < 0 \<or> db_id \<ge> MAX_DB_CONNECTIONS then s
      else
        (let i = nat db_id;
             s1 = (if tl_hstmt s ! i \<noteq> 0
                   then (free_handle O' (tl_hstmt s ! i) s)\<lparr>tl_hstmt := (tl_hstmt s)[i := 0]\<rparr> else s)
         in if tl_hdbc s1 ! i \<noteq> 0
            then (free_handle O' (tl_hdbc s1 ! i) (on_handle (tl_hdbc s1 ! i) (odbc_close O' (tl_hdbc s1 ! i) ''SQLDisconnect'') s1))
                   \<lparr>tl_hdbc := (tl_hdbc s1)[i := 0]\<rparr>
            else s1))"

definition tl_hdbc_destructor :: "'w odbc \<Rightarrow> 'w db \<Rightarrow> 'w db" where
  "tl_hdbc_destructor O' s = fold (db_reset_connection O') [0 .. MAX_DB_CONNECTIONS - 1] s"


section \<open>Diagnostics\<close>

function clean_odbc_error_message :: "cstring \<Rightarrow> cstring" where
  "clean_odbc_error_message msg =
     (if msg \<noteq> [] \<and> hd msg = CHR ''['' \<and> dropWhile (\<lambda>c. c \<noteq> CHR '']'') msg \<noteq> []
      then clean_odbc_error_message (dropWhile (\<lambda>c. c = CHR '' '') (tl (dropWhile (\<lambda>c. c \<noteq> CHR '']'') msg)))
      else msg)"
  by pat_completeness auto
termination
proof (relation "measure length")
  fix msg :: cstring
  assume "msg \<noteq> [] \<and> hd msg = CHR ''['' \<and> dropWhile (\<lambda>c. c \<noteq> CHR '']'') msg \<noteq> []"
  then have "length (tl (dropWhile (\<lambda>c. c \<noteq> CHR '']'') msg)) < length msg"
    using length_dropWhile_le [of "\<lambda>c. c \<noteq> CHR '']''" msg] by (cases msg) (auto simp: less_eq_Suc_le)
  then show "(dropWhile (\<lambda>c. c = CHR '' '') (tl (dropWhile (\<lambda>c. c \<noteq> CHR '']'') msg)), msg) \<in> measure length"
    using length_dropWhile_le [of "\<lambda>c. c = CHR '' ''" "tl (dropWhile (\<lambda>c. c \<noteq> CHR '']'') msg)"] by simp
qed simp

declare clean_odbc_error_message.simps [simp del]

text \<open>The text of one record is appended while there is room; the offset advances by its full length.\<close>

definition add_diag_text :: "diag_rec \<Rightarrow> cstring \<times> nat \<Rightarrow> cstring \<times> nat" where
  "add_diag_text r m =
     (let (full_msg, offset) = m; text = ''['' @ sqlState r @ ''] '' @ diag_msg r @ ''; ''
      in if offset < 1023 then (full_msg @ snprintf text (1024 - offset), offset + length text) else m)"

definition is_disconnect :: "diag_rec \<Rightarrow> bool" where
  "is_disconnect r \<longleftrightarrow> take 5 (sqlState r) = ''08S01'' \<or> take 5 (sqlState r) = ''08003''"

definition note_native :: "diag_rec \<Rightarrow> 'w db \<Rightarrow> 'w db" where
  "note_native r s =
     (if nativeError r \<ge> 50000
      then s\<lparr>tl_last_native_error := nativeError r, tl_last_error_msg := snprintf (clean_odbc_error_message (diag_msg r)) 512\<rparr>
      else s)"

text \<open>The handle is \<open>None\<close> for the environment.\<close>

definition db_set_error :: "'w odbc \<Rightarrow> int \<Rightarrow> nat option \<Rightarrow> string \<Rightarrow> 'w db \<Rightarrow> 'w db" where
  "db_set_error O' db_id handle context_msg s =
     (let s1 = (case handle of None \<Rightarrow> s | Some h \<Rightarrow> touch h s);
          recs = odbc_diag O' handle (world s);
          s2 = fold note_native recs s1;
          full_msg = fst (fold add_diag_text recs ([], 0))
      in if recs \<noteq> []
         then (let s3 = s2\<lparr>db_error := set_thread_error TL_ERR_ERROR (context_msg @ '' | ODBC Error: '' @ full_msg) (db_error s2)\<rparr>
               in if list_ex is_disconnect recs
                  then db_reset_connection O' db_id (s3\<lparr>db_error := set_thread_error TL_ERR_ERROR
                         ''Database connection lost. Resetting thread-local connection pool.'' (db_error s3)\<rparr>)
                  else s3)
         else s2\<lparr>db_error := set_thread_error TL_ERR_ERROR (context_msg @ '' | Unknown ODBC Error'') (db_error s2)\<rparr>)"


section \<open>Connections and statements\<close>

definition db_connect :: "'w odbc \<Rightarrow> config \<Rightarrow> int \<Rightarrow> 'w db \<Rightarrow> nat \<times> 'w db" where
  "db_connect O' cfg db_id s =
     (if db_id < 0 \<or> db_id \<ge> MAX_DB_CONNECTIONS then (0, s)
      else
        (let i = nat db_id
         in if tl_hdbc s ! i \<noteq> 0 then (tl_hdbc s ! i, s)
            else
              (let conn_str = config_get_odbc_conn_str cfg db_id
               in if conn_str = []
                  then (0, s\<lparr>db_error := set_thread_error TL_ERR_ERROR
                         (''Attempted to connect to unconfigured database DB_'' @ dec_int db_id) (db_error s)\<rparr>)
                  else
                    (case odbc_alloc O' (live s) (world s) of
                       (None, w) \<Rightarrow>
                         (0, db_set_error O' db_id None ''Failed to allocate ODBC connection handle''
                               (s\<lparr>world := w, tl_hdbc := (tl_hdbc s)[i := 0]\<rparr>))
                     | (Some h, w) \<Rightarrow>
                         (let s1 = s\<lparr>world := w, live := h # live s, tl_hdbc := (tl_hdbc s)[i := h]\<rparr>;
                              s2 = on_handle h (odbc_set_attr O' h ''SQL_ATTR_LOGIN_TIMEOUT'' 5) s1;
                              s3 = on_handle h (odbc_set_attr O' h ''SQL_ATTR_CONNECTION_TIMEOUT'' 30) s2;
                              (ret, w4) = odbc_connect O' h conn_str (world s3);
                              s4 = (touch h s3)\<lparr>world := w4\<rparr>
                          in if \<not> SQL_SUCCEEDED ret
                             then (0, db_reset_connection O' db_id
                                        (db_set_error O' db_id (Some h) ''Failed to connect to database'' s4))
                             else (tl_hdbc s4 ! i, s4))))))"

definition db_alloc_stmt :: "'w odbc \<Rightarrow> int \<Rightarrow> nat \<Rightarrow> 'w db \<Rightarrow> nat \<times> 'w db" where
  "db_alloc_stmt O' db_id hdbc s =
     (if db_id < 0 \<or> db_id \<ge> MAX_DB_CONNECTIONS then (0, s)
      else
        (let i = nat db_id
         in if tl_hstmt s ! i \<noteq> 0 then (tl_hstmt s ! i, s)
            else
              (case odbc_alloc O' (live s) (world s) of
                 (None, w) \<Rightarrow>
                   (0, db_reset_connection O' db_id
                         (db_set_error O' db_id (Some hdbc) ''Failed to allocate ODBC statement handle''
                            ((touch hdbc s)\<lparr>world := w\<rparr>)))
               | (Some h, w) \<Rightarrow>
                   (let s1 = (touch hdbc s)\<lparr>world := w, live := h # live s\<rparr>;
                        s2 = on_handle h (odbc_set_attr O' h ''SQL_ATTR_QUERY_TIMEOUT'' 5) s1
                    in (h, s2\<lparr>tl_hstmt := (tl_hstmt s2)[i := h]\<rparr>)))))"

definition db_is_valid_stmt :: "nat \<Rightarrow> 'w db \<Rightarrow> bool" where
  "db_is_valid_stmt hstmt s \<longleftrightarrow> hstmt \<noteq> 0 \<and> hstmt \<in> set (tl_hstmt s)"

definition db_cleanup_stmt :: "'w odbc \<Rightarrow> nat \<Rightarrow> 'w db \<Rightarrow> 'w db" where
  "db_cleanup_stmt O' hstmt s =
     (if db_is_valid_stmt hstmt s
      then on_handle hstmt (odbc_close O' hstmt ''SQL_UNBIND'')
             (on_handle hstmt (odbc_close O' hstmt ''SQL_RESET_PARAMS'') (on_handle hstmt (odbc_close O' hstmt ''SQL_CLOSE'') s))
      else s)"


section \<open>Parameters\<close>

text \<open>The value bound for a parameter: an empty string is bound as SQL null, like a null pointer.\<close>

fun bound_value :: "QueryParam \<Rightarrow> bound" where
  "bound_value (PARAM_STRING (Some str)) = (if str \<noteq> [] then Bound_string (length str) str else Bound_null SQL_C_CHAR)"
| "bound_value (PARAM_STRING None) = Bound_null SQL_C_CHAR"
| "bound_value (PARAM_INT (Some v)) = Bound_int v"
| "bound_value (PARAM_INT None) = Bound_null SQL_C_SLONG"
| "bound_value (PARAM_DOUBLE (Some v)) = Bound_double v"
| "bound_value (PARAM_DOUBLE None) = Bound_null SQL_C_DOUBLE"
| "bound_value PARAM_NULL = Bound_null SQL_C_CHAR"

definition db_bind_param :: "'w odbc \<Rightarrow> int \<Rightarrow> nat \<Rightarrow> nat \<Rightarrow> QueryParam \<Rightarrow> 'w db \<Rightarrow> bool \<times> 'w db" where
  "db_bind_param O' db_id hstmt param_idx param s =
     (let (ret, w) = odbc_bind_parameter O' hstmt param_idx (bound_value param) (world s);
          s1 = (touch hstmt s)\<lparr>world := w\<rparr>
      in if \<not> SQL_SUCCEEDED ret then (False, db_set_error O' db_id (Some hstmt) ''Failed to bind parameter'' s1)
         else (True, s1))"

fun bind_params :: "'w odbc \<Rightarrow> int \<Rightarrow> nat \<Rightarrow> nat \<Rightarrow> QueryParam list \<Rightarrow> 'w db \<Rightarrow> bool \<times> 'w db" where
  "bind_params O' db_id hstmt i [] s = (True, s)"
| "bind_params O' db_id hstmt i (p # ps) s =
     (case db_bind_param O' db_id hstmt (i + 1) p s of
        (False, s1) \<Rightarrow> (False, s1)
      | (True, s1) \<Rightarrow> bind_params O' db_id hstmt (i + 1) ps s1)"

text \<open>The result is the verdict, the statement in the caller's variable (0 if it was not set) and the state.\<close>

definition db_prepare_and_bind ::
  "'w odbc \<Rightarrow> config \<Rightarrow> int \<Rightarrow> QueryParam list \<Rightarrow> 'w db \<Rightarrow> bool \<times> nat \<times> 'w db"
where
  "db_prepare_and_bind O' cfg db_id params s =
     (case db_connect O' cfg db_id s of
        (hdbc, s1) \<Rightarrow>
          (if hdbc = 0 then (False, 0, s1)
           else
             (case db_alloc_stmt O' db_id hdbc s1 of
                (hstmt, s2) \<Rightarrow>
                  (if hstmt = 0 then (False, 0, s2)
                   else (case bind_params O' db_id hstmt 0 params s2 of (ok, s3) \<Rightarrow> (ok, hstmt, s3))))))"


section \<open>Handles are used only while they are allocated\<close>

definition handles :: "'w db \<Rightarrow> nat list" where
  "handles s = tl_hdbc s @ tl_hstmt s"

text \<open>The handles of a thread are allocated, and no two slots hold the same one.\<close>

definition handles_ok :: "nat list \<Rightarrow> nat list \<Rightarrow> bool" where
  "handles_ok xs l \<longleftrightarrow>
     (\<forall>k < length xs. xs ! k \<noteq> 0 \<longrightarrow> xs ! k \<in> set l \<and> (\<forall>m < length xs. k \<noteq> m \<longrightarrow> xs ! k \<noteq> xs ! m))"

definition db_inv :: "'w db \<Rightarrow> bool" where
  "db_inv s \<longleftrightarrow> length (tl_hdbc s) = 4 \<and> length (tl_hstmt s) = 4 \<and> handles_ok (handles s) (live s) \<and> \<not> db_fault s"

lemma handles_ok_free:
  assumes "handles_ok xs l" "k < length xs"
  shows "handles_ok (xs[k := 0]) (removeAll (xs ! k) l)"
  using assms unfolding handles_ok_def by (auto simp: nth_list_update)

lemma handles_ok_new:
  assumes "handles_ok xs l" "k < length xs" "h \<noteq> 0" "h \<notin> set l"
  shows "handles_ok (xs[k := h]) (h # l)"
  using assms unfolding handles_ok_def by (auto simp: nth_list_update)

lemma handles_ok_clear:
  assumes "handles_ok xs l" "k < length xs"
  shows "handles_ok (xs[k := 0]) l"
  using assms unfolding handles_ok_def by (auto simp: nth_list_update)

lemma touch_live [simp]: "h \<in> set (live s) \<Longrightarrow> touch h s = s"
  by (simp add: touch_def)

lemma on_handle_live [simp]: "h \<in> set (live s) \<Longrightarrow> on_handle h f s = s\<lparr>world := f (world s)\<rparr>"
  by (simp add: on_handle_def)

lemma free_handle_live [simp]:
  "h \<in> set (live s) \<Longrightarrow> free_handle O' h s = s\<lparr>world := odbc_free O' h (world s), live := removeAll h (live s)\<rparr>"
  by (simp add: free_handle_def)

text \<open>Changes to the other fields keep the invariant.\<close>

lemma db_inv_world [simp]: "db_inv (s\<lparr>world := w\<rparr>) = db_inv s"
  by (simp add: db_inv_def handles_def)

lemma db_inv_overread [simp]: "db_inv (s\<lparr>db_overread := b\<rparr>) = db_inv s"
  by (simp add: db_inv_def handles_def)

lemma db_inv_error [simp]: "db_inv (s\<lparr>db_error := e\<rparr>) = db_inv s"
  by (simp add: db_inv_def handles_def)

lemma db_inv_native [simp]: "db_inv (s\<lparr>tl_last_native_error := e, tl_last_error_msg := m\<rparr>) = db_inv s"
  by (simp add: db_inv_def handles_def)

lemma db_inv_stmt_live:
  assumes "db_inv s" "i < 4" "tl_hstmt s ! i \<noteq> 0"
  shows "tl_hstmt s ! i \<in> set (live s)"
proof -
  have "4 + i < length (handles s)" "handles s ! (4 + i) = tl_hstmt s ! i"
    using assms by (simp_all add: db_inv_def handles_def nth_append)
  with assms show ?thesis
    unfolding db_inv_def handles_ok_def by metis
qed

lemma db_inv_dbc_live:
  assumes "db_inv s" "i < 4" "tl_hdbc s ! i \<noteq> 0"
  shows "tl_hdbc s ! i \<in> set (live s)"
proof -
  have "i < length (handles s)" "handles s ! i = tl_hdbc s ! i"
    using assms by (simp_all add: db_inv_def handles_def nth_append)
  with assms show ?thesis
    unfolding db_inv_def handles_ok_def by metis
qed

lemma db_inv_free_stmt:
  assumes "db_inv s" "i < 4" "tl_hstmt s ! i \<noteq> 0"
  shows "db_inv ((free_handle O' (tl_hstmt s ! i) s)\<lparr>tl_hstmt := (tl_hstmt s)[i := 0]\<rparr>)"
proof -
  have "handles_ok ((handles s)[4 + i := 0]) (removeAll (handles s ! (4 + i)) (live s))"
    using assms by (intro handles_ok_free) (simp_all add: db_inv_def handles_def)
  then show ?thesis
    using assms db_inv_stmt_live [OF assms] by (simp add: db_inv_def handles_def list_update_append nth_append)
qed

lemma db_inv_free_dbc:
  assumes "db_inv s" "i < 4" "tl_hdbc s ! i \<noteq> 0"
  shows "db_inv ((free_handle O' (tl_hdbc s ! i) (on_handle (tl_hdbc s ! i) f s))\<lparr>tl_hdbc := (tl_hdbc s)[i := 0]\<rparr>)"
proof -
  have "handles_ok ((handles s)[i := 0]) (removeAll (handles s ! i) (live s))"
    using assms by (intro handles_ok_free) (simp_all add: db_inv_def handles_def)
  then show ?thesis
    using assms db_inv_dbc_live [OF assms] by (simp add: db_inv_def handles_def list_update_append nth_append)
qed

lemma db_reset_connection_inv: "db_inv s \<Longrightarrow> db_inv (db_reset_connection O' db_id s)"
  using db_inv_free_stmt [of s "nat db_id" O'] db_inv_free_dbc [of s "nat db_id" O']
    db_inv_free_dbc [of "(free_handle O' (tl_hstmt s ! nat db_id) s)\<lparr>tl_hstmt := (tl_hstmt s)[nat db_id := 0]\<rparr>" "nat db_id" O']
  by (auto simp: db_reset_connection_def Let_def MAX_DB_CONNECTIONS_def)

lemma note_native_keeps [simp]:
  "tl_hdbc (note_native r s) = tl_hdbc s" "tl_hstmt (note_native r s) = tl_hstmt s" "live (note_native r s) = live s"
  "world (note_native r s) = world s" "db_fault (note_native r s) = db_fault s"
  by (simp_all add: note_native_def)

lemma fold_note_native_inv: "db_inv (fold note_native recs s) = db_inv s"
  by (induction recs arbitrary: s) (simp_all add: db_inv_def handles_def)

lemma db_set_error_inv:
  "db_inv s \<Longrightarrow> (\<And>h. handle = Some h \<Longrightarrow> h \<in> set (live s)) \<Longrightarrow> db_inv (db_set_error O' db_id handle msg s)"
  by (cases handle) (simp_all add: db_set_error_def Let_def fold_note_native_inv db_reset_connection_inv)


lemma db_inv_new_dbc:
  assumes "db_inv s" "i < 4" "h \<noteq> 0" "h \<notin> set (live s)"
  shows "db_inv (s\<lparr>world := w, live := h # live s, tl_hdbc := (tl_hdbc s)[i := h]\<rparr>)"
  using handles_ok_new [of "handles s" "live s" i h] assms by (simp add: db_inv_def handles_def list_update_append)

lemma db_inv_new_stmt:
  assumes "db_inv s" "i < 4" "h \<noteq> 0" "h \<notin> set (live s)"
  shows "db_inv (s\<lparr>live := h # live s, world := w, tl_hstmt := (tl_hstmt s)[i := h]\<rparr>)"
  using handles_ok_new [of "handles s" "live s" "4 + i" h] assms by (simp add: db_inv_def handles_def list_update_append)

lemma db_inv_clear_dbc:
  assumes "db_inv s" "i < 4"
  shows "db_inv (s\<lparr>world := w, tl_hdbc := (tl_hdbc s)[i := 0]\<rparr>)"
  using handles_ok_clear [of "handles s" "live s" i] assms by (simp add: db_inv_def handles_def list_update_append)

lemma db_connect_inv:
  assumes "odbc_fresh O'" "db_inv s" "db_connect O' cfg db_id s = (h, s1)"
  shows "db_inv s1 \<and> (h \<noteq> 0 \<longrightarrow> h \<in> set (live s1))"
proof (cases "db_id < 0 \<or> db_id \<ge> MAX_DB_CONNECTIONS \<or> tl_hdbc s ! nat db_id \<noteq> 0 \<or> config_get_odbc_conn_str cfg db_id = []")
  case True
  then show ?thesis
    using assms(2,3) db_inv_dbc_live [of s "nat db_id"]
    by (auto simp: db_connect_def Let_def MAX_DB_CONNECTIONS_def split: if_splits)
next
  case False
  have i: "nat db_id < 4" "nat db_id < length (tl_hdbc s)"
    using False assms(2) by (auto simp: MAX_DB_CONNECTIONS_def db_inv_def)
  obtain r w where a: "odbc_alloc O' (live s) (world s) = (r, w)"
    by (cases "odbc_alloc O' (live s) (world s)")
  show ?thesis
  proof (cases r)
    case None
    then show ?thesis
      using assms(2,3) a False i
      by (auto simp: db_connect_def Let_def intro!: db_set_error_inv db_inv_clear_dbc)
  next
    case (Some k)
    have k: "k \<noteq> 0" "k \<notin> set (live s)"
      using assms(1) a Some unfolding odbc_fresh_def by blast+
    define s1' where "s1' = s\<lparr>world := w, live := k # live s, tl_hdbc := (tl_hdbc s)[nat db_id := k]\<rparr>"
    have "db_inv s1'"
      unfolding s1'_def using assms(2) i(1) k by (rule db_inv_new_dbc)
    moreover have "k \<in> set (live s1')" "tl_hdbc s1' ! nat db_id = k"
      using i by (simp_all add: s1'_def)
    ultimately show ?thesis
      using assms(3) a Some False unfolding db_connect_def Let_def
      by (auto simp: s1'_def [symmetric] intro!: db_reset_connection_inv db_set_error_inv split: prod.splits if_splits)
  qed
qed

lemma db_alloc_stmt_inv:
  assumes "odbc_fresh O'" "db_inv s" "hdbc \<in> set (live s)" "db_alloc_stmt O' db_id hdbc s = (h, s1)"
  shows "db_inv s1 \<and> (h \<noteq> 0 \<longrightarrow> h \<in> set (live s1))"
proof (cases "db_id < 0 \<or> db_id \<ge> MAX_DB_CONNECTIONS \<or> tl_hstmt s ! nat db_id \<noteq> 0")
  case True
  then show ?thesis
    using assms(2,4) db_inv_stmt_live [of s "nat db_id"]
    by (auto simp: db_alloc_stmt_def Let_def MAX_DB_CONNECTIONS_def split: if_splits)
next
  case False
  have i: "nat db_id < 4"
    using False by (auto simp: MAX_DB_CONNECTIONS_def)
  obtain r w where a: "odbc_alloc O' (live s) (world s) = (r, w)"
    by (cases "odbc_alloc O' (live s) (world s)")
  show ?thesis
  proof (cases r)
    case None
    then show ?thesis
      using assms(2-4) a False
      by (auto simp: db_alloc_stmt_def Let_def intro!: db_reset_connection_inv db_set_error_inv)
  next
    case (Some k)
    have k: "k \<noteq> 0" "k \<notin> set (live s)"
      using assms(1) a Some unfolding odbc_fresh_def by blast+
    then show ?thesis
      using assms(2-4) a False Some i db_inv_new_stmt [of s "nat db_id" k]
      by (auto simp: db_alloc_stmt_def Let_def)
  qed
qed

lemma valid_stmt_live:
  assumes "db_inv s" "db_is_valid_stmt h s"
  shows "h \<in> set (live s)"
proof -
  obtain i where "i < 4" "tl_hstmt s ! i = h" "h \<noteq> 0"
    using assms by (auto simp: db_is_valid_stmt_def db_inv_def in_set_conv_nth)
  with db_inv_stmt_live [OF assms(1)] show ?thesis
    by blast
qed

lemma db_cleanup_stmt_inv: "db_inv s \<Longrightarrow> db_inv (db_cleanup_stmt O' h s)"
  using valid_stmt_live [of s h] by (simp add: db_cleanup_stmt_def)

lemma bind_params_inv:
  assumes "db_inv s" "h \<in> set (live s)" "bind_params O' db_id h i ps s = (ok, s1)"
  shows "db_inv s1 \<and> (ok \<longrightarrow> h \<in> set (live s1))"
  using assms
proof (induction ps arbitrary: i s)
  case (Cons p ps)
  obtain ret w where r: "odbc_bind_parameter O' h (i + 1) (bound_value p) (world s) = (ret, w)"
    by (cases "odbc_bind_parameter O' h (i + 1) (bound_value p) (world s)")
  show ?case
  proof (cases "SQL_SUCCEEDED ret")
    case True
    then show ?thesis
      using Cons.IH [of "s\<lparr>world := w\<rparr>" "i + 1"] Cons.prems r by (simp add: db_bind_param_def)
  next
    case False
    then show ?thesis
      using Cons.prems r by (auto simp: db_bind_param_def intro!: db_set_error_inv)
  qed
qed simp

lemma db_prepare_and_bind_inv:
  assumes "odbc_fresh O'" "db_inv s" "db_prepare_and_bind O' cfg db_id ps s = (ok, h, s1)"
  shows "db_inv s1 \<and> (ok \<longrightarrow> h \<in> set (live s1))"
proof -
  obtain hdbc s2 where c: "db_connect O' cfg db_id s = (hdbc, s2)"
    by (cases "db_connect O' cfg db_id s")
  obtain hstmt s3 where a: "db_alloc_stmt O' db_id hdbc s2 = (hstmt, s3)"
    by (cases "db_alloc_stmt O' db_id hdbc s2")
  have i2: "db_inv s2" "hdbc \<noteq> 0 \<Longrightarrow> hdbc \<in> set (live s2)"
    using db_connect_inv [OF assms(1,2) c] by simp_all
  show ?thesis
    using assms(3) i2 db_alloc_stmt_inv [OF assms(1) i2(1) _ a] bind_params_inv [of s3 hstmt O' db_id 0 ps ok s1]
    by (auto simp: db_prepare_and_bind_def c a split: if_splits prod.splits)
qed

end
