(* ===== verification/DbApi.thy ===== *)
theory DbApi
  imports DbConn
begin

text \<open>
  Model of the queries of \<open>lib/dbapi.c\<close>: native JSON documents, result sets as JSON arrays, several result sets, single
  rows and statements without a result.

  The loops over rows, chunks and result sets run as long as the driver delivers some; they take fuel, and \<open>None\<close> is
  running out of it. \<open>cursor\<close> relates the driver's state to the rows it will deliver.
\<close>

section \<open>Native JSON\<close>

definition ODBC_FETCH_CHUNK_SIZE :: int where
  "ODBC_FETCH_CHUNK_SIZE = 4096"

text \<open>The bytes of a chunk that are written.\<close>

definition chunk_len :: "string \<Rightarrow> int \<Rightarrow> int" where
  "chunk_len chunk indicator =
     (let max_payload = ODBC_FETCH_CHUNK_SIZE - 1
      in if indicator = SQL_NO_TOTAL \<or> indicator \<ge> max_payload then max_payload
         else if indicator \<ge> 0 then indicator
         else int (length (c_str chunk)))"

text \<open>
  The indicator is a local variable without an initial value; the argument is what it holds. A driver may leave it
  as it is.
\<close>

fun fetch_json_native_col_loop ::
  "nat \<Rightarrow> 'w odbc \<Rightarrow> int \<Rightarrow> nat \<Rightarrow> int \<Rightarrow> string \<times> bool \<times> 'w db \<Rightarrow> (bool \<times> string \<times> bool \<times> 'w db) option"
where
  "fetch_json_native_col_loop 0 O' db_id hstmt indicator st = None"
| "fetch_json_native_col_loop (Suc n) O' db_id hstmt indicator (out_buf, has_data_written, s) =
     (case odbc_get_data O' hstmt (world s) of
        (ret, chunk, ind, w) \<Rightarrow>
          (let s1 = (touch hstmt s)\<lparr>world := w\<rparr>;
               indicator1 = (case ind of Some i \<Rightarrow> i | None \<Rightarrow> indicator)
           in case ret of
                SQL_FAIL code \<Rightarrow>
                  Some (False, out_buf, has_data_written,
                    db_set_error O' db_id (Some hstmt) (''SQLGetData failed (code '' @ dec_int code @ '')'') s1)
              | _ \<Rightarrow>
                  (if indicator1 = SQL_NULL_DATA
                   then Some (True, if \<not> has_data_written then out_buf @ ''null'' else out_buf, True, s1)
                   else if ret \<noteq> SQL_NO_DATA
                   then
                     (let (bytes, s2) = (case read_block chunk (chunk_len chunk indicator1) of
                            Some bytes \<Rightarrow> (bytes, s1) | None \<Rightarrow> ([], s1\<lparr>db_overread := True\<rparr>));
                          st2 = (out_buf @ bytes, has_data_written \<or> bytes \<noteq> [], s2)
                      in if ret = SQL_SUCCESS_WITH_INFO then fetch_json_native_col_loop n O' db_id hstmt indicator1 st2
                         else Some (True, st2))
                   else Some (True, out_buf, has_data_written, s1))))"

fun fetch_json_rows ::
  "nat \<Rightarrow> nat \<Rightarrow> 'w odbc \<Rightarrow> int \<Rightarrow> int \<Rightarrow> nat \<Rightarrow> bool \<Rightarrow> string \<times> bool \<times> 'w db \<Rightarrow> (bool \<times> bool \<times> string \<times> 'w db) option"
where
  "fetch_json_rows 0 fuel O' ind0 db_id hstmt has_rows st = None"
| "fetch_json_rows (Suc n) fuel O' ind0 db_id hstmt has_rows (out_buf, has_data_written, s) =
     (case odbc_fetch O' hstmt (world s) of
        (ret, cells, w) \<Rightarrow>
          (let s1 = (touch hstmt s)\<lparr>world := w\<rparr>
           in if ret = SQL_NO_DATA then Some (True, has_rows, out_buf, s1)
              else if \<not> SQL_SUCCEEDED ret
              then Some (False, has_rows, out_buf, db_set_error O' db_id (Some hstmt) ''SQLFetch failed'' s1)
              else
                (case fetch_json_native_col_loop fuel O' db_id hstmt ind0 (out_buf, has_data_written, s1) of
                   None \<Rightarrow> None
                 | Some (ok, out1, hdw1, s2) \<Rightarrow>
                     (if \<not> ok then Some (False, True, out1, s2)
                      else fetch_json_rows n fuel O' ind0 db_id hstmt True (out1, hdw1, s2)))))"

definition db_fetch_json_native ::
  "nat \<Rightarrow> 'w odbc \<Rightarrow> int \<Rightarrow> int \<Rightarrow> nat \<Rightarrow> string \<times> 'w db \<Rightarrow> (bool \<times> string \<times> 'w db) option"
where
  "db_fetch_json_native fuel O' ind0 db_id hstmt st =
     (case fetch_json_rows fuel fuel O' ind0 db_id hstmt False (fst st, False, snd st) of
        None \<Rightarrow> None
      | Some (ok, has_rows, out_buf, s) \<Rightarrow>
          Some (ok, if ok \<and> \<not> has_rows then out_buf @ ''[]'' else out_buf, s))"


section \<open>Column metadata\<close>

record ResultSetMetadata =
  meta_cols :: "ColumnDescriptor list"
  meta_hstmt :: nat
  meta_count :: int

definition ODBC_MAX_COL_SIZE :: nat where "ODBC_MAX_COL_SIZE = 65536"
definition TLS_MAX_COLS :: int where "TLS_MAX_COLS = 256"
definition TLS_ARENA_SIZE :: nat where "TLS_ARENA_SIZE = 1024 * 1024"

definition metadata_destroy :: "'w odbc \<Rightarrow> ResultSetMetadata \<Rightarrow> 'w db \<Rightarrow> 'w db" where
  "metadata_destroy O' meta s =
     (if db_is_valid_stmt (meta_hstmt meta) s
      then on_handle (meta_hstmt meta) (odbc_close O' (meta_hstmt meta) ''SQL_UNBIND'') s else s)"

text \<open>The C type and the buffer size for a SQL type: BIT, TINYINT, SMALLINT, INTEGER, BIGINT, REAL, FLOAT, DOUBLE, others.\<close>

definition column_type :: "int \<Rightarrow> nat \<Rightarrow> c_type \<times> nat" where
  "column_type sql_type col_size =
     (if sql_type = - 7 then (SQL_C_BIT, 1)
      else if sql_type = - 6 \<or> sql_type = 5 \<or> sql_type = 4 then (SQL_C_SLONG, 4)
      else if sql_type = - 5 then (SQL_C_SBIGINT, 8)
      else if sql_type = 7 \<or> sql_type = 6 \<or> sql_type = 8 then (SQL_C_DOUBLE, 8)
      else (SQL_C_CHAR, if col_size = 0 \<or> col_size > ODBC_MAX_COL_SIZE then ODBC_MAX_COL_SIZE else col_size + 64))"

text \<open>The key with its colon, cut to the 255 bytes that fit; empty when no temporary buffer could be allocated.\<close>

definition column_key :: "char \<Rightarrow> bool \<Rightarrow> string \<Rightarrow> string" where
  "column_key junk buffer_ok nm =
     (if buffer_ok
      then (case evbuffer_append_escaped_str junk nm [] of Some t \<Rightarrow> take 255 (t @ '':'') | None \<Rightarrow> [])
      else [])"

text \<open>The descriptor of a column, with the key computed in advance.\<close>

definition new_column :: "'w odbc \<Rightarrow> char \<Rightarrow> col_info \<Rightarrow> c_type \<Rightarrow> nat \<Rightarrow> 'w db \<Rightarrow> ColumnDescriptor \<times> 'w db" where
  "new_column O' junk ci ct sz s =
     (let (buffer_ok, w) = odbc_memory O' (world s);
          s1 = s\<lparr>world := w\<rparr>;
          (nm, s2) = (case read_block (ci_name ci) (ci_name_len ci) of
             Some nm \<Rightarrow> (nm, s1) | None \<Rightarrow> ([], if buffer_ok then s1\<lparr>db_overread := True\<rparr> else s1))
      in (\<lparr>col_buffer = Cell_chars [], alloc_size = sz, col_ind = 0, precomputed_key = column_key junk buffer_ok nm,
            name_len = ci_name_len ci, col_sql_type = ci_sql_type ci, col_c_type = ct, col_name = ci_name ci\<rparr>, s2))"

fun setup_column_metadata ::
  "'w odbc \<Rightarrow> char \<Rightarrow> int \<Rightarrow> nat \<Rightarrow> nat \<Rightarrow> nat \<Rightarrow> nat \<Rightarrow> 'w db \<Rightarrow> bool \<times> ColumnDescriptor list \<times> nat \<times> 'w db"
where
  "setup_column_metadata O' junk db_id hstmt i 0 total_arena_size s = (True, [], total_arena_size, s)"
| "setup_column_metadata O' junk db_id hstmt i (Suc r) total_arena_size s =
     (case odbc_describe O' hstmt (i + 1) (world s) of
        (ret, ci, w) \<Rightarrow>
          (let s1 = (touch hstmt s)\<lparr>world := w\<rparr>
           in if \<not> SQL_SUCCEEDED ret
              then (False, [], total_arena_size, db_set_error O' db_id (Some hstmt) ''Failed to describe column.'' s1)
              else
                (let (ct, sz) = column_type (ci_sql_type ci) (ci_size ci)
                 in if total_arena_size + sz \<ge> 2 ^ 64
                    then (False, [], total_arena_size, db_set_error O' db_id (Some hstmt) ''Column allocation size overflowed.'' s1)
                    else
                      (let (col, s3) = new_column O' junk ci ct sz s1;
                           (ok, cols, arena_size, s4) = setup_column_metadata O' junk db_id hstmt (i + 1) r (total_arena_size + sz) s3
                       in (ok, col # cols, arena_size, s4)))))"

text \<open>The result is the verdict, the columns (none after a failure) and the state.\<close>

definition alloc_metadata_cols ::
  "'w odbc \<Rightarrow> char \<Rightarrow> int \<Rightarrow> nat \<Rightarrow> int \<Rightarrow> ResultSetMetadata \<Rightarrow> 'w db \<Rightarrow> bool \<times> ResultSetMetadata \<times> 'w db"
where
  "alloc_metadata_cols O' junk db_id hstmt num_cols meta s =
     (if num_cols \<le> 0 then (False, meta, s)
      else
        (let meta1 = meta\<lparr>meta_hstmt := hstmt, meta_count := num_cols, meta_cols := []\<rparr>;
             (cols_ok, s1) = (if num_cols \<le> TLS_MAX_COLS then (True, s)
                              else (case odbc_memory O' (world s) of (b, w) \<Rightarrow> (b, s\<lparr>world := w\<rparr>)))
         in if \<not> cols_ok then (False, meta1, s1)
            else
              (case setup_column_metadata O' junk db_id hstmt 0 (nat num_cols) 0 s1 of
                 (ok, cols, arena_size, s2) \<Rightarrow>
                   (if \<not> ok \<or> arena_size = 0 then (False, meta1, s2)
                    else
                      (let (arena_ok, s3) = (if arena_size \<le> TLS_ARENA_SIZE then (True, s2)
                             else (case odbc_memory O' (world s2) of (b, w) \<Rightarrow> (b, s2\<lparr>world := w\<rparr>)))
                       in if \<not> arena_ok then (False, meta1, s3) else (True, meta1\<lparr>meta_cols := cols\<rparr>, s3))))))"

text \<open>Binding the columns to consecutive parts of the arena.\<close>

fun bind_cols :: "'w odbc \<Rightarrow> int \<Rightarrow> nat \<Rightarrow> nat \<Rightarrow> nat \<Rightarrow> ColumnDescriptor list \<Rightarrow> 'w db \<Rightarrow> bool \<times> 'w db" where
  "bind_cols O' db_id hstmt i current_offset [] s = (True, s)"
| "bind_cols O' db_id hstmt i current_offset (col # cols) s =
     (case odbc_bind_col O' hstmt (i + 1) (col_c_type col) current_offset (alloc_size col) (world s) of
        (ret, w) \<Rightarrow>
          (let s1 = (touch hstmt s)\<lparr>world := w\<rparr>
           in if \<not> SQL_SUCCEEDED ret then (False, db_set_error O' db_id (Some hstmt) ''Failed to bind column.'' s1)
              else bind_cols O' db_id hstmt (i + 1) (current_offset + alloc_size col) cols s1))"

definition odbc_bind_resultset_metadata ::
  "'w odbc \<Rightarrow> char \<Rightarrow> int \<Rightarrow> nat \<Rightarrow> ResultSetMetadata \<Rightarrow> 'w db \<Rightarrow> bool \<times> ResultSetMetadata \<times> 'w db"
where
  "odbc_bind_resultset_metadata O' junk db_id hstmt meta s =
     (case odbc_num_cols O' hstmt (world s) of
        (ret, num_cols, w) \<Rightarrow>
          (let s1 = (touch hstmt s)\<lparr>world := w\<rparr>
           in if \<not> SQL_SUCCEEDED ret
              then (False, meta, db_set_error O' db_id (Some hstmt) ''Failed to retrieve result set column count.'' s1)
              else if num_cols = 0 then (True, \<lparr>meta_cols = [], meta_hstmt = 0, meta_count = 0\<rparr>, s1)
              else
                (case alloc_metadata_cols O' junk db_id hstmt num_cols meta s1 of
                   (ok, meta1, s2) \<Rightarrow>
                     (if \<not> ok then (False, meta1, s2)
                      else (case bind_cols O' db_id hstmt 0 0 (meta_cols meta1) s2 of (ok1, s3) \<Rightarrow> (ok1, meta1, s3))))))"


section \<open>Result sets\<close>

text \<open>A write to the JSON buffer; leaving a buffer is recorded.\<close>

definition jstep :: "(JsonBuffer \<Rightarrow> JsonBuffer option) \<Rightarrow> JsonBuffer \<times> 'w db \<Rightarrow> JsonBuffer \<times> 'w db" where
  "jstep f js = (case f (fst js) of Some j \<Rightarrow> (j, snd js) | None \<Rightarrow> (fst js, (snd js)\<lparr>db_overread := True\<rparr>))"

text \<open>
  A fetch stores a value and an indicator for each bound column. The driver delivers one cell per bound column, in their
  order.
\<close>

definition fetched :: "ColumnDescriptor list \<Rightarrow> (cell \<times> int) list \<Rightarrow> ColumnDescriptor list" where
  "fetched cols cells = map (\<lambda>(col, c, i). col\<lparr>col_buffer := c, col_ind := i\<rparr>) (zip cols cells)"

fun fetch_rows ::
  "nat \<Rightarrow> 'w odbc \<Rightarrow> char \<Rightarrow> int \<Rightarrow> nat \<Rightarrow> ColumnDescriptor list \<Rightarrow> bool \<Rightarrow> JsonBuffer \<times> 'w db \<Rightarrow> (bool \<times> JsonBuffer \<times> 'w db) option"
where
  "fetch_rows 0 O' junk db_id hstmt cols first_row js = None"
| "fetch_rows (Suc n) O' junk db_id hstmt cols first_row (j, s) =
     (case odbc_fetch O' hstmt (world s) of
        (ret, cells, w) \<Rightarrow>
          (let s1 = (touch hstmt s)\<lparr>world := w\<rparr>
           in if ret = SQL_NO_DATA then Some (True, j, s1)
              else if \<not> SQL_SUCCEEDED ret then Some (False, j, db_set_error O' db_id (Some hstmt) ''SQLFetch failed'' s1)
              else
                (let js1 = (if \<not> first_row then jstep (jbuf_add_char (CHR '','')) (j, s1) else (j, s1));
                     js2 = jstep (jbuf_append_row_object junk (fetched cols cells)) js1
                 in fetch_rows n O' junk db_id hstmt cols False js2)))"

definition no_meta :: ResultSetMetadata where
  "no_meta = \<lparr>meta_cols = [], meta_hstmt = 0, meta_count = 0\<rparr>"

definition fetch_resultset_array ::
  "nat \<Rightarrow> 'w odbc \<Rightarrow> char \<Rightarrow> int \<Rightarrow> nat \<Rightarrow> bool \<Rightarrow> string \<times> 'w db \<Rightarrow> (bool \<times> string \<times> 'w db) option"
where
  "fetch_resultset_array fuel O' junk db_id hstmt write_brackets st =
     (case odbc_bind_resultset_metadata O' junk db_id hstmt no_meta (snd st) of
        (ok, meta, s1) \<Rightarrow>
          (if \<not> ok then Some (False, fst st, metadata_destroy O' meta s1)
           else
             (let js = (jbuf_new junk (fst st), s1)
              in if write_brackets \<and> meta_count meta = 0
                 then (case jstep (jbuf_add ''[]'') js of
                         (j, s2) \<Rightarrow> Some (True, evbuf (jbuf_flush j), metadata_destroy O' meta s2))
                 else
                   (case fetch_rows fuel O' junk db_id hstmt (meta_cols meta) True
                           (if write_brackets then jstep (jbuf_add ''['') js else js) of
                      None \<Rightarrow> None
                    | Some (ok1, js2) \<Rightarrow>
                        (case (if ok1 \<and> write_brackets then jstep (jbuf_add_char (CHR '']'')) js2 else js2) of
                           (j, s3) \<Rightarrow> Some (ok1, evbuf (jbuf_flush j), metadata_destroy O' meta s3))))))"

definition db_fetch_rs2json :: "nat \<Rightarrow> 'w odbc \<Rightarrow> char \<Rightarrow> int \<Rightarrow> nat \<Rightarrow> string \<times> 'w db \<Rightarrow> (bool \<times> string \<times> 'w db) option" where
  "db_fetch_rs2json fuel O' junk db_id hstmt st = fetch_resultset_array fuel O' junk db_id hstmt True st"

text \<open>The loop over the result sets. The column count keeps its value when \<open>SQLNumResultCols\<close> fails.\<close>

definition num_result_cols :: "'w odbc \<Rightarrow> nat \<Rightarrow> int \<Rightarrow> 'w db \<Rightarrow> int \<times> 'w db" where
  "num_result_cols O' hstmt col_count s =
     (case odbc_num_cols O' hstmt (world s) of
        (ret, n, w) \<Rightarrow> (if SQL_SUCCEEDED ret then n else col_count, (touch hstmt s)\<lparr>world := w\<rparr>))"

definition rs_prefix :: "char \<Rightarrow> nat \<Rightarrow> bool \<Rightarrow> string" where
  "rs_prefix junk rs_index has_resultset =
     (if \<not> has_resultset then ''{'' else '','') @ [CHR 0x22, CHR ''r''] @
     (case fast_itoa (word_of_nat rs_index) (Some (replicate 32 junk)) of
        Some (len, Some num_buf) \<Rightarrow> take len num_buf | _ \<Rightarrow> []) @ [CHR 0x22] @ '':[''"

fun jsonm_loop ::
  "nat \<Rightarrow> nat \<Rightarrow> 'w odbc \<Rightarrow> char \<Rightarrow> int \<Rightarrow> nat \<Rightarrow> nat \<Rightarrow> bool \<Rightarrow> int \<Rightarrow> string \<times> 'w db \<Rightarrow> (bool \<times> bool \<times> string \<times> 'w db) option"
where
  "jsonm_loop 0 fuel O' junk db_id hstmt rs_index has_resultset col_count st = None"
| "jsonm_loop (Suc n) fuel O' junk db_id hstmt rs_index has_resultset col_count (out_buf, s) =
     (case (if col_count > 0
            then map_option (\<lambda>(ok, out1, s1). (ok, rs_index + 1, True, if ok then out1 @ '']'' else out1, s1))
                   (fetch_resultset_array fuel O' junk db_id hstmt False (out_buf @ rs_prefix junk rs_index has_resultset, s))
            else Some (True, rs_index, has_resultset, out_buf, s)) of
        None \<Rightarrow> None
      | Some (ok, rs1, has1, out1, s1) \<Rightarrow>
          (if \<not> ok then Some (False, has1, out1, s1)
           else
             (case odbc_more O' hstmt (world s1) of
                (more_ret, w) \<Rightarrow>
                  (let s2 = (touch hstmt s1)\<lparr>world := w\<rparr>
                   in if more_ret = SQL_NO_DATA then Some (True, has1, out1, s2)
                      else if \<not> SQL_SUCCEEDED more_ret
                      then Some (False, has1, out1, db_set_error O' db_id (Some hstmt) ''SQLMoreResults failed'' s2)
                      else
                        (case num_result_cols O' hstmt col_count s2 of
                           (cc, s3) \<Rightarrow> jsonm_loop n fuel O' junk db_id hstmt rs1 has1 cc (out1, s3))))))"

definition db_fetch_jsonm_native :: "nat \<Rightarrow> 'w odbc \<Rightarrow> char \<Rightarrow> int \<Rightarrow> nat \<Rightarrow> string \<times> 'w db \<Rightarrow> (bool \<times> string \<times> 'w db) option" where
  "db_fetch_jsonm_native fuel O' junk db_id hstmt st =
     (case num_result_cols O' hstmt 0 (snd st) of
        (cc, s1) \<Rightarrow>
          (case jsonm_loop fuel fuel O' junk db_id hstmt 1 False cc (fst st, s1) of
             None \<Rightarrow> None
           | Some (ok, has_resultset, out_buf, s2) \<Rightarrow>
               Some (ok, if ok then out_buf @ (if has_resultset then ''}'' else ''[]'') else out_buf, s2)))"


section \<open>Queries\<close>

text \<open>The JSON of an error raised by a stored procedure.\<close>

definition business_error :: "char \<Rightarrow> 'w db \<Rightarrow> string" where
  "business_error junk s =
     (let prefix = snprintf ([CHR ''{'', CHR 0x22] @ ''error-code'' @ [CHR 0x22, CHR '':''] @ dec_int (tl_last_native_error s) @
            [CHR '','', CHR 0x22] @ ''description'' @ [CHR 0x22, CHR '':'']) 128
      in (case evbuffer_append_escaped_str junk (tl_last_error_msg s) prefix of Some t \<Rightarrow> t | None \<Rightarrow> prefix) @ ''}'')"

definition check_error :: "char \<Rightarrow> string \<times> 'w db \<Rightarrow> bool \<times> string \<times> 'w db" where
  "check_error junk st =
     (False, if tl_last_native_error (snd st) \<ge> 50000 then business_error junk (snd st) else fst st, snd st)"

definition db_execute_and_fetch ::
  "'w odbc \<Rightarrow> config \<Rightarrow> char \<Rightarrow> int \<Rightarrow> cstring \<Rightarrow> QueryParam list \<Rightarrow>
     (int \<Rightarrow> nat \<Rightarrow> string \<times> 'w db \<Rightarrow> (bool \<times> string \<times> 'w db) option) \<Rightarrow> string \<times> 'w db \<Rightarrow> (bool \<times> string \<times> 'w db) option"
where
  "db_execute_and_fetch O' cfg junk db_id query params fetch_cb st =
     (let s0 = (snd st)\<lparr>tl_last_native_error := 0, tl_last_error_msg := []\<rparr>;
          finish = (\<lambda>hstmt (ok, out, s). Some (ok, out, db_cleanup_stmt O' hstmt s))
      in case db_prepare_and_bind O' cfg db_id params s0 of
           (False, hstmt, s1) \<Rightarrow> finish hstmt (check_error junk (fst st, s1))
         | (True, hstmt, s1) \<Rightarrow>
             (case odbc_exec O' hstmt query (world s1) of
                (ret, w) \<Rightarrow>
                  (let s2 = (touch hstmt s1)\<lparr>world := w\<rparr>
                   in if SQL_SUCCEEDED ret
                      then (case fetch_cb db_id hstmt (fst st, s2) of
                              None \<Rightarrow> None
                            | Some (True, out, s3) \<Rightarrow> finish hstmt (True, out, s3)
                            | Some (False, out, s3) \<Rightarrow> finish hstmt (check_error junk (out, s3)))
                      else finish hstmt (check_error junk
                             (fst st, db_set_error O' db_id (Some hstmt) ''Failed to execute SQLExecDirect'' s2)))))"

definition db_get_json where
  "db_get_json fuel O' cfg junk ind0 db_id query params st =
     db_execute_and_fetch O' cfg junk db_id query params (db_fetch_json_native fuel O' ind0) st"

definition db_get_rs2json where
  "db_get_rs2json fuel O' cfg junk db_id query params st =
     db_execute_and_fetch O' cfg junk db_id query params (db_fetch_rs2json fuel O' junk) st"

definition db_get_rs2json_m where
  "db_get_rs2json_m fuel O' cfg junk db_id query params st =
     db_execute_and_fetch O' cfg junk db_id query params (db_fetch_jsonm_native fuel O' junk) st"

text \<open>An output column: its type, or \<open>None\<close> for a type the function does not support, and the size of the buffer.\<close>

fun bind_outputs :: "'w odbc \<Rightarrow> int \<Rightarrow> nat \<Rightarrow> nat \<Rightarrow> (c_type option \<times> nat) list \<Rightarrow> 'w db \<Rightarrow> bool \<times> 'w db" where
  "bind_outputs O' db_id hstmt i [] s = (True, s)"
| "bind_outputs O' db_id hstmt i ((ct, len) # outs) s =
     (case ct of
        None \<Rightarrow> (False, db_set_error O' db_id (Some hstmt) ''Unsupported output parameter type'' s)
      | Some c \<Rightarrow>
          (case odbc_bind_col O' hstmt (i + 1) c 0 len (world s) of
             (ret, w) \<Rightarrow>
               (let s1 = (touch hstmt s)\<lparr>world := w\<rparr>
                in if \<not> SQL_SUCCEEDED ret then (False, db_set_error O' db_id (Some hstmt) ''Failed to bind output column'' s1)
                   else bind_outputs O' db_id hstmt (i + 1) outs s1)))"

text \<open>The result is the verdict, whether a row was found, and the values stored into the caller's buffers.\<close>

definition db_query_single_row ::
  "'w odbc \<Rightarrow> config \<Rightarrow> int \<Rightarrow> cstring \<Rightarrow> QueryParam list \<Rightarrow> (c_type option \<times> nat) list \<Rightarrow> 'w db \<Rightarrow>
     (bool \<times> bool \<times> (cell \<times> int) list) \<times> 'w db"
where
  "db_query_single_row O' cfg db_id query in_params out_params s =
     (case db_prepare_and_bind O' cfg db_id in_params s of
        (False, hstmt, s1) \<Rightarrow> ((False, False, []), db_cleanup_stmt O' hstmt s1)
      | (True, hstmt, s1) \<Rightarrow>
          (let (r, s2) =
             (case bind_outputs O' db_id hstmt 0 out_params s1 of
                (False, s2) \<Rightarrow> ((False, False, []), s2)
              | (True, s2) \<Rightarrow>
                  (case odbc_exec O' hstmt query (world s2) of
                     (exec_ret, w) \<Rightarrow>
                       (let s3 = (touch hstmt s2)\<lparr>world := w\<rparr>
                        in if \<not> SQL_SUCCEEDED exec_ret \<and> exec_ret \<noteq> SQL_NO_DATA
                           then ((False, False, []), db_set_error O' db_id (Some hstmt) ''Failed to execute query'' s3)
                           else
                             (case odbc_fetch O' hstmt (world s3) of
                                (fetch_ret, cells, w4) \<Rightarrow>
                                  (let s4 = (touch hstmt s3)\<lparr>world := w4\<rparr>
                                   in if fetch_ret = SQL_NO_DATA then ((True, False, []), s4)
                                      else if \<not> SQL_SUCCEEDED fetch_ret
                                      then ((False, False, []), db_set_error O' db_id (Some hstmt) ''Failed to fetch row'' s4)
                                      else if fetch_ret = SQL_SUCCESS_WITH_INFO
                                      then ((False, False, cells), db_set_error O' db_id (Some hstmt)
                                             ''Fetch completed with info (possible truncation)'' s4)
                                      else ((True, True, cells), s4))))))
           in (r, db_cleanup_stmt O' hstmt s2)))"

definition db_exec ::
  "'w odbc \<Rightarrow> config \<Rightarrow> int \<Rightarrow> cstring_ptr \<Rightarrow> QueryParam list option \<Rightarrow> nat \<Rightarrow> 'w db \<Rightarrow> bool \<times> 'w db"
where
  "db_exec O' cfg db_id query in_params in_count s =
     (case query of
        None \<Rightarrow> (False, s)
      | Some q \<Rightarrow>
          (if in_count > 0 \<and> in_params = None then (False, s)
           else
             (case db_prepare_and_bind O' cfg db_id (case in_params of Some ps \<Rightarrow> take in_count ps | None \<Rightarrow> []) s of
                (False, hstmt, s1) \<Rightarrow> (False, db_cleanup_stmt O' hstmt s1)
              | (True, hstmt, s1) \<Rightarrow>
                  (case odbc_exec O' hstmt q (world s1) of
                     (exec_ret, w) \<Rightarrow>
                       (let s2 = (touch hstmt s1)\<lparr>world := w\<rparr>
                        in if \<not> SQL_SUCCEEDED exec_ret \<and> exec_ret \<noteq> SQL_NO_DATA
                           then (False, db_cleanup_stmt O' hstmt (db_set_error O' db_id (Some hstmt) ''Failed to execute query'' s2))
                           else (True, db_cleanup_stmt O' hstmt s2))))))"


section \<open>Handles\<close>

text \<open>After a step the invariant holds, and the statement is still allocated if the step succeeded.\<close>

definition kept :: "nat \<Rightarrow> bool \<Rightarrow> 'w db \<Rightarrow> bool" where
  "kept h ok s \<longleftrightarrow> db_inv s \<and> (ok \<longrightarrow> h \<in> set (live s))"

lemma kept_step [simp]:
  "db_inv s \<Longrightarrow> h \<in> set (live s) \<Longrightarrow> kept h ok (s\<lparr>world := w\<rparr>)"
  "db_inv s \<Longrightarrow> h \<in> set (live s) \<Longrightarrow> kept h ok s"
  by (simp_all add: kept_def)

lemma kept_error [simp]: "db_inv s \<Longrightarrow> h \<in> set (live s) \<Longrightarrow> kept h False (db_set_error O' db_id (Some h) msg s)"
  by (auto simp: kept_def intro!: db_set_error_inv)

lemma kept_world: "kept h True s \<Longrightarrow> kept h ok (s\<lparr>world := w\<rparr>)"
  by (simp add: kept_def)

lemma kept_overread [simp]: "kept h ok (s\<lparr>db_overread := b\<rparr>) = kept h ok s"
  by (simp add: kept_def)

lemma kept_inv: "kept h ok s \<Longrightarrow> db_inv s"
  by (simp add: kept_def)

lemma kept_True: "kept h True s \<longleftrightarrow> db_inv s \<and> h \<in> set (live s)"
  by (simp add: kept_def)

lemma json_col_loop_kept:
  "kept h True s \<Longrightarrow> fetch_json_native_col_loop n O' db_id h ind (out, hdw, s) = Some (ok, out1, hdw1, s1) \<Longrightarrow> kept h ok s1"
proof (induction n arbitrary: ind out hdw s)
  case (Suc n)
  obtain ret chunk i w where g: "odbc_get_data O' h (world s) = (ret, chunk, i, w)"
    by (metis prod.exhaust)
  define ind1 where "ind1 = (case i of Some i \<Rightarrow> i | None \<Rightarrow> ind)"
  have live: "db_inv s" "h \<in> set (live s)"
    using Suc.prems(1) by (simp_all add: kept_True)
  have next_s: "kept h True (s\<lparr>world := w\<rparr>)" "kept h True (s\<lparr>world := w, db_overread := True\<rparr>)"
    using live by (simp_all add: kept_True)
  show ?case
    using Suc.prems(2) live Suc.IH [OF next_s(1)] Suc.IH [OF next_s(2)]
    by (auto simp: g Let_def ind1_def [symmetric] kept_True split: SQLRETURN.splits if_splits option.splits prod.splits)
qed simp

lemma json_rows_kept:
  "kept h True s \<Longrightarrow> fetch_json_rows n fuel O' ind0 db_id h hr (out, hdw, s) = Some (ok, hr1, out1, s1) \<Longrightarrow> kept h ok s1"
proof (induction n arbitrary: hr out hdw s)
  case (Suc n)
  obtain ret cells w where f: "odbc_fetch O' h (world s) = (ret, cells, w)"
    by (metis prod.exhaust)
  have live: "db_inv s" "h \<in> set (live s)"
    using Suc.prems(1) by (simp_all add: kept_True)
  show ?case
  proof (cases "SQL_SUCCEEDED ret")
    case False
    then show ?thesis
      using Suc.prems(2) live by (auto simp: f Let_def split: if_splits)
  next
    case True
    obtain ok1 out2 hdw2 s2 where c: "fetch_json_native_col_loop fuel O' db_id h ind0 (out, hdw, s\<lparr>world := w\<rparr>) = Some (ok1, out2, hdw2, s2)"
      using Suc.prems(2) live True by (auto simp: f Let_def SQL_SUCCEEDED_def split: option.splits)
    have "kept h ok1 s2"
      using json_col_loop_kept [OF _ c] live by simp
    then show ?thesis
      using Suc.prems(2) live True c Suc.IH [of s2] by (auto simp: f Let_def SQL_SUCCEEDED_def split: if_splits)
  qed
qed simp

lemma db_fetch_json_native_kept:
  "kept h True s \<Longrightarrow> db_fetch_json_native fuel O' ind0 db_id h (out, s) = Some (ok, out1, s1) \<Longrightarrow> kept h ok s1"
  by (auto simp: db_fetch_json_native_def split: option.splits dest: json_rows_kept)


lemma new_column_kept: "kept h True s \<Longrightarrow> new_column O' junk ci ct sz s = (col, s1) \<Longrightarrow> kept h True s1"
  by (auto simp: new_column_def Let_def kept_True split: prod.splits option.splits if_splits)

lemma setup_columns_kept:
  "kept h True s \<Longrightarrow> setup_column_metadata O' junk db_id h i r tot s = (ok, cols, tot1, s1) \<Longrightarrow> kept h ok s1"
proof (induction r arbitrary: i tot s ok cols)
  case (Suc r)
  obtain ret ci w where d: "odbc_describe O' h (Suc i) (world s) = (ret, ci, w)"
    by (metis prod.exhaust)
  obtain ct sz where c: "column_type (ci_sql_type ci) (ci_size ci) = (ct, sz)"
    by (cases "column_type (ci_sql_type ci) (ci_size ci)")
  obtain col s2 where m: "new_column O' junk ci ct sz (s\<lparr>world := w\<rparr>) = (col, s2)"
    by (cases "new_column O' junk ci ct sz (s\<lparr>world := w\<rparr>)")
  have live: "db_inv s" "h \<in> set (live s)"
    using Suc.prems(1) by (simp_all add: kept_True)
  then have "kept h True s2"
    using new_column_kept [OF _ m] by simp
  then show ?case
    using Suc.prems(2) live Suc.IH [of s2]
    by (auto simp: d c m Let_def split: if_splits prod.splits)
qed simp

lemma alloc_metadata_kept:
  assumes "kept h True s" "alloc_metadata_cols O' junk db_id h nc meta s = (ok, meta1, s1)"
  shows "kept h ok s1"
proof -
  obtain b w where m: "odbc_memory O' (world s) = (b, w)"
    by (cases "odbc_memory O' (world s)")
  define s2 where "s2 = (if nc \<le> TLS_MAX_COLS then s else s\<lparr>world := w\<rparr>)"
  have k2: "kept h True s2"
    using assms(1) by (simp add: s2_def kept_True)
  obtain ok3 cols tot s3 where u: "setup_column_metadata O' junk db_id h 0 (nat nc) 0 s2 = (ok3, cols, tot, s3)"
    by (metis prod.exhaust)
  have k3: "kept h ok3 s3"
    using setup_columns_kept [OF k2 u] .
  obtain b4 w4 where m4: "odbc_memory O' (world s3) = (b4, w4)"
    by (cases "odbc_memory O' (world s3)")
  have f: "kept h True s' \<Longrightarrow> kept h False s'" "kept h ok3 s' \<Longrightarrow> kept h False s'" for s' :: "'a db"
    by (auto simp: kept_def)
  show ?thesis
    using assms k2 k3 u m m4 unfolding alloc_metadata_cols_def s2_def
    by (cases "nc \<le> TLS_MAX_COLS"; cases ok3)
       (auto simp: Let_def kept_def split: if_splits prod.splits)
qed

lemma bind_cols_kept:
  "kept h True s \<Longrightarrow> bind_cols O' db_id h i off cols s = (ok, s1) \<Longrightarrow> kept h ok s1"
proof (induction cols arbitrary: i off s)
  case (Cons col cols)
  obtain ret w where b: "odbc_bind_col O' h (Suc i) (col_c_type col) off (alloc_size col) (world s) = (ret, w)"
    by (cases "odbc_bind_col O' h (Suc i) (col_c_type col) off (alloc_size col) (world s)")
  have live: "db_inv s" "h \<in> set (live s)"
    using Cons.prems(1) by (simp_all add: kept_True)
  show ?case
    using Cons.prems(2) live Cons.IH [of "s\<lparr>world := w\<rparr>"] by (auto simp: b Let_def kept_True split: if_splits)
qed simp

lemma bind_resultset_kept:
  assumes "kept h True s" "odbc_bind_resultset_metadata O' junk db_id h meta s = (ok, meta1, s1)"
  shows "kept h ok s1"
proof -
  obtain ret nc w where n: "odbc_num_cols O' h (world s) = (ret, nc, w)"
    by (metis prod.exhaust)
  obtain ok2 meta2 s2 where a: "alloc_metadata_cols O' junk db_id h nc meta (s\<lparr>world := w\<rparr>) = (ok2, meta2, s2)"
    by (metis prod.exhaust)
  have live: "db_inv s" "h \<in> set (live s)"
    using assms(1) by (simp_all add: kept_True)
  then have "kept h ok2 s2"
    using alloc_metadata_kept [OF _ a] by (simp add: kept_True)
  then show ?thesis
    using assms(2) live bind_cols_kept [of h s2 O' db_id 0 0 "meta_cols meta2" ok s1]
    by (auto simp: odbc_bind_resultset_metadata_def n a Let_def split: if_splits prod.splits)
qed

lemma metadata_destroy_kept: "kept h ok s \<Longrightarrow> kept h ok (metadata_destroy O' meta s)"
  using valid_stmt_live [of s "meta_hstmt meta"] by (simp add: metadata_destroy_def kept_def)

lemma jstep_kept [simp]: "kept h ok (snd (jstep f js)) = kept h ok (snd js)"
  by (simp add: jstep_def split: option.split)

lemma fetch_rows_kept:
  "kept h True (snd js) \<Longrightarrow> fetch_rows n O' junk db_id h cols fr js = Some (ok, j1, s1) \<Longrightarrow> kept h ok s1"
proof (induction n arbitrary: fr js)
  case (Suc n)
  obtain j s where js: "js = (j, s)"
    by (cases js)
  obtain ret cells w where f: "odbc_fetch O' h (world s) = (ret, cells, w)"
    by (metis prod.exhaust)
  have live: "db_inv s" "h \<in> set (live s)"
    using Suc.prems(1) by (simp_all add: kept_True js)
  define js1 where "js1 = jstep (jbuf_append_row_object junk (fetched cols cells))
    (if \<not> fr then jstep (jbuf_add_char (CHR '','')) (j, s\<lparr>world := w\<rparr>) else (j, s\<lparr>world := w\<rparr>))"
  have "kept h True (snd js1)"
    using live by (simp add: js1_def)
  then show ?case
    using Suc.prems(2) live Suc.IH [of js1 False] by (auto simp: js f Let_def js1_def [symmetric] split: if_split_asm)
qed simp

lemma fetch_resultset_kept:
  assumes "kept h True s" "fetch_resultset_array fuel O' junk db_id h br (out, s) = Some (ok, out1, s1)"
  shows "kept h ok s1"
proof -
  obtain ok2 meta s2 where b: "odbc_bind_resultset_metadata O' junk db_id h no_meta s = (ok2, meta, s2)"
    by (metis prod.exhaust)
  have k2: "kept h ok2 s2"
    using bind_resultset_kept [OF assms(1) b] .
  define js0 where "js0 = (if br then jstep (jbuf_add ''['') (jbuf_new junk out, s2) else (jbuf_new junk out, s2))"
  have "kept h ok2 (snd js0)"
    using k2 by (simp add: js0_def)
  then have rows: "ok2 \<Longrightarrow> fetch_rows fuel O' junk db_id h (meta_cols meta) True js0 = Some (ok1, js) \<Longrightarrow> kept h ok1 (snd js)" for ok1 js
    using fetch_rows_kept [of h js0 fuel O' junk db_id "meta_cols meta" True ok1 "fst js" "snd js"] by simp
  have j: "jstep f js = (j1, s3) \<Longrightarrow> kept h ok3 (snd js) \<Longrightarrow> kept h ok3 s3" for f js j1 s3 ok3
    by (metis jstep_kept snd_conv)
  show ?thesis
  proof (cases "ok2 \<and> \<not> (br \<and> meta_count meta = 0)")
    case False
    then show ?thesis
      using assms(2) k2
      by (cases ok2) (auto simp: fetch_resultset_array_def b Let_def intro!: metadata_destroy_kept split: prod.splits dest: j)
  next
    case True
    obtain ok1 j2 s3 where r: "fetch_rows fuel O' junk db_id h (meta_cols meta) True js0 = Some (ok1, j2, s3)"
      using assms(2) True by (auto simp: fetch_resultset_array_def b Let_def js0_def [symmetric] split: option.splits)
    then have "kept h ok1 s3"
      using rows True by fastforce
    then show ?thesis
      using assms(2) True r
      by (auto simp: fetch_resultset_array_def b Let_def js0_def [symmetric] intro!: metadata_destroy_kept
          split: if_splits prod.splits dest: j)
  qed
qed


lemma num_result_cols_kept: "kept h True s \<Longrightarrow> num_result_cols O' h cc s = (cc1, s1) \<Longrightarrow> kept h True s1"
  by (auto simp: num_result_cols_def kept_True split: prod.splits)

lemma jsonm_loop_kept:
  "kept h True s \<Longrightarrow> jsonm_loop n fuel O' junk db_id h rs has cc (out, s) = Some (ok, has1, out1, s1) \<Longrightarrow> kept h ok s1"
proof (induction n arbitrary: rs has cc out s)
  case (Suc n)
  define first where "first = (if cc > 0
     then map_option (\<lambda>(ok, out1, s1). (ok, rs + 1, True, if ok then out1 @ '']'' else out1, s1))
            (fetch_resultset_array fuel O' junk db_id h False (out @ rs_prefix junk rs has, s))
     else Some (True, rs, has, out, s))"
  obtain ok2 rs2 has2 out2 s2 where f: "first = Some (ok2, rs2, has2, out2, s2)"
    using Suc.prems(2) by (auto simp: first_def [symmetric] split: option.splits)
  have k2: "kept h ok2 s2"
    using f Suc.prems(1) fetch_resultset_kept [OF Suc.prems(1)]
    by (auto simp: first_def split: if_splits)
  obtain mret w where m: "odbc_more O' h (world s2) = (mret, w)"
    by (cases "odbc_more O' h (world s2)")
  obtain cc1 s3 where c: "num_result_cols O' h cc (s2\<lparr>world := w\<rparr>) = (cc1, s3)"
    by (cases "num_result_cols O' h cc (s2\<lparr>world := w\<rparr>)")
  show ?case
  proof (cases ok2)
    case False
    then show ?thesis
      using Suc.prems(2) f k2 by (simp add: first_def [symmetric])
  next
    case True
    then have "kept h True s3" "db_inv s2" "h \<in> set (live s2)"
      using k2 num_result_cols_kept [OF kept_world c] by (simp_all add: kept_True)
    then show ?thesis
      using Suc.prems(2) f True m c Suc.IH [of s3] by (auto simp: first_def [symmetric] Let_def split: if_split_asm)
  qed
qed simp

lemma db_fetch_jsonm_native_kept:
  assumes "kept h True s" "db_fetch_jsonm_native fuel O' junk db_id h (out, s) = Some (ok, out1, s1)"
  shows "kept h ok s1"
proof -
  obtain cc s2 where c: "num_result_cols O' h 0 s = (cc, s2)"
    by (cases "num_result_cols O' h 0 s")
  have "kept h True s2"
    using num_result_cols_kept [OF assms(1) c] .
  then show ?thesis
    using assms(2) by (auto simp: db_fetch_jsonm_native_def c split: option.splits dest: jsonm_loop_kept)
qed

text \<open>The contract between a query and the function that fetches its result.\<close>

locale result_fetcher =
  fixes cb :: "int \<Rightarrow> nat \<Rightarrow> string \<times> 'w db \<Rightarrow> (bool \<times> string \<times> 'w db) option"
  assumes cb_kept: "kept h True s \<Longrightarrow> cb db_id h (out, s) = Some (ok, out1, s1) \<Longrightarrow> kept h ok s1"
begin

lemma execute_inv:
  assumes "odbc_fresh O'" "db_inv s" "db_execute_and_fetch O' cfg junk db_id query params cb (out, s) = Some (ok, out1, s1)"
  shows "db_inv s1"
proof -
  define s0 where "s0 = s\<lparr>tl_last_native_error := 0, tl_last_error_msg := []\<rparr>"
  have i0: "db_inv s0"
    using assms(2) by (simp add: s0_def)
  obtain ok2 h s2 where p: "db_prepare_and_bind O' cfg db_id params s0 = (ok2, h, s2)"
    by (metis prod.exhaust)
  have k2: "kept h ok2 s2"
    using db_prepare_and_bind_inv [OF assms(1) i0 p] by (simp add: kept_def)
  show ?thesis
  proof (cases ok2)
    case False
    then show ?thesis
      using assms(3) p k2 unfolding db_execute_and_fetch_def
      by (auto simp: s0_def [symmetric] Let_def check_error_def kept_def intro: db_cleanup_stmt_inv)
  next
    case True
    obtain ret w where e: "odbc_exec O' h query (world s2) = (ret, w)"
      by (cases "odbc_exec O' h query (world s2)")
    have live: "db_inv s2" "h \<in> set (live s2)" "kept h True (s2\<lparr>world := w\<rparr>)"
      using k2 True by (simp_all add: kept_True)
    have err: "db_inv (db_set_error O' db_id (Some h) ''Failed to execute SQLExecDirect'' (s2\<lparr>world := w\<rparr>))"
      using live(1,2) by (auto intro: db_set_error_inv)
    have cbi: "cb d h (out, s2\<lparr>world := w\<rparr>) = Some (k, out1, s1) \<Longrightarrow> db_inv s1" for d out k out1 s1
      using cb_kept [OF live(3)] kept_inv by blast
    show ?thesis
      using assms(3) p True e live(1,2) unfolding db_execute_and_fetch_def
      by (auto simp: s0_def [symmetric] Let_def check_error_def intro!: db_cleanup_stmt_inv err dest: cbi
          split: if_splits option.splits bool.splits)
  qed
qed

end

interpretation json_native: result_fetcher "db_fetch_json_native fuel O' ind0"
  by unfold_locales (rule db_fetch_json_native_kept)

interpretation rs2json: result_fetcher "db_fetch_rs2json fuel O' junk"
  by unfold_locales (auto simp: db_fetch_rs2json_def intro: fetch_resultset_kept)

interpretation jsonm: result_fetcher "db_fetch_jsonm_native fuel O' junk"
  by unfold_locales (rule db_fetch_jsonm_native_kept)

lemma bind_outputs_kept:
  "kept h True s \<Longrightarrow> bind_outputs O' db_id h i outs s = (ok, s1) \<Longrightarrow> kept h ok s1"
proof (induction outs arbitrary: i s)
  case (Cons a outs)
  obtain ct len where a: "a = (ct, len)"
    by (cases a)
  have live: "db_inv s" "h \<in> set (live s)"
    using Cons.prems(1) by (simp_all add: kept_True)
  show ?case
  proof (cases ct)
    case None
    then show ?thesis
      using Cons.prems(2) live by (auto simp: a)
  next
    case (Some c)
    obtain ret w where b: "odbc_bind_col O' h (Suc i) c 0 len (world s) = (ret, w)"
      by (cases "odbc_bind_col O' h (Suc i) c 0 len (world s)")
    show ?thesis
      using Cons.prems(2) live Cons.IH [of "s\<lparr>world := w\<rparr>"] Some b by (auto simp: a Let_def kept_True split: if_splits)
  qed
qed simp


lemma query_single_row_inv:
  assumes "odbc_fresh O'" "db_inv s" "db_query_single_row O' cfg db_id query ps outs s = (r, s1)"
  shows "db_inv s1"
proof -
  obtain ok2 h s2 where p: "db_prepare_and_bind O' cfg db_id ps s = (ok2, h, s2)"
    by (metis prod.exhaust)
  obtain ok3 s3 where b: "bind_outputs O' db_id h 0 outs s2 = (ok3, s3)"
    by (cases "bind_outputs O' db_id h 0 outs s2")
  obtain ret w where e: "odbc_exec O' h query (world s3) = (ret, w)"
    by (cases "odbc_exec O' h query (world s3)")
  obtain fret cells w4 where f: "odbc_fetch O' h w = (fret, cells, w4)"
    by (metis prod.exhaust)
  have k2: "db_inv s2" "ok2 \<Longrightarrow> h \<in> set (live s2)"
    using db_prepare_and_bind_inv [OF assms(1,2) p] by simp_all
  have k3: "ok2 \<Longrightarrow> db_inv s3" "ok2 \<Longrightarrow> ok3 \<Longrightarrow> h \<in> set (live s3)"
    using bind_outputs_kept [OF _ b] k2 by (simp_all add: kept_def)
  show ?thesis
    using assms(3) k2 k3
    by (cases ok2; cases ok3)
       (auto simp: db_query_single_row_def p b e f Let_def intro!: db_cleanup_stmt_inv db_set_error_inv split: if_split_asm)
qed

lemma db_exec_inv:
  assumes "odbc_fresh O'" "db_inv s" "db_exec O' cfg db_id query ps n s = (ok, s1)"
  shows "db_inv s1"
proof (cases query)
  case None
  then show ?thesis using assms by (simp add: db_exec_def)
next
  case (Some q)
  obtain ok2 h s2 where p: "db_prepare_and_bind O' cfg db_id (case ps of Some ps \<Rightarrow> take n ps | None \<Rightarrow> []) s = (ok2, h, s2)"
    by (metis prod.exhaust)
  obtain ret w where e: "odbc_exec O' h q (world s2) = (ret, w)"
    by (cases "odbc_exec O' h q (world s2)")
  have k2: "db_inv s2" "ok2 \<Longrightarrow> h \<in> set (live s2)"
    using db_prepare_and_bind_inv [OF assms(1,2) p] by simp_all
  show ?thesis
    using assms(2,3) k2 Some
    by (cases ok2) (auto simp: db_exec_def p e Let_def intro!: db_cleanup_stmt_inv db_set_error_inv split: if_split_asm)
qed

text \<open>A worker thread: it starts without handles, makes any calls of the interface, and releases everything at its end.\<close>

definition db_start :: "'w db \<Rightarrow> bool" where
  "db_start s \<longleftrightarrow> tl_hdbc s = [0, 0, 0, 0] \<and> tl_hstmt s = [0, 0, 0, 0] \<and> \<not> db_fault s"

inductive db_step :: "'w odbc \<Rightarrow> config \<Rightarrow> 'w db \<Rightarrow> 'w db \<Rightarrow> bool" for O' cfg where
  step_json: "db_get_json fuel O' cfg junk ind0 db_id q ps (out, s) = Some (ok, out1, s1) \<Longrightarrow> db_step O' cfg s s1"
| step_rs2json: "db_get_rs2json fuel O' cfg junk db_id q ps (out, s) = Some (ok, out1, s1) \<Longrightarrow> db_step O' cfg s s1"
| step_rs2json_m: "db_get_rs2json_m fuel O' cfg junk db_id q ps (out, s) = Some (ok, out1, s1) \<Longrightarrow> db_step O' cfg s s1"
| step_single_row: "db_query_single_row O' cfg db_id q ps outs s = (r, s1) \<Longrightarrow> db_step O' cfg s s1"
| step_exec: "db_exec O' cfg db_id query params n s = (ok, s1) \<Longrightarrow> db_step O' cfg s s1"
| step_reset: "db_step O' cfg s (db_reset_connection O' db_id s)"
| step_thread_exit: "db_step O' cfg s (tl_hdbc_destructor O' s)"

lemma db_step_inv: "db_step O' cfg s s1 \<Longrightarrow> odbc_fresh O' \<Longrightarrow> db_inv s \<Longrightarrow> db_inv s1"
proof (induction rule: db_step.induct)
  case (step_thread_exit s)
  have "db_inv s \<Longrightarrow> db_inv (fold (db_reset_connection O') xs s)" for xs
    by (induction xs arbitrary: s) (simp_all add: db_reset_connection_inv)
  with step_thread_exit show ?case
    by (simp add: tl_hdbc_destructor_def)
qed (auto simp: db_get_json_def db_get_rs2json_def db_get_rs2json_m_def
    intro: json_native.execute_inv rs2json.execute_inv jsonm.execute_inv query_single_row_inv db_exec_inv db_reset_connection_inv)

interpretation db_thread: invariant_system db_start "\<lambda>s s1. odbc_fresh O' \<and> db_step O' cfg s s1" db_inv
proof unfold_locales
  fix s :: "'a db"
  show "db_start s \<Longrightarrow> db_inv s"
    by (auto simp: db_start_def db_inv_def handles_def handles_ok_def nth_append nth_Cons' split: if_splits)
qed (auto intro: db_step_inv)

lemma reach_with: "reach init step s \<Longrightarrow> P \<Longrightarrow> reach init (\<lambda>s t. P \<and> step s t) s"
  by (induction rule: reach.induct) (auto intro: reach.intros)

text \<open>C8: Whatever the ODBC driver answers, and in whatever order a worker thread makes its database calls, no handle is used or
  freed after it was freed, also when a lost connection frees the statement in the middle of a query; every cached
  handle is allocated and cached once.
\<close>

theorem db_handles_safe:
  assumes "odbc_fresh O'" "reach db_start (db_step O' cfg) s"
  shows "\<not> db_fault s \<and> handles_ok (tl_hdbc s @ tl_hstmt s) (live s)"
  using db_thread.reach_inv [OF reach_with [OF assms(2,1)]] by (simp add: db_inv_def handles_def)


text \<open>A driver that delivers the given rows of one integer column, and then ends the result set, or fails with the given diagnostics.\<close>

definition sample_odbc :: "diag_rec list \<Rightarrow> (cell \<times> int) list list odbc" where
  "sample_odbc diags =
     \<lparr>odbc_alloc = (\<lambda>l w. (Some (Suc (sum_list l)), w)), odbc_set_attr = (\<lambda>_ _ _ w. w), odbc_connect = (\<lambda>_ _ w. (SQL_SUCCESS, w)),
      odbc_diag = (\<lambda>_ _. diags),
      odbc_free = (\<lambda>_ w. w), odbc_close = (\<lambda>_ _ w. w), odbc_bind_parameter = (\<lambda>_ _ _ w. (SQL_SUCCESS, w)),
      odbc_exec = (\<lambda>_ _ w. (SQL_SUCCESS, w)), odbc_num_cols = (\<lambda>_ w. (SQL_SUCCESS, 1, w)),
      odbc_describe = (\<lambda>_ _ w. (SQL_SUCCESS,
        \<lparr>ci_name = ''id'' @ replicate 126 (CHR 0x00), ci_name_len = 2, ci_sql_type = 4, ci_size = 10\<rparr>, w)),
      odbc_bind_col = (\<lambda>_ _ _ _ _ w. (SQL_SUCCESS, w)),
      odbc_fetch = (\<lambda>_ w. case w of [] \<Rightarrow> (if diags \<noteq> [] then SQL_FAIL (- 1) else SQL_NO_DATA, [], []) | r # rs \<Rightarrow> (SQL_SUCCESS, r, rs)),
      odbc_get_data = (\<lambda>_ w. (SQL_NO_DATA, [], None, w)), odbc_more = (\<lambda>_ w. (SQL_NO_DATA, w)), odbc_memory = (\<lambda>w. (True, w))\<rparr>"

definition link_down :: diag_rec where
  "link_down = \<lparr>sqlState = ''08S01'', nativeError = 0, diag_msg = ''link down''\<rparr>"

lemma sample_odbc_fresh: "odbc_fresh (sample_odbc diags)"
  using member_le_sum_list [where ?'a = nat] by (fastforce simp: odbc_fresh_def sample_odbc_def)

definition sample_db :: "(cell \<times> int) list list db" where
  "sample_db = \<lparr>tl_hdbc = [0, 0, 0, 0], tl_hstmt = [0, 0, 0, 0], tl_last_native_error = 0, tl_last_error_msg = [], db_error = no_error,
     live = [], db_fault = False, db_overread = False, world = []\<rparr>"

definition sample_cfg :: config where
  "sample_cfg = initial_config\<lparr>g_odbc_conn_strs := [''DSN=a'', [], [], []]\<rparr>"

theorem db_handles_safe_witness:
  "\<exists>s. reach db_start (db_step (sample_odbc [link_down]) sample_cfg) s \<and> \<not> db_fault s \<and> tl_err_msg (db_error s) \<noteq> [] \<and> live s = []"
proof -
  define s where "s = snd (db_query_single_row (sample_odbc [link_down]) sample_cfg 0 ''q'' [] [] sample_db)"
  have "db_step (sample_odbc [link_down]) sample_cfg sample_db s"
    unfolding s_def by (rule step_single_row [where r = "fst (db_query_single_row (sample_odbc [link_down]) sample_cfg 0 ''q'' [] [] sample_db)"]) simp
  moreover have "db_start sample_db"
    by (simp add: db_start_def sample_db_def)
  ultimately have r: "reach db_start (db_step (sample_odbc [link_down]) sample_cfg) s"
    using reach_step reach_init by metis
  have "live s = [] \<and> tl_err_msg (db_error s) \<noteq> []"
    unfolding s_def by code_simp
  then show ?thesis
    using r db_handles_safe [OF sample_odbc_fresh r] by blast
qed


section \<open>Result sets as JSON\<close>

text \<open>The rows a statement will deliver from a state of the driver, and the state after them.\<close>

inductive cursor :: "'w odbc \<Rightarrow> nat \<Rightarrow> 'w \<Rightarrow> (cell \<times> int) list list \<Rightarrow> 'w \<Rightarrow> bool" for O' h where
  cursor_end: "odbc_fetch O' h w = (SQL_NO_DATA, cells, w1) \<Longrightarrow> cursor O' h w [] w1"
| cursor_row: "odbc_fetch O' h w = (ret, cells, w1) \<Longrightarrow> SQL_SUCCEEDED ret \<Longrightarrow> cursor O' h w1 rows w2 \<Longrightarrow>
    cursor O' h w (cells # rows) w2"

lemma jstep_appends:
  assumes "appends jb_ok jb_contents f t" "jb_ok j"
  shows "\<exists>j1. jstep f (j, s) = (j1, s) \<and> jb_ok j1 \<and> jb_contents j1 = jb_contents j @ t"
  by (rule appends_run [OF assms]) (simp add: jstep_def)

lemma fetch_rows_text:
  assumes "cursor O' h w rows w1" "h \<in> set (live s)" "world s = w" "jb_ok j" "length rows < n"
    "\<forall>row \<in> set rows. row_ok (fetched cols row)"
  shows "\<exists>j1. fetch_rows n O' junk db_id h cols first (j, s) = Some (True, j1, s\<lparr>world := w1\<rparr>) \<and> jb_ok j1 \<and>
    jb_contents j1 = jb_contents j @ (if first \<or> rows = [] then [] else '','') @ join '','' (map (\<lambda>r. row_json (fetched cols r)) rows)"
  using assms
proof (induction arbitrary: s j first n rule: cursor.induct)
  case (cursor_end w cells w1)
  then show ?case
    by (cases n) simp_all
next
  case (cursor_row w ret cells w1 rows w2)
  obtain m where n: "n = Suc m" "length rows < m"
    using cursor_row.prems(4) by (cases n) auto
  define s1 where "s1 = s\<lparr>world := w1\<rparr>"
  obtain j1 where j1: "(if \<not> first then jstep (jbuf_add_char (CHR '','')) (j, s1) else (j, s1)) = (j1, s1)" "jb_ok j1"
      "jb_contents j1 = jb_contents j @ (if first then [] else '','')"
    using jstep_appends [OF jw.add_char_appends cursor_row.prems(3), of "CHR '',''" s1] cursor_row.prems(3)
    by (cases first) auto
  obtain j2 where j2: "jstep (jbuf_append_row_object junk (fetched cols cells)) (j1, s1) = (j2, s1)" "jb_ok j2"
      "jb_contents j2 = jb_contents j1 @ row_json (fetched cols cells)"
    using jstep_appends [OF append_row_appends [of "fetched cols cells" junk] j1(2), of s1] cursor_row.prems(5) by auto
  obtain j3 where j3: "fetch_rows m O' junk db_id h cols False (j2, s1) = Some (True, j3, s1\<lparr>world := w2\<rparr>)" "jb_ok j3"
      "jb_contents j3 = jb_contents j2 @ (if rows = [] then [] else '','') @ join '','' (map (\<lambda>r. row_json (fetched cols r)) rows)"
    using cursor_row.IH [of s1 j2 m False] cursor_row.prems n j2(2) by (auto simp: s1_def)
  have nd: "ret \<noteq> SQL_NO_DATA"
    using cursor_row.hyps(2) by (auto simp: SQL_SUCCEEDED_def)
  have "fetch_rows n O' junk db_id h cols first (j, s) = Some (True, j3, s\<lparr>world := w2\<rparr>)"
    using cursor_row.hyps(1,2) cursor_row.prems(1,2) nd n(1) j1(1) j2(1) j3(1)
    by (cases first) (simp_all add: s1_def Let_def)
  moreover have "jb_contents j3 = jb_contents j @ (if first then [] else '','') @
      join '','' (map (\<lambda>r. row_json (fetched cols r)) (cells # rows))"
    using j1(3) j2(3) j3(3) by (cases rows) simp_all
  ultimately show ?case
    using j3(2) by simp
qed

lemma metadata_destroy_keeps_flags: "db_overread (metadata_destroy O' meta s) = db_overread s"
  by (simp add: metadata_destroy_def on_handle_def touch_def)

text \<open>A column: its key is that of its name, unless the name was read outside its buffer.\<close>

lemma column_key_text: "column_key junk True nm = take 255 (json_string nm @ '':'')"
  by (simp add: column_key_def evbuffer_append_escaped)

definition key_from_name :: "ColumnDescriptor \<Rightarrow> bool" where
  "key_from_name col \<longleftrightarrow> precomputed_key col = [] \<or>
     precomputed_key col = take 255 (json_string (take (nat (name_len col)) (col_name col)) @ '':'')"

lemma new_column_key:
  "new_column O' junk ci ct sz s = (col, s1) \<Longrightarrow> (db_overread s \<longrightarrow> db_overread s1) \<and> (db_overread s1 \<or> key_from_name col)"
  by (auto simp: new_column_def Let_def key_from_name_def evbuffer_append_escaped column_key_def read_block_def
      split: prod.splits option.splits if_splits)

lemma setup_columns_keys:
  "setup_column_metadata O' junk db_id h i r tot s = (True, cols, tot1, s1) \<Longrightarrow>
   (db_overread s \<longrightarrow> db_overread s1) \<and> (db_overread s1 \<or> list_all key_from_name cols)"
proof (induction r arbitrary: i tot s cols)
  case (Suc r)
  obtain ret ci w where d: "odbc_describe O' h (Suc i) (world s) = (ret, ci, w)"
    by (metis prod.exhaust)
  obtain ct sz where c: "column_type (ci_sql_type ci) (ci_size ci) = (ct, sz)"
    by (cases "column_type (ci_sql_type ci) (ci_size ci)")
  obtain col s2 where m: "new_column O' junk ci ct sz ((touch h s)\<lparr>world := w\<rparr>) = (col, s2)"
    by (cases "new_column O' junk ci ct sz ((touch h s)\<lparr>world := w\<rparr>)")
  have "db_overread ((touch h s)\<lparr>world := w\<rparr>) = db_overread s"
    by (simp add: touch_def)
  then show ?case
    using Suc.prems new_column_key [OF m] Suc.IH [of "Suc i" "tot + sz" s2]
    by (auto simp: d c m Let_def split: if_splits prod.splits)
qed simp


lemma bind_cols_flags: "bind_cols O' db_id h i off cols s = (True, s1) \<Longrightarrow> db_overread s1 = db_overread s"
  by (induction cols arbitrary: i off s) (auto simp: Let_def touch_def split: prod.splits if_splits)

lemma bind_resultset_keys:
  assumes "odbc_bind_resultset_metadata O' junk db_id h no_meta s = (True, meta, s1)" "\<not> db_overread s1"
  shows "list_all key_from_name (meta_cols meta)"
proof -
  obtain ret nc w where n: "odbc_num_cols O' h (world s) = (ret, nc, w)"
    by (metis prod.exhaust)
  obtain ok2 meta2 s2 where a: "alloc_metadata_cols O' junk db_id h nc no_meta ((touch h s)\<lparr>world := w\<rparr>) = (ok2, meta2, s2)"
    by (metis prod.exhaust)
  have "db_overread s2 \<or> list_all key_from_name (meta_cols meta2)" if ok2
    using a that unfolding alloc_metadata_cols_def
    by (auto simp: Let_def dest!: setup_columns_keys split: if_splits prod.splits)
  then show ?thesis
    using assms bind_cols_flags [of O' db_id h 0 0 "meta_cols meta2" s2 s1]
    by (auto simp: odbc_bind_resultset_metadata_def n a Let_def split: if_splits prod.splits)
qed

text \<open>C16: A result set is delivered complete and in order: the output gets one JSON array with an object per row, whatever the
  number of rows and wherever the writer's buffer fills up; each member is the column's key and the value of the cell, null for
  SQL null, strings escaped, and nothing outside the buffers is accessed. The keys are the escaped names of the columns with a
  colon, cut to 255 bytes.
\<close>

theorem rs2json_correct:
  assumes "db_inv s" "h \<in> set (live s)" "odbc_bind_resultset_metadata O' junk db_id h no_meta s = (True, meta, s1)"
    "meta_count meta \<noteq> 0" "cursor O' h (world s1) rows w1" "\<forall>row \<in> set rows. row_ok (fetched (meta_cols meta) row)" "length rows < fuel"
  shows "\<exists>s2. db_fetch_rs2json fuel O' junk db_id h (out, s) =
    Some (True, out @ ''['' @ join '','' (map (\<lambda>r. row_json (fetched (meta_cols meta) r)) rows) @ '']'', s2) \<and>
    db_overread s2 = db_overread s1 \<and> (db_overread s1 \<or> list_all key_from_name (meta_cols meta))"
proof -
  have live: "h \<in> set (live s1)"
    using bind_resultset_kept [OF _ assms(3)] assms(1,2) by (simp add: kept_True)
  obtain j0 where j0: "jstep (jbuf_add ''['') (jbuf_new junk out, s1) = (j0, s1)" "jb_ok j0" "jb_contents j0 = out @ ''[''"
    using jstep_appends [OF jw.add_appends jbuf_new_ok(1), of "''[''" junk out s1] by auto
  obtain j1 where j1: "fetch_rows fuel O' junk db_id h (meta_cols meta) True (j0, s1) = Some (True, j1, s1\<lparr>world := w1\<rparr>)" "jb_ok j1"
      "jb_contents j1 = jb_contents j0 @ join '','' (map (\<lambda>r. row_json (fetched (meta_cols meta) r)) rows)"
    using fetch_rows_text [OF assms(5) live refl j0(2) assms(7,6), of junk db_id True] by auto
  obtain j2 where j2: "jstep (jbuf_add_char (CHR '']'')) (j1, s1\<lparr>world := w1\<rparr>) = (j2, s1\<lparr>world := w1\<rparr>)" "jb_ok j2"
      "jb_contents j2 = jb_contents j1 @ '']''"
    using jstep_appends [OF jw.add_char_appends j1(2), of "CHR '']''" "s1\<lparr>world := w1\<rparr>"] by auto
  have "evbuf (jbuf_flush j2) = out @ ''['' @ join '','' (map (\<lambda>r. row_json (fetched (meta_cols meta) r)) rows) @ '']''"
    using jw.flush_ok [OF j2(2)] j0(3) j1(3) j2(3) by simp
  then show ?thesis
    using assms(3,4) j0(1) j1(1) j2(1) bind_resultset_keys [OF assms(3)]
    by (auto simp: db_fetch_rs2json_def fetch_resultset_array_def metadata_destroy_keeps_flags)
qed


theorem rs2json_correct_witness:
  "\<exists>s2. db_fetch_rs2json 5 (sample_odbc []) (CHR ''?'') 0 7
      ([], sample_db\<lparr>live := [7], world := [[(Cell_int 1, 4)], [(Cell_int (- 2), 4)]]\<rparr>) =
    Some (True, ''['' @ join '','' [''{'' @ json_string ''id'' @ '':1}'', ''{'' @ json_string ''id'' @ '':-2}''] @ '']'', s2)"
proof -
  define s where "s = sample_db\<lparr>live := [7], world := [[(Cell_int 1, 4)], [(Cell_int (- 2), 4)]]\<rparr>"
  define r where "r = odbc_bind_resultset_metadata (sample_odbc []) (CHR ''?'') 0 7 no_meta s"
  define col where "col = \<lparr>col_buffer = Cell_chars [], alloc_size = 4, col_ind = 0, precomputed_key = json_string ''id'' @ '':'',
    name_len = 2, col_sql_type = 4, col_c_type = SQL_C_SLONG, col_name = ''id'' @ replicate 126 (CHR 0x00)\<rparr>"
  have inv: "db_inv s" "7 \<in> set (live s)"
    by (simp_all add: s_def sample_db_def db_inv_def handles_def handles_ok_def nth_Cons')
  have key: "column_key (CHR ''?'') True ''id'' = json_string ''id'' @ '':''"
    by (simp add: column_key_text json_string_def encode_char_def)
  have m: "r = (True, \<lparr>meta_cols = [col], meta_hstmt = 7, meta_count = 1\<rparr>, s)"
    using inv(2) unfolding r_def s_def
    by (simp add: odbc_bind_resultset_metadata_def alloc_metadata_cols_def sample_odbc_def SQL_SUCCEEDED_def column_type_def
      new_column_def read_block_def key col_def no_meta_def sample_db_def TLS_MAX_COLS_def TLS_ARENA_SIZE_def Let_def)
  have c: "cursor (sample_odbc []) 7 (world s) [[(Cell_int 1, 4)], [(Cell_int (- 2), 4)]] []"
    by (auto simp: s_def sample_odbc_def SQL_SUCCEEDED_def intro!: cursor.intros)
  have ok: "\<forall>row \<in> set [[(Cell_int 1, 4)], [(Cell_int (- 2), 4)]]. row_ok (fetched [col] row)"
    by (simp add: row_ok_def key_ok_def cell_ok_def fetched_def col_def SQL_NULL_DATA_def json_string_def)
  have d: "dec_int 1 = ''1''" "dec_int (- 2) = ''-2''"
    by code_simp+
  have v: "map (\<lambda>r. row_json (fetched [col] r)) [[(Cell_int 1, 4)], [(Cell_int (- 2), 4)]] =
      [''{'' @ json_string ''id'' @ '':1}'', ''{'' @ json_string ''id'' @ '':-2}'']"
    by (simp add: row_json_def fetched_def col_def key_json_def value_json_def SQL_NULL_DATA_def json_string_def d)
  show ?thesis
    using rs2json_correct [OF inv m [unfolded r_def], of "[[(Cell_int 1, 4)], [(Cell_int (- 2), 4)]]" "[]" 5 "[]"] c ok
    unfolding s_def [symmetric] v [symmetric] by (auto simp del: join.simps list.map)
qed



section \<open>Column names\<close>

text \<open> A column name longer than its 128-byte buffer is read past the end of that buffer: the driver reports the full length of the
  name, and the length is used without a check.
\<close>

theorem column_name_overread:
  assumes "odbc_describe O' h (Suc i) (world s) = (ret, ci, w)" "int (length (ci_name ci)) < ci_name_len ci" "odbc_memory O' w = (True, w2)"
    "setup_column_metadata O' junk db_id h i (Suc r) tot s = (True, cols, tot1, s1)"
  shows "db_overread s1"
proof -
  obtain ct sz where c: "column_type (ci_sql_type ci) (ci_size ci) = (ct, sz)"
    by (cases "column_type (ci_sql_type ci) (ci_size ci)")
  obtain col s2 where m: "new_column O' junk ci ct sz ((touch h s)\<lparr>world := w\<rparr>) = (col, s2)"
    by (cases "new_column O' junk ci ct sz ((touch h s)\<lparr>world := w\<rparr>)")
  have "db_overread s2"
    using m assms(2,3) by (auto simp: new_column_def read_block_def Let_def nat_le_iff split: if_splits)
  then show ?thesis
    using assms(4) setup_columns_keys [of O' junk db_id h "Suc i" r "tot + sz" s2]
    by (auto simp: assms(1) c m Let_def split: if_splits prod.splits)
qed

theorem column_name_overread_witness:
  "\<exists>cols tot s1. setup_column_metadata ((sample_odbc [])\<lparr>odbc_describe := (\<lambda>_ _ w. (SQL_SUCCESS,
       \<lparr>ci_name = replicate 128 (CHR ''x''), ci_name_len = 200, ci_sql_type = 4, ci_size = 10\<rparr>, w))\<rparr>) (CHR ''?'') 0 7 0 1 0
       (sample_db\<lparr>live := [7]\<rparr>) = (True, cols, tot, s1) \<and> db_overread s1"
proof -
  define O' where "O' = (sample_odbc [])\<lparr>odbc_describe := (\<lambda>_ _ w. (SQL_SUCCESS,
       \<lparr>ci_name = replicate 128 (CHR ''x''), ci_name_len = 200, ci_sql_type = 4, ci_size = 10\<rparr>, w))\<rparr>"
  obtain ok cols tot s1 where r: "setup_column_metadata O' (CHR ''?'') 0 7 0 1 0 (sample_db\<lparr>live := [7]\<rparr>) = (ok, cols, tot, s1)"
    by (metis prod.exhaust)
  have ok
    using r by (auto simp: O'_def sample_odbc_def SQL_SUCCEEDED_def column_type_def Let_def split: prod.splits)
  then show ?thesis
    using r column_name_overread [of O' 7 0 "sample_db\<lparr>live := [7]\<rparr>" SQL_SUCCESS
        "\<lparr>ci_name = replicate 128 (CHR ''x''), ci_name_len = 200, ci_sql_type = 4, ci_size = 10\<rparr>" "[]" "[]" "CHR ''?''" 0 0 0 cols tot s1]
    unfolding O'_def [symmetric] by (simp add: O'_def sample_odbc_def sample_db_def)
qed

end
