(* ===== verification/DbErrors.thy ===== *)
theory DbErrors
  imports DbApi
begin

text \<open>
  Application errors of the database: which diagnostics of the driver a failed query of \<open>lib/dbapi.c\<close> answers with. A query
  forgets the last error at its start, every failing call reads the diagnostics once, and the answer is built from the last
  record with a native code of 50000 or more.
\<close>

section \<open>What is recorded of the diagnostics\<close>

definition errs :: "'w db \<Rightarrow> int \<times> cstring" where
  "errs s = (tl_last_native_error s, tl_last_error_msg s)"

definition raised :: "diag_rec list \<Rightarrow> diag_rec list" where
  "raised recs = filter (\<lambda>r. 50000 \<le> nativeError r) recs"

definition report :: "diag_rec list \<Rightarrow> int \<times> cstring" where
  "report recs =
     (if raised recs = [] then (0, [])
      else (nativeError (last (raised recs)), take 511 (clean_odbc_error_message (diag_msg (last (raised recs))))))"

text \<open>A call that succeeds records nothing; one that fails may have recorded what the driver reported.\<close>

definition reports :: "'w odbc \<Rightarrow> bool \<Rightarrow> 'w db \<Rightarrow> bool" where
  "reports O' ok s \<longleftrightarrow> errs s = (0, []) \<or> \<not> ok \<and> (\<exists>handle w. errs s = report (odbc_diag O' handle w))"

lemma reports_True [simp]: "reports O' True s \<longleftrightarrow> errs s = (0, [])"
  by (simp add: reports_def)

lemma reports_blank: "errs s = (0, []) \<Longrightarrow> reports O' ok s"
  by (simp add: reports_def)

lemma reports_fails: "reports O' ok s \<Longrightarrow> reports O' False s"
  by (auto simp: reports_def)

lemma errs_fields [simp]:
  "errs (s\<lparr>world := w\<rparr>) = errs s" "errs (s\<lparr>db_error := e\<rparr>) = errs s" "errs (s\<lparr>live := l\<rparr>) = errs s" "errs (s\<lparr>db_fault := f\<rparr>) = errs s"
  "errs (s\<lparr>db_overread := b\<rparr>) = errs s" "errs (s\<lparr>tl_hdbc := c\<rparr>) = errs s" "errs (s\<lparr>tl_hstmt := t\<rparr>) = errs s"
  by (simp_all add: errs_def)

lemma errs_handles [simp]:
  "errs (touch h s) = errs s" "errs (on_handle h f s) = errs s" "errs (free_handle O' h s) = errs s"
  "errs (db_reset_connection O' db_id s) = errs s" "errs (db_cleanup_stmt O' h s) = errs s" "errs (metadata_destroy O' m s) = errs s"
  by (simp_all add: touch_def on_handle_def free_handle_def db_reset_connection_def db_cleanup_stmt_def metadata_destroy_def Let_def)

lemma reports_fields [simp]:
  "reports O' ok (s\<lparr>world := w\<rparr>) = reports O' ok s" "reports O' ok (s\<lparr>db_overread := b\<rparr>) = reports O' ok s"
  "reports O' ok (touch h s) = reports O' ok s" "reports O' ok (metadata_destroy O' m s) = reports O' ok s"
  "reports O' ok (db_cleanup_stmt O' h s) = reports O' ok s" "reports O' ok (db_reset_connection O' db_id s) = reports O' ok s"
  by (simp_all add: reports_def)

lemma errs_notes: "errs s = (0, []) \<Longrightarrow> errs (fold note_native recs s) = report recs"
proof (induction recs rule: rev_induct)
  case (snoc r recs)
  then show ?case
    by (simp add: note_native_def report_def raised_def snprintf_def) (simp add: errs_def)
qed (simp add: report_def raised_def)

lemma errs_set_error:
  "errs s = (0, []) \<Longrightarrow> errs (db_set_error O' db_id handle msg s) = report (odbc_diag O' handle (world s))"
  using errs_notes [of s] errs_notes [of "touch (the handle) s"]
  by (cases handle) (simp_all add: db_set_error_def report_def raised_def Let_def)

lemma reports_error [simp]: "errs s = (0, []) \<Longrightarrow> reports O' False (db_set_error O' db_id handle msg s)"
  using errs_set_error [of s O' db_id handle msg] unfolding reports_def by blast


section \<open>Preparing a query\<close>

lemma db_connect_reports: "errs s = (0, []) \<Longrightarrow> db_connect O' cfg db_id s = (h, s1) \<Longrightarrow> reports O' (h \<noteq> 0) s1"
  by (auto simp: db_connect_def Let_def intro: reports_blank split: if_splits option.splits prod.splits)

lemma db_alloc_stmt_reports: "errs s = (0, []) \<Longrightarrow> db_alloc_stmt O' db_id hdbc s = (h, s1) \<Longrightarrow> reports O' (h \<noteq> 0) s1"
  by (auto simp: db_alloc_stmt_def Let_def intro: reports_blank split: if_splits option.splits prod.splits)

lemma bind_params_reports: "errs s = (0, []) \<Longrightarrow> bind_params O' db_id h i ps s = (ok, s1) \<Longrightarrow> reports O' ok s1"
proof (induction ps arbitrary: i s)
  case (Cons p ps)
  obtain ret w where b: "odbc_bind_parameter O' h (Suc i) (bound_value p) (world s) = (ret, w)"
    by (cases "odbc_bind_parameter O' h (Suc i) (bound_value p) (world s)")
  show ?case
    using Cons.prems Cons.IH [of "(touch h s)\<lparr>world := w\<rparr>" "Suc i"] by (auto simp: db_bind_param_def b Let_def split: if_splits)
qed simp

lemma db_prepare_and_bind_reports:
  assumes "errs s = (0, [])" "db_prepare_and_bind O' cfg db_id ps s = (ok, h, s1)"
  shows "reports O' ok s1"
proof -
  obtain hdbc s2 where c: "db_connect O' cfg db_id s = (hdbc, s2)"
    by (cases "db_connect O' cfg db_id s")
  obtain hstmt s3 where a: "db_alloc_stmt O' db_id hdbc s2 = (hstmt, s3)"
    by (cases "db_alloc_stmt O' db_id hdbc s2")
  show ?thesis
    using assms(2) db_connect_reports [OF assms(1) c] db_alloc_stmt_reports [OF _ a] bind_params_reports [of s3 O' db_id hstmt 0 ps ok s1]
    by (auto simp: db_prepare_and_bind_def c a split: if_splits prod.splits)
qed


section \<open>Fetching\<close>

lemma json_col_loop_reports:
  "errs s = (0, []) \<Longrightarrow> fetch_json_native_col_loop n O' db_id h ind (out, hdw, s) = Some (ok, out1, hdw1, s1) \<Longrightarrow> reports O' ok s1"
proof (induction n arbitrary: ind out hdw s)
  case (Suc n)
  obtain ret chunk i w where g: "odbc_get_data O' h (world s) = (ret, chunk, i, w)"
    by (metis prod.exhaust)
  define ind1 where "ind1 = (case i of Some i \<Rightarrow> i | None \<Rightarrow> ind)"
  show ?case
    using Suc.prems Suc.IH [of "(touch h s)\<lparr>world := w\<rparr>"] Suc.IH [of "(touch h s)\<lparr>world := w, db_overread := True\<rparr>"]
    by (auto simp: g Let_def ind1_def [symmetric] split: SQLRETURN.splits if_splits option.splits prod.splits)
qed simp

lemma json_rows_reports:
  "errs s = (0, []) \<Longrightarrow> fetch_json_rows n fuel O' ind0 db_id h hr (out, hdw, s) = Some (ok, hr1, out1, s1) \<Longrightarrow> reports O' ok s1"
proof (induction n arbitrary: hr out hdw s)
  case (Suc n)
  obtain ret cells w where f: "odbc_fetch O' h (world s) = (ret, cells, w)"
    by (metis prod.exhaust)
  show ?case
  proof (cases "SQL_SUCCEEDED ret")
    case False
    then show ?thesis
      using Suc.prems by (auto simp: f Let_def split: if_splits)
  next
    case True
    obtain ok1 out2 hdw2 s2 where c: "fetch_json_native_col_loop fuel O' db_id h ind0 (out, hdw, (touch h s)\<lparr>world := w\<rparr>) = Some (ok1, out2, hdw2, s2)"
      using Suc.prems(2) True by (auto simp: f Let_def SQL_SUCCEEDED_def split: option.splits)
    have "reports O' ok1 s2"
      using json_col_loop_reports [OF _ c] Suc.prems(1) by simp
    then show ?thesis
      using Suc.prems(2) True c Suc.IH [of s2] by (auto simp: f Let_def SQL_SUCCEEDED_def split: if_splits)
  qed
qed simp

lemma new_column_blank: "errs s = (0, []) \<Longrightarrow> new_column O' junk ci ct sz s = (col, s1) \<Longrightarrow> errs s1 = (0, [])"
  by (auto simp: new_column_def Let_def split: prod.splits option.splits if_splits)

lemma setup_columns_reports:
  "errs s = (0, []) \<Longrightarrow> setup_column_metadata O' junk db_id h i r tot s = (ok, cols, tot1, s1) \<Longrightarrow> reports O' ok s1"
proof (induction r arbitrary: i tot s ok cols)
  case (Suc r)
  obtain ret ci w where d: "odbc_describe O' h (Suc i) (world s) = (ret, ci, w)"
    by (metis prod.exhaust)
  obtain ct sz where c: "column_type (ci_sql_type ci) (ci_size ci) = (ct, sz)"
    by (cases "column_type (ci_sql_type ci) (ci_size ci)")
  obtain col s2 where m: "new_column O' junk ci ct sz ((touch h s)\<lparr>world := w\<rparr>) = (col, s2)"
    by (cases "new_column O' junk ci ct sz ((touch h s)\<lparr>world := w\<rparr>)")
  then have "errs s2 = (0, [])"
    using new_column_blank [OF _ m] Suc.prems(1) by simp
  then show ?case
    using Suc.prems Suc.IH [of s2] by (auto simp: d c m Let_def split: if_splits prod.splits)
qed simp

lemma alloc_metadata_reports:
  assumes "errs s = (0, [])" "alloc_metadata_cols O' junk db_id h nc meta s = (ok, meta1, s1)"
  shows "reports O' ok s1"
proof -
  obtain b w where m: "odbc_memory O' (world s) = (b, w)"
    by (cases "odbc_memory O' (world s)")
  define s2 where "s2 = (if nc \<le> TLS_MAX_COLS then s else s\<lparr>world := w\<rparr>)"
  obtain ok3 cols tot s3 where u: "setup_column_metadata O' junk db_id h 0 (nat nc) 0 s2 = (ok3, cols, tot, s3)"
    by (metis prod.exhaust)
  have r3: "reports O' ok3 s3" "errs s2 = (0, [])"
    using setup_columns_reports [OF _ u] assms(1) by (simp_all add: s2_def)
  obtain b4 w4 where m4: "odbc_memory O' (world s3) = (b4, w4)"
    by (cases "odbc_memory O' (world s3)")
  show ?thesis
    using assms r3 u m m4 reports_fails [OF r3(1)] unfolding alloc_metadata_cols_def s2_def
    by (cases "nc \<le> TLS_MAX_COLS"; cases ok3) (auto simp: Let_def intro: reports_blank split: if_splits prod.splits)
qed

lemma bind_cols_reports: "errs s = (0, []) \<Longrightarrow> bind_cols O' db_id h i off cols s = (ok, s1) \<Longrightarrow> reports O' ok s1"
proof (induction cols arbitrary: i off s)
  case (Cons col cols)
  obtain ret w where b: "odbc_bind_col O' h (Suc i) (col_c_type col) off (alloc_size col) (world s) = (ret, w)"
    by (cases "odbc_bind_col O' h (Suc i) (col_c_type col) off (alloc_size col) (world s)")
  show ?case
    using Cons.prems Cons.IH [of "(touch h s)\<lparr>world := w\<rparr>" "Suc i" "off + alloc_size col"] by (auto simp: b Let_def split: if_splits)
qed simp

lemma bind_resultset_reports:
  assumes "errs s = (0, [])" "odbc_bind_resultset_metadata O' junk db_id h meta s = (ok, meta1, s1)"
  shows "reports O' ok s1"
proof -
  obtain ret nc w where n: "odbc_num_cols O' h (world s) = (ret, nc, w)"
    by (metis prod.exhaust)
  obtain ok2 meta2 s2 where a: "alloc_metadata_cols O' junk db_id h nc meta ((touch h s)\<lparr>world := w\<rparr>) = (ok2, meta2, s2)"
    by (metis prod.exhaust)
  have "reports O' ok2 s2"
    using alloc_metadata_reports [OF _ a] assms(1) by simp
  then show ?thesis
    using assms bind_cols_reports [of s2 O' db_id h 0 0 "meta_cols meta2" ok s1]
    by (auto simp: odbc_bind_resultset_metadata_def n a Let_def intro: reports_blank split: if_splits prod.splits)
qed

lemma errs_jstep [simp]: "errs (snd (jstep f js)) = errs (snd js)"
  by (simp add: jstep_def split: option.split)

lemma fetch_rows_reports:
  "errs (snd js) = (0, []) \<Longrightarrow> fetch_rows n O' junk db_id h cols fr js = Some (ok, j1, s1) \<Longrightarrow> reports O' ok s1"
proof (induction n arbitrary: fr js)
  case (Suc n)
  obtain j s where js: "js = (j, s)"
    by (cases js)
  obtain ret cells w where f: "odbc_fetch O' h (world s) = (ret, cells, w)"
    by (metis prod.exhaust)
  define js1 where "js1 = jstep (jbuf_append_row_object junk (fetched cols cells))
    (if \<not> fr then jstep (jbuf_add_char (CHR '','')) (j, (touch h s)\<lparr>world := w\<rparr>) else (j, (touch h s)\<lparr>world := w\<rparr>))"
  have "errs (snd js1) = (0, [])"
    using Suc.prems(1) by (simp add: js1_def js)
  then show ?case
    using Suc.prems Suc.IH [of js1 False] by (auto simp: js f Let_def js1_def [symmetric] split: if_split_asm)
qed simp

lemma fetch_resultset_reports:
  assumes "errs s = (0, [])" "fetch_resultset_array fuel O' junk db_id h br (out, s) = Some (ok, out1, s1)"
  shows "reports O' ok s1"
proof -
  obtain ok2 meta s2 where b: "odbc_bind_resultset_metadata O' junk db_id h no_meta s = (ok2, meta, s2)"
    by (metis prod.exhaust)
  have r2: "reports O' ok2 s2"
    using bind_resultset_reports [OF assms(1) b] .
  define js0 where "js0 = (if br then jstep (jbuf_add ''['') (jbuf_new junk out, s2) else (jbuf_new junk out, s2))"
  have j: "jstep f js = (j1, s3) \<Longrightarrow> reports O' ok3 s3 = reports O' ok3 (snd js)" for f js j1 s3 ok3
    by (metis errs_jstep snd_conv reports_def)
  show ?thesis
  proof (cases "ok2 \<and> \<not> (br \<and> meta_count meta = 0)")
    case False
    then show ?thesis
      using assms(2) r2
      by (cases ok2) (auto simp: fetch_resultset_array_def b Let_def simp del: reports_True split: prod.splits dest: j)
  next
    case True
    obtain ok1 j2 s3 where r: "fetch_rows fuel O' junk db_id h (meta_cols meta) True js0 = Some (ok1, j2, s3)"
      using assms(2) True by (auto simp: fetch_resultset_array_def b Let_def js0_def [symmetric] split: option.splits)
    have "errs (snd js0) = (0, [])"
      using r2 True by (simp add: js0_def)
    from fetch_rows_reports [OF this r] show ?thesis
      using assms(2) True r
      by (auto simp: fetch_resultset_array_def b Let_def js0_def [symmetric] simp del: reports_True split: if_splits prod.splits dest: j)
  qed
qed

lemma num_result_cols_blank: "errs s = (0, []) \<Longrightarrow> num_result_cols O' h cc s = (cc1, s1) \<Longrightarrow> errs s1 = (0, [])"
  by (auto simp: num_result_cols_def split: prod.splits)

lemma jsonm_loop_reports:
  "errs s = (0, []) \<Longrightarrow> jsonm_loop n fuel O' junk db_id h rs has cc (out, s) = Some (ok, has1, out1, s1) \<Longrightarrow> reports O' ok s1"
proof (induction n arbitrary: rs has cc out s)
  case (Suc n)
  define first where "first = (if cc > 0
     then map_option (\<lambda>(ok, out1, s1). (ok, rs + 1, True, if ok then out1 @ '']'' else out1, s1))
            (fetch_resultset_array fuel O' junk db_id h False (out @ rs_prefix junk rs has, s))
     else Some (True, rs, has, out, s))"
  obtain ok2 rs2 has2 out2 s2 where f: "first = Some (ok2, rs2, has2, out2, s2)"
    using Suc.prems(2) by (auto simp: first_def [symmetric] split: option.splits)
  have r2: "reports O' ok2 s2"
    using f Suc.prems(1) fetch_resultset_reports [OF Suc.prems(1)]
    by (auto simp: first_def reports_blank simp del: reports_True split: if_splits)
  obtain mret w where m: "odbc_more O' h (world s2) = (mret, w)"
    by (cases "odbc_more O' h (world s2)")
  obtain cc1 s3 where c: "num_result_cols O' h cc ((touch h s2)\<lparr>world := w\<rparr>) = (cc1, s3)"
    by (cases "num_result_cols O' h cc ((touch h s2)\<lparr>world := w\<rparr>)")
  show ?case
  proof (cases ok2)
    case False
    then show ?thesis
      using Suc.prems(2) f r2 by (simp add: first_def [symmetric])
  next
    case True
    then have "errs s3 = (0, [])"
      using r2 num_result_cols_blank [OF _ c] by simp
    then show ?thesis
      using Suc.prems(2) f True r2 m c Suc.IH [of s3] by (auto simp: first_def [symmetric] Let_def split: if_split_asm)
  qed
qed simp

lemma business_error_errs: "errs s = errs t \<Longrightarrow> business_error junk s = business_error junk t"
  by (simp add: business_error_def errs_def)

text \<open>The contract of a fetch function, as a query relies on it.\<close>

locale reporting_fetcher = result_fetcher cb for cb :: "int \<Rightarrow> nat \<Rightarrow> string \<times> 'w db \<Rightarrow> (bool \<times> string \<times> 'w db) option" +
  fixes driver :: "'w odbc"
  assumes cb_reports: "errs s = (0, []) \<Longrightarrow> cb db_id h (out, s) = Some (ok, out1, s1) \<Longrightarrow> reports driver ok s1"
begin

lemma execute_reports:
  assumes "db_execute_and_fetch driver cfg junk db_id q ps cb (out, s) = Some (False, out1, s1)"
  shows "reports driver False s1 \<and> (50000 \<le> tl_last_native_error s1 \<longrightarrow> out1 = business_error junk s1)"
proof -
  define s0 where "s0 = s\<lparr>tl_last_native_error := 0, tl_last_error_msg := []\<rparr>"
  have blank: "errs s0 = (0, [])"
    by (simp add: s0_def errs_def)
  obtain ok2 h s2 where p: "db_prepare_and_bind driver cfg db_id ps s0 = (ok2, h, s2)"
    by (metis prod.exhaust)
  obtain ret w where e: "odbc_exec driver h q (world s2) = (ret, w)"
    by (cases "odbc_exec driver h q (world s2)")
  note run = assms [unfolded db_execute_and_fetch_def Let_def fst_conv snd_conv s0_def [symmetric] p prod.case]
  have r2: "reports driver ok2 s2"
    by (rule db_prepare_and_bind_reports [OF blank p])
  have "\<exists>out3 s3. reports driver False s3 \<and> (case check_error junk (out3, s3) of (ok, out, s) \<Rightarrow> Some (ok, out, db_cleanup_stmt driver h s)) =
      Some (False, out1, s1)"
  proof (cases ok2)
    case False
    with run r2 show ?thesis by auto
  next
    case True
    show ?thesis
    proof (cases "SQL_SUCCEEDED ret")
      case False
      moreover have "reports driver False (db_set_error driver db_id (Some h) ''Failed to execute SQLExecDirect'' ((touch h s2)\<lparr>world := w\<rparr>))"
        using r2 True by simp
      ultimately show ?thesis
        using run True e by auto
    next
      case ok: True
      obtain ok3 out3 s3 where c: "cb db_id h (out, (touch h s2)\<lparr>world := w\<rparr>) = Some (ok3, out3, s3)"
        using run e True ok by (auto split: option.splits)
      have "reports driver ok3 s3"
        using cb_reports [OF _ c] r2 True by simp
      then show ?thesis
        using run e True ok c by (cases ok3) auto
    qed
  qed
  then obtain out3 s3 where r: "reports driver False s3"
      "(case check_error junk (out3, s3) of (ok, out, s) \<Rightarrow> Some (ok, out, db_cleanup_stmt driver h s)) = Some (False, out1, s1)"
    by blast
  have s1: "s1 = db_cleanup_stmt driver h s3" "out1 = (if 50000 \<le> tl_last_native_error s3 then business_error junk s3 else out3)"
    using r(2) by (auto simp: check_error_def)
  then have "errs s1 = errs s3"
    by simp
  then show ?thesis
    using r(1) s1 business_error_errs [of s1 s3 junk] by (auto simp: errs_def)
qed

end

interpretation json_errors: reporting_fetcher "db_fetch_json_native fuel O' ind0" O'
  by unfold_locales (auto simp: db_fetch_json_native_def split: option.splits dest: json_rows_reports)

interpretation rs2json_errors: reporting_fetcher "db_fetch_rs2json fuel O' junk" O'
  by unfold_locales (auto simp: db_fetch_rs2json_def dest: fetch_resultset_reports)

interpretation jsonm_errors: reporting_fetcher "db_fetch_jsonm_native fuel O' junk" O'
  by unfold_locales
    (auto simp: db_fetch_jsonm_native_def split: option.splits prod.splits dest: jsonm_loop_reports num_result_cols_blank)


section \<open>The answer to an application error\<close>

text \<open>The JSON object for a diagnostic record.\<close>

definition error_object :: "diag_rec \<Rightarrow> string" where
  "error_object r = [CHR ''{''] @ json_string ''error-code'' @ '':'' @ dec_int (nativeError r) @ '','' @
     json_string ''description'' @ '':'' @ json_string (take 511 (clean_odbc_error_message (diag_msg r))) @ ''}''"

lemma business_error_object:
  assumes "errs s = report recs" "raised recs \<noteq> []" "nativeError (last (raised recs)) < 2 ^ 31"
  shows "50000 \<le> tl_last_native_error s" "business_error junk s = error_object (last (raised recs))"
proof -
  have e: "tl_last_native_error s = nativeError (last (raised recs))"
      "tl_last_error_msg s = take 511 (clean_odbc_error_message (diag_msg (last (raised recs))))"
    using assms(1,2) by (simp_all add: errs_def report_def)
  have "last (raised recs) \<in> set (raised recs)"
    using assms(2) by simp
  then show n: "50000 \<le> tl_last_native_error s"
    unfolding e(1) by (auto simp: raised_def)
  have "\<bar>tl_last_native_error s\<bar> < 10 ^ 10"
    using n assms(3) e(1) by simp
  then have "length (dec_int (tl_last_native_error s)) \<le> 11"
    using length_dec_int_le [of "tl_last_native_error s" 10] by simp
  then show "business_error junk s = error_object (last (raised recs))"
    by (simp add: business_error_def error_object_def Let_def snprintf_fits evbuffer_append_escaped json_string_def encode_char_def e)
qed

text \<open>A query whose statement the driver refuses.\<close>

lemma execute_refused:
  assumes "db_prepare_and_bind O' cfg db_id ps (s\<lparr>tl_last_native_error := 0, tl_last_error_msg := []\<rparr>) = (True, h, s2)"
    "odbc_exec O' h q (world s2) = (ret, w)" "\<not> SQL_SUCCEEDED ret" "\<forall>r \<in> set (odbc_diag O' (Some h) w). nativeError r < 2 ^ 31"
  shows "\<exists>s1. db_execute_and_fetch O' cfg junk db_id q ps cb (out, s) =
    Some (False, if raised (odbc_diag O' (Some h) w) = [] then out else error_object (last (raised (odbc_diag O' (Some h) w))), s1)"
proof -
  let ?recs = "odbc_diag O' (Some h) w"
  define s3 where "s3 = db_set_error O' db_id (Some h) ''Failed to execute SQLExecDirect'' ((touch h s2)\<lparr>world := w\<rparr>)"
  have "errs (s\<lparr>tl_last_native_error := 0, tl_last_error_msg := []\<rparr>) = (0, [])"
    by (simp add: errs_def)
  from db_prepare_and_bind_reports [OF this assms(1)] have e: "errs s3 = report ?recs"
    using errs_set_error [of "(touch h s2)\<lparr>world := w\<rparr>" O' db_id "Some h" "''Failed to execute SQLExecDirect''"]
    by (simp add: s3_def)
  have run: "db_execute_and_fetch O' cfg junk db_id q ps cb (out, s) =
      Some (False, if 50000 \<le> tl_last_native_error s3 then business_error junk s3 else out, db_cleanup_stmt O' h s3)"
    using assms(1-3) by (simp add: db_execute_and_fetch_def check_error_def s3_def Let_def)
  show ?thesis
  proof (cases "raised ?recs = []")
    case True
    then show ?thesis
      using e run by (simp add: report_def errs_def)
  next
    case False
    have "last (raised ?recs) \<in> set ?recs"
      using last_in_set [OF False] by (auto simp: raised_def)
    then show ?thesis
      using business_error_object [OF e False] assms(4) run False by simp
  qed
qed

lemma query_reports:
  assumes "query \<in> {db_get_json fuel O' cfg junk ind0, db_get_rs2json fuel O' cfg junk, db_get_rs2json_m fuel O' cfg junk}"
    "query db_id q ps (out, s) = Some (False, out1, s1)"
  shows "reports O' False s1 \<and> (50000 \<le> tl_last_native_error s1 \<longrightarrow> out1 = business_error junk s1)"
proof -
  consider "query = db_get_json fuel O' cfg junk ind0" | "query = db_get_rs2json fuel O' cfg junk" | "query = db_get_rs2json_m fuel O' cfg junk"
    using assms(1) by blast
  then show ?thesis
  proof cases
    case 1
    then show ?thesis
      using assms(2) json_errors.execute_reports by (simp only: db_get_json_def)
  next
    case 2
    then show ?thesis
      using assms(2) rs2json_errors.execute_reports by (simp only: db_get_rs2json_def)
  next
    case 3
    then show ?thesis
      using assms(2) jsonm_errors.execute_reports by (simp only: db_get_rs2json_m_def)
  qed
qed

text \<open>C34: Errors raised by the database application (native code 50000 or above) reach the client, and no others do. Whichever query
  fails, and whatever error an earlier query left behind, either no such error was recorded during this query, or the
  answer is exactly one JSON object for a record of the driver's diagnostics: the last one with such a code, with this code
  and with the message as an escaped string, without the bracketed driver prefixes and cut to 511 bytes; nothing of a
  partially written result is left. In particular, when the driver refuses to execute the statement, the answer is this
  object for the diagnostics of that moment, or the output is unchanged if they contain no such error. Native codes are
  32-bit numbers.\<close>

theorem db_business_error:
  assumes "\<forall>handle w. \<forall>r \<in> set (odbc_diag O' handle w). nativeError r < 2 ^ 31"
    "query \<in> {db_get_json fuel O' cfg junk ind0, db_get_rs2json fuel O' cfg junk, db_get_rs2json_m fuel O' cfg junk}"
  shows "(\<forall>out1 s1. query db_id q ps (out, s) = Some (False, out1, s1) \<longrightarrow>
      tl_last_native_error s1 = 0 \<or>
      (\<exists>handle w. raised (odbc_diag O' handle w) \<noteq> [] \<and> out1 = error_object (last (raised (odbc_diag O' handle w))))) \<and>
    (\<forall>h s2 ret w. db_prepare_and_bind O' cfg db_id ps (s\<lparr>tl_last_native_error := 0, tl_last_error_msg := []\<rparr>) = (True, h, s2) \<and>
      odbc_exec O' h q (world s2) = (ret, w) \<and> \<not> SQL_SUCCEEDED ret \<longrightarrow>
      (\<exists>s1. query db_id q ps (out, s) =
         Some (False, if raised (odbc_diag O' (Some h) w) = [] then out else error_object (last (raised (odbc_diag O' (Some h) w))), s1)))"
proof (intro conjI allI impI)
  fix out1 s1 assume "query db_id q ps (out, s) = Some (False, out1, s1)"
  then have r: "reports O' False s1 \<and> (50000 \<le> tl_last_native_error s1 \<longrightarrow> out1 = business_error junk s1)"
    by (rule query_reports [OF assms(2)])
  show "tl_last_native_error s1 = 0 \<or>
      (\<exists>handle w. raised (odbc_diag O' handle w) \<noteq> [] \<and> out1 = error_object (last (raised (odbc_diag O' handle w))))"
  proof (cases "errs s1 = (0, [])")
    case False
    then obtain handle w where e: "errs s1 = report (odbc_diag O' handle w)" "raised (odbc_diag O' handle w) \<noteq> []"
      using r by (auto simp: reports_def report_def split: if_splits)
    have "last (raised (odbc_diag O' handle w)) \<in> set (odbc_diag O' handle w)"
      using last_in_set [OF e(2)] by (auto simp: raised_def)
    then show ?thesis
      using business_error_object [OF e] assms(1) r e(2) by auto
  qed (simp add: errs_def)
next
  fix h s2 ret w
  assume "db_prepare_and_bind O' cfg db_id ps (s\<lparr>tl_last_native_error := 0, tl_last_error_msg := []\<rparr>) = (True, h, s2) \<and>
    odbc_exec O' h q (world s2) = (ret, w) \<and> \<not> SQL_SUCCEEDED ret"
  then show "\<exists>s1. query db_id q ps (out, s) =
      Some (False, if raised (odbc_diag O' (Some h) w) = [] then out else error_object (last (raised (odbc_diag O' (Some h) w))), s1)"
    using execute_refused [of O' cfg db_id ps s h s2 q ret w junk _ out] assms
    by (auto simp: db_get_json_def db_get_rs2json_def db_get_rs2json_m_def)
qed

definition out_of_stock :: diag_rec where
  "out_of_stock = \<lparr>sqlState = ''42000'', nativeError = 51000, diag_msg = ''[ODBC][SQL Server] No stock''\<rparr>"

text \<open>A driver that refuses every statement.\<close>

definition refusing_odbc :: "(cell \<times> int) list list odbc" where
  "refusing_odbc = (sample_odbc [out_of_stock])\<lparr>odbc_exec := (\<lambda>_ _ w. (SQL_FAIL (- 1), w))\<rparr>"

theorem db_business_error_witness:
  "\<exists>s1. db_get_json 5 refusing_odbc sample_cfg (CHR ''?'') 0 0 ''q'' [] (''old'', sample_db\<lparr>tl_last_native_error := 60000\<rparr>) =
     Some (False, [CHR ''{''] @ json_string ''error-code'' @ '':51000,'' @ json_string ''description'' @ '':'' @ json_string ''No stock'' @ ''}'', s1)"
proof -
  have c: "clean_odbc_error_message ''[ODBC][SQL Server] No stock'' = ''No stock''"
    by (simp add: clean_odbc_error_message.simps)
  have "digit 5 = CHR ''5''" "digit 1 = CHR ''1''" "digit 0 = CHR ''0''"
    by code_simp+
  then have d: "dec_int 51000 = ''51000''"
    by (simp add: dec_int_def dec_snoc dec_small)
  have e: "error_object out_of_stock =
      [CHR ''{''] @ json_string ''error-code'' @ '':51000,'' @ json_string ''description'' @ '':'' @ json_string ''No stock'' @ ''}''"
    by (simp add: error_object_def out_of_stock_def c d)
  have r: "odbc_diag refusing_odbc hd w = [out_of_stock]" "odbc_exec refusing_odbc h q w = (SQL_FAIL (- 1), w)"
      "raised [out_of_stock] = [out_of_stock]" "nativeError out_of_stock = 51000" for hd w h q
    by (simp_all add: refusing_odbc_def sample_odbc_def raised_def out_of_stock_def)
  obtain h s2 where p: "db_prepare_and_bind refusing_odbc sample_cfg 0 [] (sample_db\<lparr>tl_last_native_error := 0, tl_last_error_msg := []\<rparr>) = (True, h, s2)"
    by (simp add: db_prepare_and_bind_def db_connect_def db_alloc_stmt_def refusing_odbc_def sample_odbc_def sample_cfg_def sample_db_def
        config_get_odbc_conn_str_def initial_config_def MAX_DB_CONNECTIONS_def SQL_SUCCEEDED_def touch_def on_handle_def Let_def)
  show ?thesis
    using db_business_error [of refusing_odbc "db_get_json 5 refusing_odbc sample_cfg (CHR ''?'') 0" 5 sample_cfg "CHR ''?''" 0 0 "''q''" "[]" "''old''"
        "sample_db\<lparr>tl_last_native_error := 60000\<rparr>"] p
    by (simp add: r e SQL_SUCCEEDED_def)
qed

end
