(* ===== verification/Customer.thy ===== *)
theory Customer
  imports HttpClient Jwt
begin

text \<open>
  Model of \<open>src/customer.c\<close>: the client of the remote customer service and the token cache the worker threads share.

  The mutex makes the parts of \<open>login_and_get_token\<close> under it atomic: \<open>enter_section\<close> up to the first unlock or wait, and
  \<open>finish_section\<close> after the login request. A call of one thread is modelled with a schedule: the readings of the clock
  and what the other threads have done to the shared state each time the thread gets the mutex. The interleaving of any
  number of threads is the transition system \<open>jwt_step\<close>.
\<close>

section \<open>State\<close>

record jwt_cache =
  cache_token :: cstring
  expires_at :: int
  last_failed_auth :: int

definition TOKEN_SIZE :: nat where
  "TOKEN_SIZE = 1024"

text \<open>The static variables: the cache and the flag of a login request in progress.\<close>

record jwt_state = jwt_cache +
  jwt_is_refreshing :: bool

definition initial_jwt_state :: jwt_state where
  "initial_jwt_state = \<lparr>cache_token = [], expires_at = 0, last_failed_auth = 0, jwt_is_refreshing = False\<rparr>"

text \<open>The libraries and the settings the code uses.\<close>

record 'j client_libs =
  cl_json :: "'j json_c"
  cl_sodium :: sodium
  cl_parse :: "cstring \<Rightarrow> 'j option"
  cl_curl :: "curl_opt list \<Rightarrow> transfer"
  cl_env :: http_env
  cl_cfg :: config


section \<open>The login request\<close>

definition credentials_text :: "string \<Rightarrow> string \<Rightarrow> string" where
  "credentials_text escaped_user escaped_pass =
     ''{'' @ json_member ''username'' (json_quote escaped_user) @ '','' @ json_member ''password'' (json_quote escaped_pass) @ ''}''"

text \<open>A C string escaped into a buffer of the given size.\<close>

definition escaped :: "cstring_ptr \<Rightarrow> nat \<Rightarrow> cstring" where
  "escaped src n = (case json_encode_string src (Some []) n of Some s \<Rightarrow> s | None \<Rightarrow> [])"

text \<open>The response, or \<open>None\<close> when the request failed, and the thread error.\<close>

definition execute_login_request :: "'j client_libs \<Rightarrow> thread_error \<Rightarrow> ('j option \<times> thread_error) option" where
  "execute_login_request L err =
     (let size = JSON_ENCODE_BUFSIZE MAX_CONFIG_STR;
          body_str = credentials_text (escaped (Some (g_api_user (cl_cfg L))) size) (escaped (Some (g_api_pass (cl_cfg L))) size)
      in if length body_str \<ge> size * 2 + 128
         then Some (None, set_thread_error TL_ERR_ERROR ''Login payload truncated'' err)
         else
           (case http_client_post_json (cl_parse L) (cl_curl L) (cl_env L) (Some (g_api_url (cl_cfg L))) (Some ''/api/login'')
                   (Some body_str) [''Content-Type: application/json''] 0 err of
              None \<Rightarrow> None
            | Some (login_response, http_code, err1) \<Rightarrow>
                Some (if http_code \<noteq> 200 then None else login_response, err1)))"

definition update_jwt_cache ::
  "'j client_libs \<Rightarrow> int \<Rightarrow> 'j \<Rightarrow> 'y jwt_cache_scheme \<times> thread_error \<Rightarrow> 'y jwt_cache_scheme \<times> thread_error"
where
  "update_jwt_cache L now login_response s =
     (let (cache, err) = s
      in case json_object_object_get_ex (cl_json L) (Some login_response) ''id_token'' of
           None \<Rightarrow> s
         | Some token_obj \<Rightarrow>
             (case json_object_get_string (cl_json L) token_obj of
                None \<Rightarrow> s
              | Some id_token \<Rightarrow>
                  (if length id_token \<ge> TOKEN_SIZE
                   then (cache, set_thread_error TL_ERR_ERROR (''Remote token exceeds '' @ dec (TOKEN_SIZE - 1) @ '' bytes'') err)
                   else
                     (let expires = jwt_get_expiration (cl_sodium L) (cl_json L) (cl_parse L) id_token
                      in (cache\<lparr>cache_token := snprintf id_token TOKEN_SIZE,
                                expires_at := (if expires > 0 then expires else now + 180)\<rparr>, err)))))"

text \<open>The string in the caller's buffer of \<open>max_len\<close> bytes.\<close>

definition copy_token_safely :: "cstring \<Rightarrow> nat \<Rightarrow> cstring \<Rightarrow> cstring" where
  "copy_token_safely out_token max_len src_token = (if max_len = 0 then out_token else take (max_len - 1) src_token)"


section \<open>Getting a token\<close>

text \<open>How a turn of the loop under the mutex ends.\<close>

datatype entry = Cached | Must_wait | Backoff | Refresh

definition enter_section :: "int \<Rightarrow> jwt_state \<Rightarrow> entry \<times> jwt_state" where
  "enter_section now j =
     (if cache_token j \<noteq> [] \<and> now < expires_at j then (Cached, j)
      else if jwt_is_refreshing j then (Must_wait, j)
      else if now < last_failed_auth j + 5 then (Backoff, j)
      else (Refresh, j\<lparr>jwt_is_refreshing := True\<rparr>))"

text \<open>Storing the outcome of the login request and reading the cache; \<open>now\<close> is the time of that moment.\<close>

definition finish_section ::
  "'j client_libs \<Rightarrow> int \<Rightarrow> nat \<Rightarrow> cstring \<Rightarrow> 'j option \<Rightarrow> jwt_state \<times> thread_error \<Rightarrow> bool \<times> cstring \<times> jwt_state \<times> thread_error"
where
  "finish_section L now max_len out_token login_response s =
     (let (j1, err1) = (case login_response of
            Some r \<Rightarrow> (case update_jwt_cache L now r ((fst s)\<lparr>cache_token := []\<rparr>, snd s) of
                         (j, err) \<Rightarrow> (j\<lparr>last_failed_auth := 0\<rparr>, err))
          | None \<Rightarrow> ((fst s)\<lparr>last_failed_auth := now\<rparr>, snd s));
          j2 = j1\<lparr>jwt_is_refreshing := False\<rparr>
      in if cache_token j2 \<noteq> [] then (True, copy_token_safely out_token max_len (cache_token j2), j2, err1)
         else (False, out_token, j2, err1))"

text \<open>
  The schedule of a call: for each turn of the loop the time and what other threads did before it, then the same for the
  end of the login request and for the invalidation after a refused token.
\<close>

record schedule =
  sc_turns :: "(int \<times> (jwt_state \<Rightarrow> jwt_state)) list"
  sc_finish :: "int \<times> (jwt_state \<Rightarrow> jwt_state)"
  sc_refused :: "jwt_state \<Rightarrow> jwt_state"

text \<open>The loop; \<open>None\<close> when the thread still waits at the end of the schedule.\<close>

fun await_token :: "(int \<times> (jwt_state \<Rightarrow> jwt_state)) list \<Rightarrow> jwt_state \<Rightarrow> (entry \<times> jwt_state) option" where
  "await_token [] j = None"
| "await_token ((now, others) # turns) j =
     (case enter_section now (others j) of
        (Must_wait, j1) \<Rightarrow> await_token turns j1
      | r \<Rightarrow> Some r)"

definition login_and_get_token ::
  "'j client_libs \<Rightarrow> schedule \<Rightarrow> cstring \<Rightarrow> nat \<Rightarrow> jwt_state \<times> thread_error \<Rightarrow> (bool \<times> cstring \<times> jwt_state \<times> thread_error) option"
where
  "login_and_get_token L sc out_token max_len s =
     (case await_token (sc_turns sc) (fst s) of
        None \<Rightarrow> None
      | Some (Cached, j) \<Rightarrow> Some (True, copy_token_safely out_token max_len (cache_token j), j, snd s)
      | Some (Backoff, j) \<Rightarrow> Some (False, out_token, j, snd s)
      | Some (_, j) \<Rightarrow>
          (let err1 = set_thread_error TL_ERR_WARN
                 ''[customer] JWT cache miss (token missing or expired). Requesting a fresh token...'' (snd s)
           in map_option
                (\<lambda>(login_response, err2).
                   finish_section L (fst (sc_finish sc)) max_len out_token login_response (snd (sc_finish sc) j, err2))
                (execute_login_request L err1)))"

text \<open>
  The response of the service, the HTTP code in the caller's variable and the state. The callers pass a variable for the
  code. \<open>junk\<close> is what the token buffer on the stack holds before.
\<close>

definition customer_service_get_info ::
  "'j client_libs \<Rightarrow> schedule \<Rightarrow> cstring \<Rightarrow> cstring_ptr \<Rightarrow> int \<Rightarrow> jwt_state \<times> thread_error \<Rightarrow>
     ('j option \<times> int \<times> jwt_state \<times> thread_error) option"
where
  "customer_service_get_info L sc junk customer_id http_code s =
     (case login_and_get_token L sc junk 1024 s of
        None \<Rightarrow> None
      | Some (False, _, s1) \<Rightarrow> Some (None, 401, s1)
      | Some (True, token, j1, err1) \<Rightarrow>
          (let escaped_id = escaped (Some (case customer_id of Some c \<Rightarrow> c | None \<Rightarrow> [])) (JSON_ENCODE_BUFSIZE 64);
               body = ''{'' @ json_member ''id'' (json_quote escaped_id) @ ''}''
           in if length body \<ge> JSON_ENCODE_BUFSIZE 64 + 32 then Some (None, 500, j1, err1)
              else
                (let auth_header = snprintf (''Authorization: Bearer '' @ token) 1100
                 in case http_client_post_json (cl_parse L) (cl_curl L) (cl_env L) (Some (g_api_url (cl_cfg L)))
                           (Some ''/api/customer'') (Some body) [auth_header, ''Content-Type: application/json''] http_code err1 of
                      None \<Rightarrow> None
                    | Some (remote_response, code, err2) \<Rightarrow>
                        Some (remote_response, code,
                          if code = 401 then (sc_refused sc j1)\<lparr>cache_token := []\<rparr> else j1, err2))))"


section \<open>The sections\<close>

lemma enter_section_cases:
  assumes "enter_section now j = (e, j')"
  shows "e = Refresh \<Longrightarrow> \<not> jwt_is_refreshing j \<and> j' = j\<lparr>jwt_is_refreshing := True\<rparr> \<and> last_failed_auth j + 5 \<le> now"
    "e \<noteq> Refresh \<Longrightarrow> j' = j" "e = Must_wait \<Longrightarrow> jwt_is_refreshing j" "e = Cached \<Longrightarrow> cache_token j \<noteq> [] \<and> now < expires_at j"
  using assms by (auto simp: enter_section_def split: if_splits)

lemma update_jwt_cache_bound:
  assumes "update_jwt_cache L now r (c, err) = (c', err')" "length (cache_token c) < TOKEN_SIZE"
  shows "length (cache_token c') < TOKEN_SIZE"
  using assms
  by (auto simp: update_jwt_cache_def Let_def snprintf_fits TOKEN_SIZE_def split: option.splits if_splits)

lemma copy_token_fits: "length t < TOKEN_SIZE \<Longrightarrow> copy_token_safely out TOKEN_SIZE t = t"
  by (simp add: copy_token_safely_def TOKEN_SIZE_def)

lemma finish_section_inv:
  assumes "finish_section L now TOKEN_SIZE out r (j, err) = (ok, tok, j', err')" "length (cache_token j) < TOKEN_SIZE"
  shows "\<not> jwt_is_refreshing j'" "length (cache_token j') < TOKEN_SIZE" "ok \<longleftrightarrow> cache_token j' \<noteq> []" "ok \<Longrightarrow> tok = cache_token j'"
proof -
  obtain j1 err1 where u: "(case r of Some r \<Rightarrow> (case update_jwt_cache L now r (j\<lparr>cache_token := []\<rparr>, err) of
      (j, err) \<Rightarrow> (j\<lparr>last_failed_auth := 0\<rparr>, err)) | None \<Rightarrow> (j\<lparr>last_failed_auth := now\<rparr>, err)) = (j1, err1)"
    by (metis prod.exhaust)
  have "length (cache_token j1) < TOKEN_SIZE"
    using u assms(2) update_jwt_cache_bound [where c = "j\<lparr>cache_token := []\<rparr>"]
    by (fastforce simp: TOKEN_SIZE_def split: option.splits prod.splits)
  then show "\<not> jwt_is_refreshing j'" "length (cache_token j') < TOKEN_SIZE" "ok \<longleftrightarrow> cache_token j' \<noteq> []" "ok \<Longrightarrow> tok = cache_token j'"
    using assms(1) unfolding finish_section_def fst_conv snd_conv u by (auto simp: Let_def copy_token_fits split: if_splits)
qed


section \<open>Any number of threads\<close>

text \<open>Where a thread is in \<open>login_and_get_token\<close>: at the head of the loop, in \<open>pthread_cond_wait\<close>, in the login request, or done.\<close>

datatype caller = Outside | Ready | Asleep | Requesting | Returned "cstring option"

record jwt_system =
  sys_jwt :: jwt_state
  sys_pc :: "nat \<Rightarrow> caller"
  sys_clock :: int

definition after_entry :: "entry \<Rightarrow> jwt_state \<Rightarrow> caller" where
  "after_entry e j =
     (case e of
        Cached \<Rightarrow> Returned (Some (copy_token_safely [] TOKEN_SIZE (cache_token j)))
      | Must_wait \<Rightarrow> Asleep
      | Backoff \<Rightarrow> Returned None
      | Refresh \<Rightarrow> Requesting)"

text \<open>\<open>pthread_cond_broadcast\<close>\<close>

definition broadcast :: "caller \<Rightarrow> caller" where
  "broadcast p = (if p = Asleep then Ready else p)"

inductive jwt_step :: "'j client_libs \<Rightarrow> jwt_system \<Rightarrow> jwt_system \<Rightarrow> bool" for L where
  jwt_call: "sys_pc s i = Outside \<Longrightarrow> jwt_step L s (s\<lparr>sys_pc := (sys_pc s)(i := Ready)\<rparr>)"
| jwt_enter: "sys_pc s i = Ready \<Longrightarrow> enter_section (sys_clock s) (sys_jwt s) = (e, j) \<Longrightarrow>
    jwt_step L s (s\<lparr>sys_jwt := j, sys_pc := (sys_pc s)(i := after_entry e j)\<rparr>)"
| jwt_finish: "sys_pc s i = Requesting \<Longrightarrow>
    finish_section L (sys_clock s) TOKEN_SIZE [] login_response (sys_jwt s, err) = (ok, tok, j, err1) \<Longrightarrow>
    jwt_step L s (s\<lparr>sys_jwt := j, sys_pc := (broadcast \<circ> sys_pc s)(i := Returned (if ok then Some tok else None))\<rparr>)"
| jwt_spurious: "sys_pc s i = Asleep \<Longrightarrow> jwt_step L s (s\<lparr>sys_pc := (sys_pc s)(i := Ready)\<rparr>)"
| jwt_refused: "sys_pc s i = Returned (Some tok) \<Longrightarrow>
    jwt_step L s (s\<lparr>sys_jwt := (sys_jwt s)\<lparr>cache_token := []\<rparr>, sys_pc := (sys_pc s)(i := Outside)\<rparr>)"
| jwt_leave: "sys_pc s i = Returned r \<Longrightarrow> jwt_step L s (s\<lparr>sys_pc := (sys_pc s)(i := Outside)\<rparr>)"
| jwt_tick: "sys_clock s \<le> now \<Longrightarrow> jwt_step L s (s\<lparr>sys_clock := now\<rparr>)"

definition jwt_start :: "jwt_system \<Rightarrow> bool" where
  "jwt_start s \<longleftrightarrow> sys_jwt s = initial_jwt_state \<and> sys_pc s = (\<lambda>_. Outside)"

definition jwt_inv :: "jwt_system \<Rightarrow> bool" where
  "jwt_inv s \<longleftrightarrow>
     (\<forall>i k. sys_pc s i = Requesting \<longrightarrow> sys_pc s k = Requesting \<longrightarrow> i = k) \<and>
     (jwt_is_refreshing (sys_jwt s) \<longleftrightarrow> (\<exists>i. sys_pc s i = Requesting)) \<and>
     (\<forall>i. sys_pc s i = Asleep \<longrightarrow> jwt_is_refreshing (sys_jwt s)) \<and>
     length (cache_token (sys_jwt s)) < TOKEN_SIZE \<and>
     (\<forall>i tok. sys_pc s i = Returned (Some tok) \<longrightarrow> tok \<noteq> [] \<and> length tok < TOKEN_SIZE)"

lemma jwt_inv_move:
  assumes "jwt_inv s" "sys_pc s i \<noteq> Requesting" "p \<noteq> Requesting" "p = Asleep \<Longrightarrow> jwt_is_refreshing (sys_jwt s)"
    "\<And>tok. p = Returned (Some tok) \<Longrightarrow> tok \<noteq> [] \<and> length tok < TOKEN_SIZE"
  shows "jwt_inv (s\<lparr>sys_pc := (sys_pc s)(i := p)\<rparr>)"
proof -
  define f where "f = (sys_pc s)(i := p)"
  have "f k = Requesting \<longleftrightarrow> sys_pc s k = Requesting" for k
    using assms(2,3) by (simp add: f_def)
  moreover have "f k = Asleep \<Longrightarrow> jwt_is_refreshing (sys_jwt s)" for k
    using assms(1,4) by (auto simp: f_def jwt_inv_def split: if_splits)
  moreover have "f k = Returned (Some tok) \<Longrightarrow> tok \<noteq> [] \<and> length tok < TOKEN_SIZE" for k tok
    using assms(1,5) by (auto simp: f_def jwt_inv_def split: if_splits)
  ultimately show ?thesis
    using assms(1) unfolding f_def [symmetric] by (simp add: jwt_inv_def)
qed

lemma jwt_inv_enter:
  assumes "jwt_inv s" "sys_pc s i = Ready" "enter_section (sys_clock s) (sys_jwt s) = (e, j)"
  shows "jwt_inv (s\<lparr>sys_jwt := j, sys_pc := (sys_pc s)(i := after_entry e j)\<rparr>)"
proof (cases "e = Refresh")
  case True
  with assms enter_section_cases(1) [OF assms(3)] show ?thesis
    by (auto simp: jwt_inv_def after_entry_def)
next
  case False
  note e = enter_section_cases [OF assms(3)]
  have "jwt_inv (s\<lparr>sys_pc := (sys_pc s)(i := after_entry e (sys_jwt s))\<rparr>)"
    using assms(1,2) e False
    by (intro jwt_inv_move) (auto simp: after_entry_def copy_token_fits jwt_inv_def split: entry.splits)
  moreover have "s\<lparr>sys_jwt := j, sys_pc := f\<rparr> = s\<lparr>sys_pc := f\<rparr>" for f
    using e(2) [OF False] by simp
  ultimately show ?thesis
    using e(2) [OF False] by simp
qed

lemma jwt_inv_finish:
  assumes "jwt_inv s" "sys_pc s i = Requesting"
    "finish_section L (sys_clock s) TOKEN_SIZE [] r (sys_jwt s, err) = (ok, tok, j, err1)"
  shows "jwt_inv (s\<lparr>sys_jwt := j, sys_pc := (broadcast \<circ> sys_pc s)(i := Returned (if ok then Some tok else None))\<rparr>)"
  using assms finish_section_inv [OF assms(3)] unfolding jwt_inv_def by (auto simp: broadcast_def split: if_splits)

lemma jwt_inv_drop: "jwt_inv s \<Longrightarrow> jwt_inv (s\<lparr>sys_jwt := (sys_jwt s)\<lparr>cache_token := []\<rparr>\<rparr>)"
  by (simp add: jwt_inv_def TOKEN_SIZE_def) blast

lemma jwt_inv_outside:
  "jwt_inv s \<Longrightarrow> sys_pc s i \<noteq> Requesting \<Longrightarrow> p = Outside \<or> p = Ready \<Longrightarrow> jwt_inv (s\<lparr>sys_pc := (sys_pc s)(i := p)\<rparr>)"
  by (rule jwt_inv_move) auto

lemma jwt_step_inv: "jwt_step L s t \<Longrightarrow> jwt_inv s \<Longrightarrow> jwt_inv t"
proof (induction rule: jwt_step.induct)
  case (jwt_refused s i tok)
  then show ?case
    using jwt_inv_outside [OF jwt_inv_drop, of s i Outside] by simp
next
  case (jwt_enter s i e j)
  then show ?case using jwt_inv_enter by blast
next
  case (jwt_finish s i r err ok tok j err1)
  then show ?case using jwt_inv_finish by blast
next
  case (jwt_tick s now)
  then show ?case by (simp add: jwt_inv_def) blast
qed (rule jwt_inv_outside; simp)+

interpretation jwt_threads: invariant_system jwt_start "jwt_step L" jwt_inv
proof unfold_locales
  show "jwt_start s \<Longrightarrow> jwt_inv s" for s
    by (simp add: jwt_start_def jwt_inv_def initial_jwt_state_def TOKEN_SIZE_def)
qed (rule jwt_step_inv)


section \<open>Properties\<close>

text \<open>A client whose service answers every request as given.\<close>

definition sample_env :: http_env where
  "sample_env = \<lparr>he_max_payload = 5242880, he_curl = True, he_chunk = True, he_headers = True, he_realloc = (\<lambda>_. True), he_junk = CHR ''?''\<rparr>"

definition sample_client :: "jvalue \<Rightarrow> transfer \<Rightarrow> jvalue client_libs" where
  "sample_client v t = \<lparr>cl_json = ref_json, cl_sodium = ref_sodium, cl_parse = (\<lambda>_. Some v), cl_curl = (\<lambda>_. t),
     cl_env = sample_env, cl_cfg = initial_config\<rparr>"

definition no_connection :: transfer where
  "no_connection = \<lparr>tr_blocks = [], tr_result = 7, tr_http_code = 0, tr_strerror = ''Could not connect'', tr_errbuf = []\<rparr>"

definition answer :: transfer where
  "answer = \<lparr>tr_blocks = [''{...}''], tr_result = 0, tr_http_code = 200, tr_strerror = [], tr_errbuf = []\<rparr>"

lemma sample_login:
  "execute_login_request (sample_client v answer) err = Some (Some v, err)"
  "\<exists>err1. execute_login_request (sample_client v no_connection) err = Some (None, err1)"
proof -
  have e: "escaped (Some []) (JSON_ENCODE_BUFSIZE MAX_CONFIG_STR) = []"
    by (simp add: escaped_def json_encode_string_def JSON_ENCODE_BUFSIZE_def)
  have l: "length (credentials_text [] []) = 29"
    by (simp add: credentials_text_def json_member_def json_quote_def)
  have u: "build_request_url (Some []) (Some ''/api/login'') 1024 = Some ''/api/login''"
    by (simp add: build_request_url_def)
  have "do_http_request (\<lambda>_. Some v) (\<lambda>_. answer) sample_env (Some []) (Some ''/api/login'') (Some (credentials_text [] []))
      [''Content-Type: application/json''] 0 err = Some (Some v, tr_http_code answer, err)"
    by (rule do_http_request_ok [OF _ _ _ _ _ u refl, where bytes = "''{...}''"]) (simp_all add: sample_env_def answer_def)
  then show "execute_login_request (sample_client v answer) err = Some (Some v, err)"
    by (simp add: execute_login_request_def http_client_post_json_def sample_client_def initial_config_def e l answer_def)
  show "\<exists>err1. execute_login_request (sample_client v no_connection) err = Some (None, err1)"
    by (simp add: execute_login_request_def http_client_post_json_def sample_client_def initial_config_def e l no_connection_def
        do_http_request_def http_client_post_raw_def perform_http_request_def u setup_curl_request_def sample_env_def Let_def)
qed

text \<open>C14: The token cache is single-flight in every interleaving of worker threads, with spurious wakeups, invalidations and any answers
  of the login service: at most one login request is in progress, exactly while the flag is set; a thread sleeps only
  while one is, and the end of that request wakes every sleeper; tokens handed out are not empty and fit the buffers.\<close>

theorem token_single_flight:
  assumes "reach jwt_start (jwt_step L) s"
  shows "(\<forall>i k. sys_pc s i = Requesting \<and> sys_pc s k = Requesting \<longrightarrow> i = k) \<and>
    (jwt_is_refreshing (sys_jwt s) \<longleftrightarrow> (\<exists>i. sys_pc s i = Requesting)) \<and>
    (\<forall>i. sys_pc s i = Asleep \<longrightarrow> (\<exists>k. sys_pc s k = Requesting \<and>
       (\<forall>r err ok tok j err1. finish_section L (sys_clock s) TOKEN_SIZE [] r (sys_jwt s, err) = (ok, tok, j, err1) \<longrightarrow>
          (\<exists>s'. jwt_step L s s' \<and> sys_jwt s' = j \<and> (\<forall>i. sys_pc s' i \<noteq> Asleep))))) \<and>
    (\<forall>i tok. sys_pc s i = Returned (Some tok) \<longrightarrow> tok \<noteq> [] \<and> length tok < TOKEN_SIZE)"
proof -
  note inv = jwt_threads.reach_inv [OF assms, unfolded jwt_inv_def]
  have "\<exists>s'. jwt_step L s s' \<and> sys_jwt s' = j \<and> (\<forall>i. sys_pc s' i \<noteq> Asleep)"
    if "sys_pc s k = Requesting" "finish_section L (sys_clock s) TOKEN_SIZE [] r (sys_jwt s, err) = (ok, tok, j, err1)"
    for k r err ok tok j err1
    by (rule exI, rule conjI, rule jwt_finish [OF that]) (simp add: broadcast_def)
  then show ?thesis
    using inv by blast
qed

theorem token_single_flight_witness:
  "\<exists>s. reach jwt_start (jwt_step (sample_client (JObject []) no_connection)) s \<and> sys_pc s 0 = Requesting \<and> sys_pc s 1 = Asleep \<and>
    (\<forall>i. sys_pc s i = Requesting \<longrightarrow> i = 0)"
proof -
  let ?L = "sample_client (JObject []) no_connection"
  define s0 where "s0 = \<lparr>sys_jwt = initial_jwt_state, sys_pc = (\<lambda>_. Outside), sys_clock = 100\<rparr>"
  define s1 where "s1 = s0\<lparr>sys_pc := (\<lambda>_. Outside)(0 := Ready)\<rparr>"
  define s2 where "s2 = s1\<lparr>sys_jwt := initial_jwt_state\<lparr>jwt_is_refreshing := True\<rparr>, sys_pc := (\<lambda>_. Outside)(0 := Requesting)\<rparr>"
  define s3 where "s3 = s2\<lparr>sys_pc := (sys_pc s2)(1 := Ready)\<rparr>"
  define s4 where "s4 = s3\<lparr>sys_pc := (sys_pc s3)(1 := Asleep)\<rparr>"
  have "jwt_start s0" by (simp add: jwt_start_def s0_def)
  moreover have "jwt_step ?L s0 s1"
    using jwt_call [of s0 0 ?L] by (simp add: s1_def s0_def)
  moreover have "jwt_step ?L s1 s2"
    using jwt_enter [of s1 0 Refresh "initial_jwt_state\<lparr>jwt_is_refreshing := True\<rparr>" ?L]
    by (simp add: s2_def s1_def s0_def enter_section_def initial_jwt_state_def after_entry_def)
  moreover have "jwt_step ?L s2 s3"
    using jwt_call [of s2 1 ?L] by (simp add: s3_def s2_def)
  moreover have "jwt_step ?L s3 s4"
    using jwt_enter [of s3 1 Must_wait "sys_jwt s3" ?L]
    by (simp add: s4_def s3_def s2_def enter_section_def initial_jwt_state_def after_entry_def)
  ultimately have r: "reach jwt_start (jwt_step ?L) s4"
    by (meson reach.intros)
  have pc: "sys_pc s4 0 = Requesting" "sys_pc s4 1 = Asleep"
    by (simp_all add: s4_def s3_def s2_def)
  then have "\<forall>i. sys_pc s4 i = Requesting \<longrightarrow> i = 0"
    using token_single_flight [OF r, THEN conjunct1] by blast
  with r pc show ?thesis by blast
qed

text \<open>
  What a call does that finds no usable token and no login request in progress.
\<close>

definition miss :: "int \<Rightarrow> jwt_state \<Rightarrow> bool" where
  "miss now j \<longleftrightarrow> (cache_token j = [] \<or> expires_at j \<le> now) \<and> \<not> jwt_is_refreshing j \<and> last_failed_auth j + 5 \<le> now"

definition alone :: "int \<Rightarrow> int \<Rightarrow> schedule" where
  "alone now later = \<lparr>sc_turns = [(now, id)], sc_finish = (later, id), sc_refused = id\<rparr>"

definition miss_warning :: "thread_error \<Rightarrow> thread_error" where
  "miss_warning err = set_thread_error TL_ERR_WARN
     ''[customer] JWT cache miss (token missing or expired). Requesting a fresh token...'' err"

lemma login_on_miss:
  assumes "miss now j" "execute_login_request L (miss_warning err) = Some (r, err2)"
  shows "login_and_get_token L (alone now later) out 1024 (j, err) =
    Some (finish_section L later 1024 out r (j\<lparr>jwt_is_refreshing := True\<rparr>, err2))"
proof -
  have "enter_section now j = (Refresh, j\<lparr>jwt_is_refreshing := True\<rparr>)"
    using assms(1) by (auto simp: miss_def enter_section_def)
  then show ?thesis
    using assms(2) by (simp add: login_and_get_token_def alone_def miss_warning_def Let_def)
qed

text \<open>C35: When a call comes to request a login, after any waiting and whatever the other threads do meanwhile, and the service delivers a
  token of 1 to 1023 bytes, then this token replaces whatever the cache held, the call returns exactly this token, and the
  waiting threads are let in. Every later call in which a thread gets the mutex before the expiry time (the token's own
  \<open>exp\<close> claim, or 180 seconds after the login if it has none) returns this token without another request, with any
  service, provided that no other thread has replaced or invalidated the cached token in between.\<close>

theorem fresh_token_cached:
  assumes "await_token (sc_turns sc) j = Some (Refresh, j0)" "execute_login_request L (miss_warning err) = Some (Some r, err2)"
    "json_object_object_get_ex (cl_json L) (Some r) ''id_token'' = Some v" "json_object_get_string (cl_json L) v = Some tok"
    "tok \<noteq> []" "length tok < 1024"
    "e = jwt_get_expiration (cl_sodium L) (cl_json L) (cl_parse L) tok"
  shows "\<exists>j1. login_and_get_token L sc out 1024 (j, err) = Some (True, tok, j1, err2) \<and> \<not> jwt_is_refreshing j1 \<and>
    cache_token j1 = tok \<and> expires_at j1 = (if e > 0 then e else fst (sc_finish sc) + 180) \<and>
    (\<forall>L' :: 'k client_libs. \<forall>sc' now' others turns out' err'. sc_turns sc' = (now', others) # turns \<and> now' < expires_at j1 \<and>
       cache_token (others j1) = tok \<and> expires_at (others j1) = expires_at j1 \<longrightarrow>
       login_and_get_token L' sc' out' 1024 (j1, err') = Some (True, tok, others j1, err'))"
proof -
  have fit: "\<not> 1024 \<le> length tok" "copy_token_safely x 1024 tok = tok" for x
    using assms(6) by (simp_all add: copy_token_safely_def)
  define j1 where "j1 = (snd (sc_finish sc) j0)\<lparr>cache_token := tok, expires_at := (if e > 0 then e else fst (sc_finish sc) + 180),
    last_failed_auth := 0, jwt_is_refreshing := False\<rparr>"
  have "login_and_get_token L sc out 1024 (j, err) = Some (True, tok, j1, err2)"
    using assms(5,7) fit assms(2) [unfolded miss_warning_def]
    by (simp add: login_and_get_token_def assms(1) Let_def finish_section_def update_jwt_cache_def assms(3,4) TOKEN_SIZE_def
        snprintf_fits [OF assms(6)] j1_def)
  moreover have "login_and_get_token L' sc' out' 1024 (j1, err') = Some (True, tok, others j1, err')"
    if "sc_turns sc' = (now', others) # turns \<and> now' < expires_at j1 \<and> cache_token (others j1) = tok \<and> expires_at (others j1) = expires_at j1"
    for L' :: "'k client_libs" and sc' now' others turns out' err'
    using that fit(2) assms(5) by (simp add: login_and_get_token_def enter_section_def)
  moreover have "\<not> jwt_is_refreshing j1" "cache_token j1 = tok" "expires_at j1 = (if e > 0 then e else fst (sc_finish sc) + 180)"
    by (simp_all add: j1_def)
  ultimately show ?thesis
    by blast
qed

theorem fresh_token_cached_witness:
  "\<exists>j1. login_and_get_token (sample_client (JObject [(''id_token'', Some (JString ''abc''))]) answer) (alone 100 101) [] 1024 (initial_jwt_state, no_error) =
      Some (True, ''abc'', j1, miss_warning no_error) \<and>
    login_and_get_token (sample_client (JObject []) no_connection) (alone 200 201) [] 1024 (j1, no_error) = Some (True, ''abc'', j1, no_error)"
proof -
  let ?L = "sample_client (JObject [(''id_token'', Some (JString ''abc''))]) answer"
  have m: "await_token (sc_turns (alone 100 101)) initial_jwt_state = Some (Refresh, initial_jwt_state\<lparr>jwt_is_refreshing := True\<rparr>)"
    by (simp add: alone_def enter_section_def initial_jwt_state_def)
  have g: "json_object_object_get_ex (cl_json ?L) (Some (JObject [(''id_token'', Some (JString ''abc''))])) ''id_token'' = Some (Some (JString ''abc''))"
    "json_object_get_string (cl_json ?L) (Some (JString ''abc'')) = Some ''abc''"
    by (simp_all add: sample_client_def ref_json_def c_str_def)
  have e: "0 = jwt_get_expiration (cl_sodium ?L) (cl_json ?L) (cl_parse ?L) ''abc''" "fst (sc_finish (alone 100 101)) = 101"
      "''abc'' \<noteq> []" "length ''abc'' < 1024"
    by (simp_all add: jwt_get_expiration_def jwt_decode_payload_def alone_def)
  from fresh_token_cached [where ?'k = jvalue and out = "[]" and err = no_error, OF m sample_login(1) g e(3,4,1)]
  obtain j1 where j: "login_and_get_token ?L (alone 100 101) [] 1024 (initial_jwt_state, no_error) = Some (True, ''abc'', j1, miss_warning no_error)"
      "cache_token j1 = ''abc''" "expires_at j1 = 281"
      "\<forall>L' :: jvalue client_libs. \<forall>sc' now' others turns out' err'. sc_turns sc' = (now', others) # turns \<and> now' < expires_at j1 \<and>
         cache_token (others j1) = ''abc'' \<and> expires_at (others j1) = expires_at j1 \<longrightarrow>
         login_and_get_token L' sc' out' 1024 (j1, err') = Some (True, ''abc'', others j1, err')"
    by (elim exE conjE) (simp_all add: e(2))
  have "login_and_get_token (sample_client (JObject []) no_connection) (alone 200 201) [] 1024 (j1, no_error) = Some (True, ''abc'', id j1, no_error)"
    by (rule j(4) [rule_format, where now' = 200 and others = id and turns = "[]"]) (simp add: alone_def j)
  with j(1) show ?thesis by auto
qed

text \<open>C36: When the login request fails, an expired token that is still in the cache is handed out as if it were valid: the call
  reports success with a token past its expiry time, and only calls within the next five seconds fail.\<close>

theorem expired_token_reused:
  assumes "miss now j" "cache_token j \<noteq> []" "length (cache_token j) < 1024"
    "execute_login_request L (miss_warning err) = Some (None, err2)"
  shows "expires_at j \<le> now \<and>
    (\<exists>j1. login_and_get_token L (alone now later) out 1024 (j, err) = Some (True, cache_token j, j1, err2) \<and>
       (\<forall>L' :: 'k client_libs. \<forall>now' out' err'. now \<le> now' \<and> now' < later + 5 \<longrightarrow>
          login_and_get_token L' (alone now' later') out' 1024 (j1, err') = Some (False, out', j1, err')))"
proof -
  have "\<not> now' < expires_at j" if "now \<le> now'" for now'
    using assms(1,2) that by (auto simp: miss_def)
  moreover have "copy_token_safely x 1024 (cache_token j) = cache_token j" for x
    using assms(3) by (simp add: copy_token_safely_def)
  ultimately show ?thesis
    using assms(1,2) unfolding login_on_miss [OF assms(1,4)]
    by (auto simp: finish_section_def login_and_get_token_def alone_def enter_section_def Let_def miss_def)
qed

theorem expired_token_reused_witness:
  "\<exists>j1 err1. login_and_get_token (sample_client (JObject []) no_connection) (alone 100 101) [] 1024
      (initial_jwt_state\<lparr>cache_token := ''old'', expires_at := 50\<rparr>, no_error) = Some (True, ''old'', j1, err1)"
proof -
  let ?j = "initial_jwt_state\<lparr>cache_token := ''old'', expires_at := 50\<rparr>"
  obtain err1 where e: "execute_login_request (sample_client (JObject []) no_connection) (miss_warning no_error) = Some (None, err1)"
    using sample_login(2) by blast
  have "miss 100 ?j" "cache_token ?j = ''old''"
    by (simp_all add: miss_def initial_jwt_state_def)
  then show ?thesis
    using expired_token_reused [where ?'k = jvalue and now = 100 and j = ?j and later = 101 and out = "[]" and later' = 0, OF _ _ _ e] by auto
qed

end
