(* ===== verification/Login.thy ===== *)
theory Login
  imports Customer
begin

text \<open>
  Model of \<open>src/login.c\<close>: the request to the login provider.
\<close>

text \<open>
  A null credential would leave its escaped buffer uninitialised, and the request would be built from it: \<open>None\<close>. The
  payload schema of the only caller rules it out.
\<close>

definition login_service_authenticate ::
  "'j client_libs \<Rightarrow> cstring_ptr \<Rightarrow> cstring_ptr \<Rightarrow> int \<Rightarrow> thread_error \<Rightarrow> ('j option \<times> int \<times> thread_error) option"
where
  "login_service_authenticate L username password http_code err =
     (if username = None \<or> password = None then None
      else
        (let size = JSON_ENCODE_BUFSIZE 96;
             body_str = credentials_text (escaped username size) (escaped password size)
         in if length body_str \<ge> size * 2 + 128
            then Some (None, http_code, set_thread_error TL_ERR_ERROR ''Login payload truncation error'' err)
            else http_client_post_json (cl_parse L) (cl_curl L) (cl_env L) (Some (g_login_provider (cl_cfg L)))
                   (Some (g_login_uri (cl_cfg L))) (Some body_str) [''Content-Type: application/json''] http_code err))"

lemma length_escaped: "0 < n \<Longrightarrow> length (escaped (Some s) n) < n"
  using encode_loop_bound [of "[]" n s] by (simp add: escaped_def json_encode_string_def)

text \<open>The body always fits its buffer, so that the request is made.\<close>

lemma length_credentials:
  "length (credentials_text a b) = length a + length b + 29"
  by (simp add: credentials_text_def json_member_def json_quote_def)

lemma login_service_authenticate_eq:
  "login_service_authenticate L (Some u) (Some p) code err =
     http_client_post_json (cl_parse L) (cl_curl L) (cl_env L) (Some (g_login_provider (cl_cfg L)))
       (Some (g_login_uri (cl_cfg L)))
       (Some (credentials_text (escaped (Some u) (JSON_ENCODE_BUFSIZE 96)) (escaped (Some p) (JSON_ENCODE_BUFSIZE 96))))
       [''Content-Type: application/json''] code err"
proof -
  have "length (escaped (Some s) (JSON_ENCODE_BUFSIZE 96)) < JSON_ENCODE_BUFSIZE 96" for s
    by (rule length_escaped) (simp add: JSON_ENCODE_BUFSIZE_def)
  from this [of u] this [of p] show ?thesis
    by (simp add: login_service_authenticate_def Let_def length_credentials)
qed

end
