(* ===== verification/Totp.thy ===== *)
theory Totp
  imports DbApi Jwt Middleware
begin

text \<open>
  Model of \<open>src/totp.c\<close>: secrets of users, QR codes as SVG images and the validation of one-time passwords.

  libqrencode, liboath and the URI encoder of libevent are parameters, the record \<open>totp_libs\<close>. A read outside a buffer
  is \<open>None\<close>.
\<close>

section \<open>Parameters\<close>

text \<open>
  A QR code is its width and its modules. \<open>oath_totp_validate4\<close> is the function with a time step of 30 seconds, a window of
  one step and SHA-256; it takes the secret, the time and the code.
\<close>

record totp_libs =
  evhttp_uriencode :: "cstring \<Rightarrow> cstring option"
  QRcode_encodeString :: "cstring \<Rightarrow> (nat \<times> 8 word list) option"
  oath_base32_decode :: "cstring \<Rightarrow> string option"
  oath_base32_encode :: "string \<Rightarrow> cstring option"
  oath_totp_validate4 :: "string \<Rightarrow> int \<Rightarrow> cstring \<Rightarrow> int"

abbreviation HTTP_OK :: int where "HTTP_OK \<equiv> 200"
abbreviation HTTP_NOTFOUND :: int where "HTTP_NOTFOUND \<equiv> 404"

definition DB_0 :: int where "DB_0 = 0"
definition DB_1 :: int where "DB_1 = 1"


section \<open>Secrets\<close>

text \<open>The status, and the string in the caller's buffer when it is 200. The indicator starts at 0.\<close>

definition get_secret :: "'w odbc \<Rightarrow> config \<Rightarrow> cstring \<Rightarrow> nat \<Rightarrow> 'w db \<Rightarrow> (int \<times> cstring) \<times> 'w db" where
  "get_secret O' cfg user maxlen s =
     (let ((ok, found, cells), s1) =
            db_query_single_row O' cfg DB_0 ''{CALL cpp_get_secret(?)}'' [PARAM_STRING (Some user)] [(Some SQL_C_CHAR, maxlen)] s;
          ind = (case cells of [] \<Rightarrow> 0 | (_, i) # _ \<Rightarrow> i);
          out_secret = (case cells of (Cell_chars t, _) # _ \<Rightarrow> c_str t | _ \<Rightarrow> [])
      in if \<not> ok then ((HTTP_INTERNAL, []), s1)
         else if \<not> found \<or> ind = SQL_NULL_DATA \<or> ind = 0 then ((HTTP_NOTFOUND, []), s1)
         else ((HTTP_OK, out_secret), s1))"


section \<open>The image\<close>

definition newline :: string where "newline = [CHR 0x0A]"

definition xml_attr :: "string \<Rightarrow> string \<Rightarrow> string" where
  "xml_attr name v = '' '' @ name @ ''='' @ json_quote v"

definition svg_start :: "nat \<Rightarrow> string" where
  "svg_start width =
     (let w = dec (width + 2)
      in ''<?xml'' @ xml_attr ''version'' ''1.0'' @ xml_attr ''encoding'' ''UTF-8'' @ ''?>'' @ newline @
         ''<svg'' @ xml_attr ''xmlns'' ''http://www.w3.org/2000/svg'' @ xml_attr ''version'' ''1.1'' @
           xml_attr ''viewBox'' (''0 0 '' @ w @ '' '' @ w) @ ''>'' @ newline @
         ''<rect'' @ xml_attr ''width'' w @ xml_attr ''height'' w @ xml_attr ''fill'' ''white'' @ ''/>'' @ newline @
         ''<path d='' @ [CHR 0x22])"

definition svg_end :: string where
  "svg_end = [CHR 0x22] @ xml_attr ''fill'' ''black'' @ ''/>'' @ newline @ ''</svg>'' @ newline"

text \<open>The path of the module at index \<open>i\<close>.\<close>

definition svg_module :: "nat \<Rightarrow> nat \<Rightarrow> string" where
  "svg_module width i = ''M'' @ dec (i mod width + 1) @ '','' @ dec (i div width + 1) @ ''h1v1h-1z ''"

definition BATCH_BUF :: nat where "BATCH_BUF = 8192"

text \<open>
  The loop over the modules: the output and the valid bytes of \<open>batch_buf\<close>. A path that does not fit the rest of the buffer
  would be cut and counted in full: \<open>None\<close>.
\<close>

fun svg_loop :: "nat \<Rightarrow> 8 word list \<Rightarrow> nat list \<Rightarrow> string \<times> string \<Rightarrow> (string \<times> string) option" where
  "svg_loop width modules [] st = Some st"
| "svg_loop width modules (i # is) (out_buf, batch) =
     (if \<not> i < length modules then None
      else if bit (modules ! i) 0
      then
        (let (out1, batch1) = (if length batch + 32 > BATCH_BUF then (out_buf @ batch, []) else (out_buf, batch));
             text = svg_module width i
         in if length batch1 + length text < BATCH_BUF then svg_loop width modules is (out1, batch1 @ text) else None)
      else svg_loop width modules is (out_buf, batch))"

definition totp_append_qr_svg_path :: "string \<Rightarrow> nat \<times> 8 word list \<Rightarrow> string option" where
  "totp_append_qr_svg_path out_buf qrcode =
     (let (width, modules) = qrcode
      in case svg_loop width modules [0..<width * width] (out_buf @ snprintf (svg_start width) 256, []) of
           None \<Rightarrow> None
         | Some (out1, batch) \<Rightarrow> Some ((if batch \<noteq> [] then out1 @ batch else out1) @ svg_end))"

definition otpauth_uri :: "cstring \<Rightarrow> cstring \<Rightarrow> string" where
  "otpauth_uri escaped_user secret =
     ''otpauth://totp/apiserver:'' @ escaped_user @ ''?secret='' @ secret @
     ''&issuer=apiserver&algorithm=SHA256&digits=6&period=30''"

text \<open>The status and the output of \<open>totp_generate_svg\<close>.\<close>

definition totp_generate_svg ::
  "totp_libs \<Rightarrow> 'w odbc \<Rightarrow> config \<Rightarrow> cstring_ptr \<Rightarrow> string \<Rightarrow> 'w db \<Rightarrow> (int \<times> string \<times> 'w db) option"
where
  "totp_generate_svg T O' cfg user out_buf s =
     (case user of
        None \<Rightarrow> Some (HTTP_BADREQUEST, out_buf, s)
      | Some u \<Rightarrow>
          (let ((db_status, secret), s1) = get_secret O' cfg u 128 s
           in if db_status \<noteq> HTTP_OK then Some (db_status, out_buf, s1)
              else
                (case evhttp_uriencode T u of
                   None \<Rightarrow> Some (HTTP_INTERNAL, out_buf, s1)
                 | Some escaped_user \<Rightarrow>
                     (case QRcode_encodeString T (snprintf (otpauth_uri escaped_user secret) 512) of
                        None \<Rightarrow> Some (HTTP_INTERNAL, out_buf, s1)
                      | Some qrcode \<Rightarrow>
                          map_option (\<lambda>out1. (HTTP_OK, out1, s1)) (totp_append_qr_svg_path out_buf qrcode)))))"


section \<open>Codes\<close>

definition is_valid_totp ::
  "totp_libs \<Rightarrow> 'w odbc \<Rightarrow> config \<Rightarrow> int \<Rightarrow> cstring_ptr \<Rightarrow> cstring_ptr \<Rightarrow> 'w db \<Rightarrow> bool \<times> 'w db"
where
  "is_valid_totp T O' cfg now user totp_code s =
     (case (user, totp_code) of
        (Some u, Some code) \<Rightarrow>
          (let ((status, secret_b32), s1) = get_secret O' cfg u 128 s
           in if status \<noteq> HTTP_OK then (False, s1)
              else
                (case oath_base32_decode T secret_b32 of
                   None \<Rightarrow> (False, s1)
                 | Some secret_bin \<Rightarrow> (oath_totp_validate4 T secret_bin now code \<ge> 0, s1)))
      | _ \<Rightarrow> (False, s))"

text \<open>\<open>random_bytes\<close> are the 20 bytes of \<open>randombytes_buf\<close>.\<close>

definition totp_generate_base32_secret :: "totp_libs \<Rightarrow> string \<Rightarrow> cstring_ptr \<Rightarrow> nat \<Rightarrow> bool \<times> cstring_ptr" where
  "totp_generate_base32_secret T random_bytes out_secret out_maxlen =
     (if out_secret = None \<or> out_maxlen \<noteq> 33 then (False, out_secret)
      else
        (case oath_base32_encode T random_bytes of
           None \<Rightarrow> (False, out_secret)
         | Some b32 \<Rightarrow>
             (if length b32 \<ge> out_maxlen then (False, out_secret)
              else (True, Some (snprintf b32 out_maxlen)))))"


section \<open>The image is complete\<close>

lemma length_dec_int_max: "n \<le> 50000 \<Longrightarrow> length (dec n) \<le> 10"
  by (rule length_dec_le) simp_all

lemma length_svg_module:
  assumes "width \<le> 46340" "i < width * width"
  shows "length (svg_module width i) < 32"
proof -
  have w: "0 < width"
    using assms(2) by (cases width) auto
  have "length (dec (a + 1)) \<le> 10" if "a < width" for a
    using that assms(1) by (intro length_dec_int_max) simp
  from this [of "i mod width"] this [of "i div width"]
  have "length (dec (i mod width + 1)) \<le> 10" "length (dec (i div width + 1)) \<le> 10"
    using w assms(2) by (simp_all add: less_mult_imp_div_less)
  then show ?thesis
    by (simp add: svg_module_def)
qed

text \<open>The batches are the concatenation of the paths.\<close>

definition svg_paths :: "nat \<Rightarrow> 8 word list \<Rightarrow> nat list \<Rightarrow> string" where
  "svg_paths width modules is = concat (map (svg_module width) (filter (\<lambda>i. bit (modules ! i) 0) is))"

lemma svg_loop_batches:
  assumes "width \<le> 46340" "\<forall>i \<in> set is. i < width * width \<and> i < length modules" "length batch < BATCH_BUF"
  shows "\<exists>out1 batch1. svg_loop width modules is (out_buf, batch) = Some (out1, batch1) \<and>
    out1 @ batch1 = out_buf @ batch @ svg_paths width modules is"
  using assms(2,3)
proof (induction "is" arbitrary: out_buf batch)
  case Nil
  then show ?case by (simp add: svg_paths_def)
next
  case (Cons i "is")
  have i: "i < length modules" and l: "length (svg_module width i) < 32"
    using Cons.prems(1) assms(1) by (auto intro: length_svg_module)
  show ?case
  proof (cases "bit (modules ! i) 0")
    case False
    then show ?thesis
      using Cons i by (simp add: svg_paths_def)
  next
    case True
    define out1 batch1 where ob: "out1 = (if length batch + 32 > BATCH_BUF then out_buf @ batch else out_buf)"
      "batch1 = (if length batch + 32 > BATCH_BUF then [] else batch)"
    have "length batch1 + 32 \<le> BATCH_BUF" "out1 @ batch1 = out_buf @ batch"
      by (auto simp: ob BATCH_BUF_def)
    moreover from this l have "length (batch1 @ svg_module width i) < BATCH_BUF" by simp
    ultimately show ?thesis
      using Cons.IH [of "batch1 @ svg_module width i" out1] Cons.prems(1) True i
      by (auto simp: Let_def ob svg_paths_def split: if_splits)
  qed
qed


lemma length_svg_start: "width \<le> 46340 \<Longrightarrow> length (svg_start width) < 256"
  using length_dec_int_max [of "width + 2"]
  by (simp add: svg_start_def xml_attr_def json_quote_def newline_def Let_def)

lemma totp_append_qr_svg_path_eq:
  assumes "width \<le> 46340" "width * width \<le> length modules"
  shows "totp_append_qr_svg_path out_buf (width, modules) =
    Some (out_buf @ svg_start width @ svg_paths width modules [0..<width * width] @ svg_end)"
proof -
  let ?is = "[0..<width * width]"
  have i: "\<forall>i \<in> set ?is. i < width * width \<and> i < length modules"
    using assms(2) by auto
  have b: "length ([] :: string) < BATCH_BUF"
    by (simp add: BATCH_BUF_def)
  obtain out1 batch1 where l: "svg_loop width modules ?is (out_buf @ svg_start width, []) = Some (out1, batch1)"
      "out1 @ batch1 = (out_buf @ svg_start width) @ [] @ svg_paths width modules ?is"
    using svg_loop_batches [OF assms(1) i b] by blast
  have "(if batch1 \<noteq> [] then out1 @ batch1 else out1) = out1 @ batch1"
    by simp
  then show ?thesis
    unfolding totp_append_qr_svg_path_def prod.case Let_def snprintf_fits [OF length_svg_start [OF assms(1)]] l(1) option.case
    by (simp only: l(2) append_assoc append_Nil)
qed

text \<open>Percent-encoding turns a byte into at most three, and a symbol of libqrencode has at most 177 modules a side.\<close>

definition totp_libs_ok :: "totp_libs \<Rightarrow> bool" where
  "totp_libs_ok T \<longleftrightarrow>
     (\<forall>u e. evhttp_uriencode T u = Some e \<longrightarrow> length e \<le> 3 * length u) \<and>
     (\<forall>uri w d. QRcode_encodeString T uri = Some (w, d) \<longrightarrow> w \<le> 177 \<and> length d = w * w)"

lemma totp_generate_svg_total:
  assumes "totp_libs_ok T"
  shows "totp_generate_svg T O' cfg user out_buf s \<noteq> None"
proof -
  have "totp_append_qr_svg_path out_buf q \<noteq> None" if "QRcode_encodeString T uri = Some q" for uri q
  proof -
    have "fst q \<le> 177" "length (snd q) = fst q * fst q"
      using that assms unfolding totp_libs_ok_def by (metis prod.collapse)+
    then show ?thesis
      using totp_append_qr_svg_path_eq [of "fst q" "snd q" out_buf] by simp
  qed
  then show ?thesis
    by (simp add: totp_generate_svg_def split_def Let_def split: option.split del: not_None_eq)
qed

text \<open>C37: For a user with a secret in the database, the answer is the complete SVG image of the QR code of the complete provisioning URI:
  the URI is never cut by its buffer, and however the paths are split into batches the image has exactly one path for
  every dark module, in order, and no read leaves a buffer.\<close>

theorem totp_svg_correct:
  assumes "totp_libs_ok T" "get_secret O' cfg u 128 s = ((HTTP_OK, secret), s1)" "length u \<le> 32" "length secret < 128"
    "evhttp_uriencode T u = Some e" "QRcode_encodeString T (otpauth_uri e secret) = Some (width, modules)"
  shows "totp_generate_svg T O' cfg (Some u) out_buf s =
    Some (HTTP_OK, out_buf @ svg_start width @ svg_paths width modules [0..<width * width] @ svg_end, s1)"
proof -
  have "length e \<le> 3 * length u" and w: "width \<le> 177" "length modules = width * width"
    using assms(1,5,6) unfolding totp_libs_ok_def by blast+
  then have "length (otpauth_uri e secret) < 512"
    using assms(3,4) by (simp add: otpauth_uri_def)
  then show ?thesis
    using assms(2,5,6) w totp_append_qr_svg_path_eq [of width modules out_buf]
    by (simp add: totp_generate_svg_def snprintf_fits)
qed

text \<open>A library whose symbol for every text has two modules a side, and a driver that delivers a secret.\<close>

definition sample_totp :: totp_libs where
  "sample_totp = \<lparr>evhttp_uriencode = Some, QRcode_encodeString = (\<lambda>_. Some (2, [1, 0, 0, 3])), oath_base32_decode = Some,
     oath_base32_encode = Some, oath_totp_validate4 = (\<lambda>k now code. if code = ''123456'' then 0 else - 1)\<rparr>"

lemma sample_totp_ok: "totp_libs_ok sample_totp"
  by (auto simp: totp_libs_ok_def sample_totp_def)

definition secret_db :: "(cell \<times> int) list list db" where
  "secret_db = sample_db\<lparr>world := [[(Cell_chars ''JBSWY3DP'', 8)]]\<rparr>"

lemma sample_secret: "\<exists>s1. get_secret (sample_odbc []) sample_cfg ''ana'' 128 secret_db = ((HTTP_OK, ''JBSWY3DP''), s1)"
  by (simp add: get_secret_def db_query_single_row_def db_prepare_and_bind_def db_connect_def db_alloc_stmt_def DB_0_def sample_odbc_def
      sample_cfg_def secret_db_def sample_db_def config_get_odbc_conn_str_def initial_config_def MAX_DB_CONNECTIONS_def db_bind_param_def SQL_SUCCEEDED_def
      SQL_NULL_DATA_def c_str_def touch_def on_handle_def Let_def split_def)

theorem totp_svg_correct_witness:
  "\<exists>s1. totp_generate_svg sample_totp (sample_odbc []) sample_cfg (Some ''ana'') [] secret_db =
    Some (HTTP_OK, svg_start 2 @ ''M1,1h1v1h-1z M2,2h1v1h-1z '' @ svg_end, s1)"
proof -
  obtain s1 where s: "get_secret (sample_odbc []) sample_cfg ''ana'' 128 secret_db = ((HTTP_OK, ''JBSWY3DP''), s1)"
    using sample_secret by blast
  have "svg_paths 2 [1, 0, 0, 3] [0..<4] = ''M1,1h1v1h-1z M2,2h1v1h-1z ''"
    by code_simp
  then show ?thesis
    using totp_svg_correct [OF sample_totp_ok s, of "''ana''" 2 "[1, 0, 0, 3]" "[]"] by (simp add: sample_totp_def)
qed

end
