(* ===== verification/Handlers.thy ===== *)
theory Handlers
  imports Login Totp Server Schemas
begin

text \<open>
  Model of the HTTP handlers of \<open>src/handlers.c\<close> and of the route table of \<open>src/main.c\<close>.

  A handler takes the parsed body and changes the status, the output buffer and the state of its thread. The part of that
  state only handlers use is the record \<open>app\<close>: the thread's database connections, the shared token cache, the log and the
  files it has written. Libraries, settings, statistics, the clock, random bytes and the answers of the file system are
  the record \<open>app_env\<close>.
\<close>

section \<open>State and parameters\<close>

record 'w app =
  app_db :: "'w db"
  app_jwt :: jwt_state
  app_log :: "(LogLevel \<times> string) list"
  app_files :: "(cstring \<times> string) list"

text \<open>
  \<open>ae_base642bin\<close> is \<open>sodium_base642bin\<close> in the original variant: the text, its length and the room. \<open>ae_fwrite\<close> gives the number of
  bytes the stream accepts, \<open>ae_fclose\<close> how many of the accepted bytes are in the file after it is closed: a stream is buffered, and
  closing it may fail. \<open>ae_fuel\<close>, \<open>ae_junk\<close> and \<open>ae_ind0\<close> are the parameters of the database functions.
\<close>

record ('j, 'w) app_env =
  ae_client :: "'j client_libs"
  ae_json_text :: "'j \<Rightarrow> cstring"
  ae_odbc :: "'w odbc"
  ae_fuel :: nat
  ae_junk :: char
  ae_ind0 :: int
  ae_totp :: totp_libs
  ae_secret :: string
  ae_now :: int
  ae_sched :: schedule
  ae_random :: "8 word list"
  ae_random20 :: string
  ae_stats :: "reactor_stats list option"
  ae_statm :: "string option"
  ae_page_size :: int
  ae_total_ram_kb :: "64 word"
  ae_start_time :: cstring
  ae_hostname :: cstring
  ae_os_version :: cstring
  ae_versions :: "cstring \<Rightarrow> cstring"
  ae_base642bin :: "cstring_ptr \<Rightarrow> nat \<Rightarrow> nat \<Rightarrow> string option"
  ae_malloc :: bool
  ae_is_dir :: "cstring \<Rightarrow> bool"
  ae_fopen :: "cstring \<Rightarrow> bool"
  ae_fwrite :: "nat \<Rightarrow> nat"
  ae_fclose :: "nat \<Rightarrow> nat"
  ae_errno_text :: cstring

abbreviation ae_json :: "('j, 'w) app_env \<Rightarrow> 'j json_c" where
  "ae_json E \<equiv> cl_json (ae_client E)"

abbreviation ae_cfg :: "('j, 'w) app_env \<Rightarrow> config" where
  "ae_cfg E \<equiv> cl_cfg (ae_client E)"

text \<open>The state a handler works on.\<close>

type_synonym 'w hstate = "int \<times> string \<times> 'w app thread_state"

text \<open>\<open>printf\<close> of a string pointer.\<close>

definition printf_s :: "cstring_ptr \<Rightarrow> string" where
  "printf_s p = (case p of Some s \<Rightarrow> s | None \<Rightarrow> ''(null)'')"

definition or_else :: "cstring_ptr \<Rightarrow> string \<Rightarrow> string" where
  "or_else p d = (case p of Some s \<Rightarrow> s | None \<Rightarrow> d)"

definition note_log :: "LogLevel \<Rightarrow> string \<Rightarrow> 'w app thread_state \<Rightarrow> 'w app thread_state" where
  "note_log level msg th = th\<lparr>th_app := (th_app th)\<lparr>app_log := app_log (th_app th) @ [(level, msg)]\<rparr>\<rparr>"

text \<open>The database functions share the thread error with the rest of the program.\<close>

definition db_in :: "'w app thread_state \<Rightarrow> 'w db" where
  "db_in th = (app_db (th_app th))\<lparr>db_error := th_error th\<rparr>"

definition db_out :: "'w db \<Rightarrow> 'w app thread_state \<Rightarrow> 'w app thread_state" where
  "db_out s th = th\<lparr>th_error := db_error s, th_app := (th_app th)\<lparr>app_db := s\<rparr>\<rparr>"

text \<open>A query into the output buffer, after which a handler sets the status to 500 if it failed.\<close>

definition run_query ::
  "(string \<times> 'w db \<Rightarrow> (bool \<times> string \<times> 'w db) option) \<Rightarrow> 'w hstate \<Rightarrow> (bool \<times> 'w hstate) option"
where
  "run_query q st =
     (case st of (status, out_buf, th) \<Rightarrow>
        map_option (\<lambda>(ok, out1, s). (ok, if ok then status else HTTP_INTERNAL, out1, db_out s th)) (q (out_buf, db_in th)))"

definition query_handler ::
  "(string \<times> 'w db \<Rightarrow> (bool \<times> string \<times> 'w db) option) \<Rightarrow> 'w hstate \<Rightarrow> 'w hstate option"
where
  "query_handler q st = (case st of (status, out_buf, th) \<Rightarrow> map_option snd (run_query q (HTTP_OK, out_buf, th)))"

definition get_json :: "('j, 'w) app_env \<Rightarrow> int \<Rightarrow> cstring \<Rightarrow> QueryParam list \<Rightarrow> string \<times> 'w db \<Rightarrow> (bool \<times> string \<times> 'w db) option" where
  "get_json E = db_get_json (ae_fuel E) (ae_odbc E) (ae_cfg E) (ae_junk E) (ae_ind0 E)"

definition get_rs2json :: "('j, 'w) app_env \<Rightarrow> int \<Rightarrow> cstring \<Rightarrow> QueryParam list \<Rightarrow> string \<times> 'w db \<Rightarrow> (bool \<times> string \<times> 'w db) option" where
  "get_rs2json E = db_get_rs2json (ae_fuel E) (ae_odbc E) (ae_cfg E) (ae_junk E)"

definition get_rs2json_m :: "('j, 'w) app_env \<Rightarrow> int \<Rightarrow> cstring \<Rightarrow> QueryParam list \<Rightarrow> string \<times> 'w db \<Rightarrow> (bool \<times> string \<times> 'w db) option" where
  "get_rs2json_m E = db_get_rs2json_m (ae_fuel E) (ae_odbc E) (ae_cfg E) (ae_junk E)"

text \<open>\<open>int id = json_get_int(body, key)\<close>, which narrows 64 bits to 32.\<close>

definition int_param :: "('j, 'w) app_env \<Rightarrow> 'j option \<Rightarrow> cstring \<Rightarrow> QueryParam" where
  "int_param E body key = PARAM_INT (Some (ucast (json_get_int (ae_json E) body key)))"

definition string_param :: "('j, 'w) app_env \<Rightarrow> 'j option \<Rightarrow> cstring \<Rightarrow> QueryParam" where
  "string_param E body key = PARAM_STRING (json_get_string (ae_json E) body key)"


section \<open>Utilities\<close>

text \<open>\<open>printf("%.2f")\<close> of a value that is not negative.\<close>

definition printf_2f :: "rat \<Rightarrow> string" where
  "printf_2f q = (let n = nat (round_half_even (q * 100)) in dec (n div 100) @ ''.'' @ two_digits (n mod 100))"

definition double_of_u64 :: "64 word \<Rightarrow> rat" where
  "double_of_u64 w = round_double (of_nat (unat w))"

definition json_object_of :: "(string \<times> string) list \<Rightarrow> string" where
  "json_object_of ms = ''{'' @ join '','' (map (\<lambda>(name, val). json_member name val) ms) @ ''}''"

definition build_sysinfo_json_string :: "('j, 'w) app_env \<Rightarrow> nat \<Rightarrow> cstring" where
  "build_sysinfo_json_string E maxlen =
     (let stats = server_get_request_stats (ae_stats E);
          total_ram_kb = ae_total_ram_kb E;
          mem_usage_kb = server_get_memory_stats (ae_statm E) (ae_page_size E);
          mem_usage_pct = (if total_ram_kb > 0
            then round_double (round_double (double_of_u64 mem_usage_kb / double_of_u64 total_ram_kb) * 100) else 0)
      in snprintf (json_object_of
           [(''start_time'', json_quote (escaped (Some (ae_start_time E)) 128)),
            (''total_requests'', dec (unat (rs_total_requests stats))),
            (''average_processing_time_fast_ms'', dec (unat (rs_avg_time_fast_ms stats))),
            (''average_processing_time_slow_ms'', dec (unat (rs_avg_time_slow_ms stats))),
            (''total_ram_kb'', dec (unat total_ram_kb)),
            (''memory_usage_kb'', dec (unat mem_usage_kb)),
            (''memory_usage_percentage'', printf_2f mem_usage_pct),
            (''hostname'', json_quote (escaped (Some (ae_hostname E)) 256))]) maxlen)"

definition append_remote_json_response :: "('j, 'w) app_env \<Rightarrow> 'j option \<Rightarrow> int \<Rightarrow> string \<Rightarrow> string" where
  "append_remote_json_response E remote_json http_code out_buf =
     out_buf @
     snprintf (''{'' @ json_member ''remote_status'' (dec_int http_code) @ '','' @ json_member ''remote_data'' []) 128 @
     (case remote_json of Some j \<Rightarrow> ae_json_text E j | None \<Rightarrow> ''null'') @ ''}''"

definition handle_login_success :: "('j, 'w) app_env \<Rightarrow> cstring_ptr \<Rightarrow> cstring_ptr \<Rightarrow> 'w hstate \<Rightarrow> 'w hstate" where
  "handle_login_success E user_name remote_ip st =
     (case st of (_, out_buf, th) \<Rightarrow>
        (let session = generate_uuidv4 (ae_random E)
         in case jwt_create (cl_sodium (ae_client E)) (ae_secret E) (ae_now E) user_name (Some session)
                   (g_jwt_timeout_seconds (ae_cfg E)) 1024 of
              Some token \<Rightarrow>
                (HTTP_OK, out_buf @ snprintf (json_object_of [(''token'', json_quote (escaped (Some token) 2048))]) 2500,
                 note_log LOG_LEVEL_AUDIT (''Login OK - Username: '' @ printf_s user_name @ '', SessionID: '' @ session @
                   '', RemoteIP: '' @ printf_s remote_ip) th)
            | None \<Rightarrow>
                (HTTP_INTERNAL, out_buf,
                 note_log LOG_LEVEL_WARN (''Failed to generate token for Username: '' @ printf_s user_name @
                   '', RemoteIP: '' @ printf_s remote_ip) th)))"

text \<open>\<open>(int)http_code\<close>\<close>

definition status_of :: "int \<Rightarrow> int" where
  "status_of http_code = (if http_code = 0 then HTTP_INTERNAL else sint (word_of_int http_code :: 32 word))"

definition handle_login_failure ::
  "('j, 'w) app_env \<Rightarrow> cstring_ptr \<Rightarrow> cstring_ptr \<Rightarrow> int \<Rightarrow> 'j option \<Rightarrow> 'w hstate \<Rightarrow> 'w hstate"
where
  "handle_login_failure E user_name remote_ip http_code remote_response st =
     (case st of (_, out_buf, th) \<Rightarrow>
        (let th1 = note_log LOG_LEVEL_WARN (''Login failed - Username: '' @ printf_s user_name @ '', RemoteIP: '' @ printf_s remote_ip @
               '', HTTP Code: '' @ dec_int http_code) th
         in case remote_response of
              Some r \<Rightarrow>
                (let desc = json_get_string (ae_json E) (Some r) ''description'';
                     err_msg = json_get_string (ae_json E) (Some r) ''error'';
                     final_error = (case desc of Some d \<Rightarrow> d | None \<Rightarrow> or_else err_msg ''Unknown provider error'')
                 in (status_of http_code, out_buf @ snprintf (error_json (escaped (Some final_error) 256)) 512, th1))
            | None \<Rightarrow> (status_of http_code, out_buf @ error_json ''Provider unreachable'', th1)))"

definition upload_is_valid_dir :: "('j, 'w) app_env \<Rightarrow> cstring \<Rightarrow> 'w app thread_state \<Rightarrow> bool \<times> 'w app thread_state" where
  "upload_is_valid_dir E uploads_dir th =
     (if uploads_dir = []
      then (False, note_log LOG_LEVEL_ERROR ''UPLOADS_DIR config variable is empty. Uploads are disabled.'' th)
      else if \<not> ae_is_dir E uploads_dir
      then (False, note_log LOG_LEVEL_ERROR (''Uploads directory '' @ [CHR 0x27] @ uploads_dir @ [CHR 0x27] @
             '' does not exist or is not a directory.'') th)
      else (True, th))"


section \<open>Handlers\<close>

definition ok_json :: string where
  "ok_json = json_object_of [(''status'', json_quote ''OK'')]"

definition ping_handler :: "('j, 'w app) handler_fn" where
  "ping_handler body st = (case st of (_, out_buf, th) \<Rightarrow> Some (HTTP_OK, out_buf @ ok_json, th))"

definition version_handler :: "('j, 'w) app_env \<Rightarrow> ('j, 'w app) handler_fn" where
  "version_handler E body st =
     (case st of (_, out_buf, th) \<Rightarrow>
        (let esc = (\<lambda>s n. json_quote (escaped (Some s) n))
         in Some (HTTP_OK, out_buf @ snprintf (json_object_of
              [(''version'', esc (ae_versions E ''server'') 64), (''compiler'', esc (ae_versions E ''compiler'') 256),
               (''compile_date'', esc (ae_versions E ''date'') 128), (''hostname'', esc (ae_hostname E) 256),
               (''os_version'', esc (ae_os_version E) 256), (''libevent_version'', esc (ae_versions E ''libevent'') 128),
               (''libcurl_version'', esc (ae_versions E ''libcurl'') 256), (''libc_version'', esc (ae_versions E ''libc'') 64)]) 1024, th)))"

definition sysinfo_handler :: "('j, 'w) app_env \<Rightarrow> ('j, 'w app) handler_fn" where
  "sysinfo_handler E body st =
     (case st of (_, out_buf, th) \<Rightarrow> Some (HTTP_OK, out_buf @ build_sysinfo_json_string E 1024, th))"

text \<open>A metric in the text format of Prometheus.\<close>

definition metric :: "cstring \<Rightarrow> string \<Rightarrow> string \<Rightarrow> string \<Rightarrow> 64 word \<Rightarrow> string" where
  "metric hname name help kind v =
     ''# HELP '' @ name @ '' '' @ help @ newline @ ''# TYPE '' @ name @ '' '' @ kind @ newline @
     name @ ''{hostname='' @ json_quote hname @ ''} '' @ dec (unat v) @ newline"

definition metrics_text :: "('j, 'w) app_env \<Rightarrow> string" where
  "metrics_text E =
     (let stats = server_get_request_stats (ae_stats E);
          total_ram_kb = ae_total_ram_kb E;
          mem_usage_kb = server_get_memory_stats (ae_statm E) (ae_page_size E);
          hname = ae_hostname E
      in join newline
           [metric hname ''microservice_requests_total'' ''Total number of processed requests'' ''counter'' (rs_total_requests stats),
            metric hname ''microservice_requests_fast_total'' ''Total number of processed requests in fast pool'' ''counter''
              (rs_total_requests_fast stats),
            metric hname ''microservice_requests_slow_total'' ''Total number of processed requests in slow pool'' ''counter''
              (rs_total_requests_slow stats),
            metric hname ''microservice_processing_time_milliseconds_total'' ''Total processing time across all requests'' ''counter''
              (rs_total_time_ms stats),
            metric hname ''microservice_processing_time_fast_milliseconds_total'' ''Total processing time for fast pool'' ''counter''
              (rs_total_time_fast_ms stats),
            metric hname ''microservice_processing_time_slow_milliseconds_total'' ''Total processing time for slow pool'' ''counter''
              (rs_total_time_slow_ms stats),
            metric hname ''microservice_memory_usage_bytes'' ''Current resident memory size in bytes'' ''gauge'' (mem_usage_kb * 1024),
            metric hname ''microservice_memory_total_bytes'' ''Total physical memory in bytes'' ''gauge'' (total_ram_kb * 1024)])"

definition set_type :: "cstring \<Rightarrow> 'w app thread_state \<Rightarrow> 'w app thread_state" where
  "set_type ctype th = th\<lparr>th_context := context_set_content_type (Some ctype) (th_context th)\<rparr>"

definition metrics_handler :: "('j, 'w) app_env \<Rightarrow> ('j, 'w app) handler_fn" where
  "metrics_handler E body st =
     (case st of (_, out_buf, th) \<Rightarrow>
        Some (HTTP_OK, out_buf @ snprintf (metrics_text E) 2048, set_type ''text/plain; version=0.0.4'' th))"

definition rsysinfo_handler :: "('j, 'w) app_env \<Rightarrow> ('j, 'w app) handler_fn" where
  "rsysinfo_handler E body st =
     (case st of (_, out_buf, th) \<Rightarrow>
        (let L = ae_client E;
             auth_header = snprintf (''Authorization: Bearer '' @ g_remote_api_key (cl_cfg L)) 512
         in map_option
              (\<lambda>(remote_json, http_code, err). (HTTP_OK, append_remote_json_response E remote_json http_code out_buf, th\<lparr>th_error := err\<rparr>))
              (http_client_get_json (cl_parse L) (cl_curl L) (cl_env L) (Some (g_api_url (cl_cfg L))) (Some ''/api/metrics'')
                 [auth_header] 0 (th_error th))))"

definition rcustomer_handler :: "('j, 'w) app_env \<Rightarrow> ('j, 'w app) handler_fn" where
  "rcustomer_handler E body st =
     (case st of (_, out_buf, th) \<Rightarrow>
        (case json_get_string (ae_json E) body ''id'' of
           None \<Rightarrow> Some (HTTP_BADREQUEST, out_buf, th)
         | Some customer_id \<Rightarrow>
             map_option
               (\<lambda>(remote_json, http_code, j, err).
                  (HTTP_OK, append_remote_json_response E remote_json http_code out_buf,
                   th\<lparr>th_error := err, th_app := (th_app th)\<lparr>app_jwt := j\<rparr>\<rparr>))
               (customer_service_get_info (ae_client E) (ae_sched E) [ae_junk E] (Some customer_id) 0 (app_jwt (th_app th), th_error th))))"

definition customer_handler :: "('j, 'w) app_env \<Rightarrow> ('j, 'w app) handler_fn" where
  "customer_handler E body st = query_handler (get_json E DB_0 ''{CALL sp_customer_get(?)}'' [string_param E body ''id'']) st"

definition sales_handler :: "('j, 'w) app_env \<Rightarrow> ('j, 'w app) handler_fn" where
  "sales_handler E body st =
     query_handler (get_json E DB_0 ''{CALL sp_sales_by_category(?,?)}''
       [string_param E body ''start_date'', string_param E body ''end_date'']) st"

definition shippers_handler :: "('j, 'w) app_env \<Rightarrow> ('j, 'w app) handler_fn" where
  "shippers_handler E body st =
     (case st of (status, out_buf, th) \<Rightarrow>
        (let th1 = note_log LOG_LEVEL_AUDIT (''shippers_handler accessed by User: '' @ or_else (context_get_user (th_context th)) ''unknown'' @
               '', SessionID: '' @ or_else (context_get_session_id (th_context th)) ''unknown'') th
         in query_handler (get_json E DB_0 ''{CALL sp_shippers_view}'' []) (status, out_buf, th1)))"

definition products_handler :: "('j, 'w) app_env \<Rightarrow> ('j, 'w app) handler_fn" where
  "products_handler E body st = query_handler (get_json E DB_0 ''{CALL sp_products_view}'' []) st"

definition getqr_handler :: "('j, 'w) app_env \<Rightarrow> ('j, 'w app) handler_fn" where
  "getqr_handler E body st =
     (case st of (_, out_buf, th) \<Rightarrow>
        map_option
          (\<lambda>(status, out1, s). (status, out1, if status = HTTP_OK then set_type ''image/svg+xml'' (db_out s th) else db_out s th))
          (totp_generate_svg (ae_totp E) (ae_odbc E) (ae_cfg E) (context_get_user (th_context th)) out_buf (db_in th)))"

definition verifytotp_handler :: "('j, 'w) app_env \<Rightarrow> ('j, 'w app) handler_fn" where
  "verifytotp_handler E body st =
     (case st of (_, out_buf, th) \<Rightarrow>
        (let user = context_get_user (th_context th);
             totp_str = json_get_string (ae_json E) body ''totp'';
             (valid, th1) = (if totp_str \<noteq> None
               then (case is_valid_totp (ae_totp E) (ae_odbc E) (ae_cfg E) (ae_now E) user totp_str (db_in th) of (v, s) \<Rightarrow> (v, db_out s th))
               else (False, th))
         in if valid then Some (HTTP_OK, out_buf @ ok_json, th1)
            else Some (401, out_buf,
                   note_log LOG_LEVEL_WARN (''TOTP validation failed for User: '' @ or_else user ''unknown'' @
                     '', SessionID: '' @ or_else (context_get_session_id (th_context th)) ''unknown'' @
                     '' from IP: '' @ or_else (context_get_client_ip (th_context th)) ''unknown'') th1)))"

definition uuid_handler :: "('j, 'w) app_env \<Rightarrow> ('j, 'w app) handler_fn" where
  "uuid_handler E body st =
     (case st of (_, out_buf, th) \<Rightarrow>
        Some (HTTP_OK, out_buf @ snprintf (json_object_of [(''uuid'', json_quote (generate_uuidv4 (ae_random E)))]) 128, th))"

definition secretb32_handler :: "('j, 'w) app_env \<Rightarrow> ('j, 'w app) handler_fn" where
  "secretb32_handler E body st =
     (case st of (_, out_buf, th) \<Rightarrow>
        (case totp_generate_base32_secret (ae_totp E) (ae_random20 E) (Some [ae_junk E]) 33 of
           (True, Some secret) \<Rightarrow> Some (HTTP_OK, out_buf @ snprintf (json_object_of [(''secret'', json_quote secret)]) 128, th)
         | _ \<Rightarrow> Some (HTTP_INTERNAL, out_buf, th)))"

definition login_handler :: "('j, 'w) app_env \<Rightarrow> ('j, 'w app) handler_fn" where
  "login_handler E body st =
     (case st of (status, out_buf, th) \<Rightarrow>
        (let user_name = json_get_string (ae_json E) body ''username'';
             password = json_get_string (ae_json E) body ''password'';
             remote_ip = context_get_client_ip (th_context th)
         in map_option
              (\<lambda>(remote_response, http_code, err).
                 if http_code = 200 then handle_login_success E user_name remote_ip (status, out_buf, th\<lparr>th_error := err\<rparr>)
                 else handle_login_failure E user_name remote_ip http_code remote_response (status, out_buf, th\<lparr>th_error := err\<rparr>))
              (login_service_authenticate (ae_client E) user_name password 0 (th_error th))))"

definition employee_handler :: "('j, 'w) app_env \<Rightarrow> ('j, 'w app) handler_fn" where
  "employee_handler E body st = query_handler (get_rs2json E DB_0 ''{CALL emp_get(?)}'' [int_param E body ''id'']) st"

definition prodget_handler :: "('j, 'w) app_env \<Rightarrow> ('j, 'w app) handler_fn" where
  "prodget_handler E body st = query_handler (get_rs2json E DB_0 ''{CALL product_get(?)}'' [int_param E body ''id'']) st"

definition supplier_handler :: "('j, 'w) app_env \<Rightarrow> ('j, 'w app) handler_fn" where
  "supplier_handler E body st = query_handler (get_rs2json E DB_0 ''{CALL supplier_get(?)}'' [int_param E body ''id'']) st"

definition customers_handler :: "('j, 'w) app_env \<Rightarrow> ('j, 'w app) handler_fn" where
  "customers_handler E body st = query_handler (get_json E DB_0 ''{CALL sp_customers_like(?)}'' [string_param E body ''filter'']) st"

definition sales_pgsql_handler :: "('j, 'w) app_env \<Rightarrow> ('j, 'w app) handler_fn" where
  "sales_pgsql_handler E body st =
     query_handler (get_json E DB_1 ''select get_sales_by_category(?, ?)''
       [string_param E body ''start_date'', string_param E body ''end_date'']) st"

text \<open>The overflow checks of \<open>ckd_mul\<close> and \<open>ckd_add\<close> into a \<open>size_t\<close>.\<close>

definition ckd_size :: "int \<Rightarrow> int option" where
  "ckd_size z = (if 0 \<le> z \<and> z < 2 ^ 64 then Some z else None)"

definition bin_maxlen :: "32 word \<Rightarrow> nat option" where
  "bin_maxlen b64_len =
     (case ckd_size (c_div (sint b64_len) 4 * 3) of
        None \<Rightarrow> None
      | Some p \<Rightarrow> map_option nat (ckd_size (p + 4)))"

text \<open>The file is closed when its variable goes out of scope; the result of \<open>fclose\<close> is not used.\<close>

definition cleanup_file :: "('j, 'w) app_env \<Rightarrow> cstring \<Rightarrow> string \<Rightarrow> 'w app thread_state \<Rightarrow> 'w app thread_state" where
  "cleanup_file E fpath accepted th =
     th\<lparr>th_app := (th_app th)\<lparr>app_files := (fpath, take (ae_fclose E (length accepted)) accepted) # app_files (th_app th)\<rparr>\<rparr>"

definition upload_handler :: "('j, 'w) app_env \<Rightarrow> ('j, 'w app) handler_fn" where
  "upload_handler E body st =
     (case st of (_, out_buf, th) \<Rightarrow>
        (let filename = json_get_string (ae_json E) body ''filename'';
             ctype = json_get_string (ae_json E) body ''content_type'';
             title = json_get_string (ae_json E) body ''title'';
             (blob, b64_len) = json_get_string_ex (ae_json E) body ''blob'' 0;
             user = or_else (context_get_user (th_context th)) ''anonymous'';
             uuid_str = generate_uuidv4 (ae_random E);
             uploads_dir = g_uploads_dir (ae_cfg E);
             (dir_ok, th1) = upload_is_valid_dir E uploads_dir th;
             out_path = snprintf (uploads_dir @ ''/'' @ uuid_str) (MAX_CONFIG_STR + 64)
         in if \<not> dir_ok then Some (HTTP_INTERNAL, out_buf, th1)
            else
              (case bin_maxlen b64_len of
                 None \<Rightarrow> Some (HTTP_INTERNAL, out_buf, note_log LOG_LEVEL_ERROR ''Upload blob length overflow'' th1)
               | Some maxlen \<Rightarrow>
                   if \<not> ae_malloc E
                   then Some (HTTP_INTERNAL, out_buf,
                     note_log LOG_LEVEL_ERROR (''Out of memory allocating '' @ dec maxlen @ '' bytes for upload blob'') th1)
                   else
                     (case ae_base642bin E blob (nat (sint b64_len)) maxlen of
                        None \<Rightarrow> Some (HTTP_BADREQUEST, out_buf @ error_json ''Invalid base64 encoding'',
                          note_log LOG_LEVEL_WARN (''User '' @ user @ '' provided invalid base64 encoding for upload'') th1)
                      | Some bin_buf \<Rightarrow>
                          if \<not> ae_fopen E out_path
                          then Some (HTTP_INTERNAL, out_buf, note_log LOG_LEVEL_ERROR (''Failed to open upload destination '' @ out_path @
                            '' for writing: '' @ ae_errno_text E) th1)
                          else
                            (let written = ae_fwrite E (length bin_buf);
                                 close = cleanup_file E out_path (take written bin_buf)
                             in if written \<noteq> length bin_buf
                                then Some (HTTP_INTERNAL, out_buf, close (note_log LOG_LEVEL_ERROR (''Failed to write full '' @
                                  dec (length bin_buf) @ '' bytes to '' @ out_path @ '': '' @ ae_errno_text E) th1))
                                else Some (HTTP_OK,
                                  out_buf @ snprintf (json_object_of [(''status'', json_quote ''ok''), (''uuid'', json_quote uuid_str),
                                    (''size'', dec (length bin_buf))]) 256,
                                  close (note_log LOG_LEVEL_AUDIT (''User '' @ user @ '' uploaded file '' @ printf_s filename @ '' (Title: '' @
                                    printf_s title @ '', Content-Type: '' @ printf_s ctype @ '', Size: '' @ dec (length bin_buf) @
                                    '' bytes) saved as '' @ uuid_str) th1)))))))"

definition gasto_sql :: cstring where
  "gasto_sql = ''DECLARE @out_fecha DATE;'' @ ''DECLARE @out_categ_id INT;'' @ ''DECLARE @out_monto MONEY;'' @
     ''DECLARE @out_motivo VARCHAR(150);'' @ ''EXEC dbo.ObtenerGasto'' @ ''    @gasto_id = ?,'' @
     ''    @fecha = @out_fecha OUTPUT,'' @ ''    @categ_id = @out_categ_id OUTPUT,'' @ ''    @monto = @out_monto OUTPUT,'' @
     ''    @motivo = @out_motivo OUTPUT;'' @ ''SELECT'' @ ''    @out_fecha AS Fecha,'' @ ''    @out_categ_id AS CategID,'' @
     ''    @out_monto AS Monto,'' @ ''    @out_motivo AS Motivo;''"

definition gasto_handler :: "('j, 'w) app_env \<Rightarrow> ('j, 'w app) handler_fn" where
  "gasto_handler E body st = query_handler (get_rs2json E DB_0 gasto_sql [int_param E body ''id'']) st"

definition customerget_handler :: "('j, 'w) app_env \<Rightarrow> ('j, 'w app) handler_fn" where
  "customerget_handler E body st =
     query_handler (get_rs2json_m E DB_0 ''{CALL dbo.get_customer_info(?)}'' [string_param E body ''id'']) st"

definition emp_orders_handler :: "('j, 'w) app_env \<Rightarrow> ('j, 'w app) handler_fn" where
  "emp_orders_handler E body st =
     query_handler (get_rs2json_m E DB_0 ''{CALL dbo.get_emp_orders(?)}'' [int_param E body ''id'']) st"

definition emp_ordersj_handler :: "('j, 'w) app_env \<Rightarrow> ('j, 'w app) handler_fn" where
  "emp_ordersj_handler E body st =
     query_handler (get_json E DB_1 ''SELECT demo.get_employee_orders_j(?)'' [int_param E body ''id'']) st"

definition dummy_sql :: cstring where
  "dummy_sql = ''DECLARE @Out1 INT;'' @ newline @ ''DECLARE @Out2 VARCHAR(255);'' @ newline @
     ''EXEC dbo.TestDummySP @InParam1=?, @OutParam1=@Out1 OUTPUT, @OutParam2=@Out2 OUTPUT;'' @ newline @
     ''SELECT @Out1 AS OutParam1, @Out2 AS OutParam2;''"

definition dummy_handler :: "('j, 'w) app_env \<Rightarrow> ('j, 'w app) handler_fn" where
  "dummy_handler E body st = query_handler (get_rs2json E DB_0 dummy_sql [int_param E body ''id'']) st"

definition coordinator_handler :: "('j, 'w) app_env \<Rightarrow> ('j, 'w app) handler_fn" where
  "coordinator_handler E body st =
     query_handler (get_rs2json_m E DB_0 ''{CALL dbo.coordinator(?, ?)}''
       [int_param E body ''gasto_id'', string_param E body ''customer_id'']) st"

text \<open>Two queries into one object; after a failure the object is left as it is.\<close>

definition coordinator2_handler :: "('j, 'w) app_env \<Rightarrow> ('j, 'w app) handler_fn" where
  "coordinator2_handler E body st =
     (case st of (_, out_buf, th) \<Rightarrow>
        (let params = [int_param E body ''id'']
         in case run_query (get_rs2json E DB_0 ''EXEC emp_get @id = ?'' params) (HTTP_OK, out_buf @ ''{'' @ json_member ''r1'' [], th) of
              None \<Rightarrow> None
            | Some (False, st1) \<Rightarrow> Some st1
            | Some (True, status, out1, th1) \<Rightarrow>
                (case run_query (get_json E DB_1 ''SELECT demo.get_employee_orders_j(?)'' params)
                        (status, out1 @ '','' @ json_member ''r2'' [], th1) of
                   None \<Rightarrow> None
                 | Some (False, st2) \<Rightarrow> Some st2
                 | Some (True, status2, out2, th2) \<Rightarrow> Some (status2, out2 @ ''}'', th2))))"

definition coordinator3_handler :: "('j, 'w) app_env \<Rightarrow> ('j, 'w app) handler_fn" where
  "coordinator3_handler E body st =
     (case st of (_, out_buf, th) \<Rightarrow>
        (let ((ok, found, cells), s) = db_query_single_row (ae_odbc E) (ae_cfg E) DB_0 ''EXEC emp_get @id = ?'' [int_param E body ''id'']
               [(Some SQL_C_SLONG, 4)] (db_in th);
             th1 = db_out s th;
             employee_id = (case cells of (Cell_int v, i) # _ \<Rightarrow> (if i = SQL_NULL_DATA then 0 else v) | _ \<Rightarrow> 0)
         in if \<not> ok then Some (HTTP_INTERNAL, out_buf, th1)
            else if \<not> found then Some (HTTP_OK, out_buf @ ''{}'', th1)
            else map_option snd (run_query (get_json E DB_1 ''SELECT demo.get_employee_orders_j(?)'' [PARAM_INT (Some employee_id)])
                   (HTTP_OK, out_buf, th1))))"


section \<open>Routes\<close>

definition route ::
  "cstring \<Rightarrow> evhttp_cmd_type \<Rightarrow> 'j ValidationContext option \<Rightarrow> ('j, 's) handler_fn \<Rightarrow> bool \<Rightarrow> auth_mode_t \<Rightarrow> ('j, 's) middleware_ctx_t"
where
  "route rpath meth vctx h fast auth =
     \<lparr>route_path = rpath, validation_ctx = vctx, handler = Some h, allowed_method = meth, auth_mode = auth, is_fast = fast\<rparr>"

definition g_routes :: "('j, 'w) app_env \<Rightarrow> ('j, 'w app) middleware_ctx_t list" where
  "g_routes E =
     (let J = ae_json E
      in [route ''/ping'' EVHTTP_REQ_GET None ping_handler True AUTH_NONE,
         route ''/version'' EVHTTP_REQ_GET None (version_handler E) True AUTH_API_KEY,
         route ''/sysinfo'' EVHTTP_REQ_GET None (sysinfo_handler E) True AUTH_API_KEY,
         route ''/rsysinfo'' EVHTTP_REQ_GET None (rsysinfo_handler E) False AUTH_JWT,
         route ''/rcustomer'' EVHTTP_REQ_POST (Some (CustomerContext J)) (rcustomer_handler E) False AUTH_JWT,
         route ''/customer'' EVHTTP_REQ_POST (Some (CustomerContext J)) (customer_handler E) True AUTH_JWT,
         route ''/sales'' EVHTTP_REQ_POST (Some (SalesContext J)) (sales_handler E) True AUTH_JWT,
         route ''/shippers'' EVHTTP_REQ_GET None (shippers_handler E) True AUTH_JWT,
         route ''/products'' EVHTTP_REQ_GET None (products_handler E) True AUTH_JWT,
         route ''/uuid'' EVHTTP_REQ_GET None (uuid_handler E) True AUTH_NONE,
         route ''/secretb32'' EVHTTP_REQ_GET None (secretb32_handler E) True AUTH_NONE,
         route ''/login'' EVHTTP_REQ_POST (Some LoginContext) (login_handler E) False AUTH_NONE,
         route ''/getqr'' EVHTTP_REQ_GET None (getqr_handler E) True AUTH_JWT,
         route ''/verifytotp'' EVHTTP_REQ_POST (Some (VerifyTotpContext J)) (verifytotp_handler E) True AUTH_JWT,
         route ''/metrics'' EVHTTP_REQ_GET None (metrics_handler E) True AUTH_API_KEY,
         route ''/employee'' EVHTTP_REQ_POST (Some EmployeeContext) (employee_handler E) True AUTH_JWT,
         route ''/prodget'' EVHTTP_REQ_POST (Some ProdgetContext) (prodget_handler E) True AUTH_JWT,
         route ''/supplier'' EVHTTP_REQ_POST (Some SupplierContext) (supplier_handler E) True AUTH_JWT,
         route ''/customers'' EVHTTP_REQ_POST (Some CustomersContext) (customers_handler E) True AUTH_JWT,
         route ''/salespgsql'' EVHTTP_REQ_POST (Some (SalesContext J)) (sales_pgsql_handler E) True AUTH_JWT,
         route ''/upload'' EVHTTP_REQ_POST (Some UploadContext) (upload_handler E) False AUTH_JWT,
         route ''/gasto'' EVHTTP_REQ_POST (Some GastoContext) (gasto_handler E) True AUTH_JWT,
         route ''/dummy'' EVHTTP_REQ_POST (Some DummyContext) (dummy_handler E) True AUTH_JWT,
         route ''/customer/get'' EVHTTP_REQ_POST (Some (CustomerContext J)) (customerget_handler E) True AUTH_JWT,
         route ''/emp/orders'' EVHTTP_REQ_POST (Some EmployeeContext) (emp_orders_handler E) True AUTH_JWT,
         route ''/emp/ordersj'' EVHTTP_REQ_POST (Some EmployeeContext) (emp_ordersj_handler E) True AUTH_JWT,
         route ''/coordinator'' EVHTTP_REQ_POST (Some (CoordinatorContext J)) (coordinator_handler E) True AUTH_JWT,
         route ''/coordinator2'' EVHTTP_REQ_POST (Some EmployeeContext) (coordinator2_handler E) True AUTH_JWT,
         route ''/coordinator3'' EVHTTP_REQ_POST (Some EmployeeContext) (coordinator3_handler E) True AUTH_JWT])"

end
