(* ===== verification/HandlerProps.thy ===== *)
theory HandlerProps
  imports Handlers
begin

text \<open>
  Properties of single handlers: uploads, metrics and the identifiers passed to queries.
\<close>

section \<open>A sample environment\<close>

definition sample_app_env :: "(jvalue, (cell \<times> int) list list) app_env" where
  "sample_app_env = \<lparr>ae_client = (sample_client (JObject []) Customer.answer)\<lparr>cl_cfg := sample_cfg\<lparr>g_uploads_dir := ''/up''\<rparr>\<rparr>,
     ae_json_text = (\<lambda>_. ''{}''), ae_odbc = sample_odbc [], ae_fuel = 5, ae_junk = CHR ''?'', ae_ind0 = 0, ae_totp = sample_totp,
     ae_secret = ''key'', ae_now = 1000, ae_sched = alone 1000 1001, ae_random = replicate 16 255, ae_random20 = replicate 20 (CHR ''x''),
     ae_stats = None, ae_statm = None, ae_page_size = 4096, ae_total_ram_kb = 1024, ae_start_time = ''2026-01-01T00:00:00'',
     ae_hostname = ''host'', ae_os_version = ''Linux 6'', ae_versions = (\<lambda>_. ''1.0''),
     ae_base642bin = (\<lambda>p n room. case p of Some ''AAEC'' \<Rightarrow> Some [CHR 0x00, CHR 0x01, CHR 0x02] | _ \<Rightarrow> None),
     ae_malloc = True, ae_is_dir = (\<lambda>_. True), ae_fopen = (\<lambda>_. True), ae_fwrite = id, ae_fclose = id, ae_errno_text = ''error''\<rparr>"

definition no_app :: "(cell \<times> int) list list app" where
  "no_app = \<lparr>app_db = sample_db, app_jwt = initial_jwt_state, app_log = [], app_files = []\<rparr>"


section \<open>Metrics\<close>

lemma length_metric:
  "length (metric h name help kind v) = 33 + length h + 3 * length name + length help + length kind + length (dec (unat v))"
  by (simp add: metric_def json_quote_def newline_def)

definition metric_digits :: "('j, 'w) app_env \<Rightarrow> nat" where
  "metric_digits E =
     (let stats = server_get_request_stats (ae_stats E); used = server_get_memory_stats (ae_statm E) (ae_page_size E)
      in sum_list (map (\<lambda>w. length (dec (unat w)))
           [rs_total_requests stats, rs_total_requests_fast stats, rs_total_requests_slow stats, rs_total_time_ms stats,
            rs_total_time_fast_ms stats, rs_total_time_slow_ms stats, used * 1024, ae_total_ram_kb E * 1024]))"

lemma length_metrics_text: "length (metrics_text E) = 1541 + 8 * length (ae_hostname E) + metric_digits E"
  by (simp add: metrics_text_def metric_digits_def Let_def length_metric newline_def)

lemma length_dec_u64: "length (dec (unat (w :: 64 word))) \<le> 20"
proof (rule length_dec_le)
  have "unat w < 2 ^ 64" using unsigned_less [of w] by simp
  then show "unat w < 10 ^ 20" by simp
qed simp

lemma sum_list_bounds:
  "(\<And>x. l \<le> f x \<and> f x \<le> (u :: nat)) \<Longrightarrow> l * length xs \<le> sum_list (map f xs) \<and> sum_list (map f xs) \<le> u * length xs"
proof (induction xs)
  case (Cons x xs)
  then show ?case using Cons.prems [of x] by (simp add: add_mono)
qed simp

lemma metric_digits_bounds: "8 \<le> metric_digits E" "metric_digits E \<le> 160"
proof -
  have d: "1 \<le> length (dec (unat w)) \<and> length (dec (unat w)) \<le> 20" for w :: "64 word"
    using length_dec_u64 [of w] dec_nonempty [of "unat w"] by (simp add: Suc_le_eq)
  have b: "1 * length ws \<le> sum_list (map (\<lambda>w :: 64 word. length (dec (unat w))) ws) \<and>
      sum_list (map (\<lambda>w. length (dec (unat w))) ws) \<le> 20 * length ws" for ws
    by (rule sum_list_bounds [OF d])
  show "8 \<le> metric_digits E"
    unfolding metric_digits_def Let_def by (rule order_trans [OF _ conjunct1 [OF b]]) simp
  show "metric_digits E \<le> 160"
    unfolding metric_digits_def Let_def by (rule order_trans [OF conjunct2 [OF b]]) simp
qed

text \<open>C39: Metrics are complete, whatever the counters, for host names of up to 43 characters, and always cut for host names of 63 and more:
  the buffer of 2048 bytes has room for eight repetitions of the name only up to a point, and the last sample then loses
  its value or its end of line.\<close>

theorem metrics_complete:
  "metrics_handler E body (status, out_buf, th) =
     Some (HTTP_OK, out_buf @ take 2047 (metrics_text E), set_type ''text/plain; version=0.0.4'' th) \<and>
   (length (ae_hostname E) \<le> 43 \<longrightarrow> take 2047 (metrics_text E) = metrics_text E) \<and>
   (63 \<le> length (ae_hostname E) \<longrightarrow> take 2047 (metrics_text E) \<noteq> metrics_text E)"
proof -
  have "length (metrics_text E) \<le> 2047" if "length (ae_hostname E) \<le> 43"
    using that metric_digits_bounds [of E] by (simp add: length_metrics_text)
  moreover have "length (take 2047 (metrics_text E)) < length (metrics_text E)" if "63 \<le> length (ae_hostname E)"
    using that metric_digits_bounds [of E] by (simp add: length_metrics_text)
  ultimately show ?thesis
    by (auto simp: metrics_handler_def snprintf_def)
qed

theorem metrics_complete_witness:
  "(\<exists>th. metrics_handler sample_app_env None (0, [], clean_thread no_app) = Some (HTTP_OK, metrics_text sample_app_env, th)) \<and>
   take 2047 (metrics_text (sample_app_env\<lparr>ae_hostname := replicate 63 (CHR ''a'')\<rparr>)) \<noteq>
     metrics_text (sample_app_env\<lparr>ae_hostname := replicate 63 (CHR ''a'')\<rparr>)"
proof
  have "length (ae_hostname sample_app_env) \<le> 43"
    by (simp add: sample_app_env_def)
  then show "\<exists>th. metrics_handler sample_app_env None (0, [], clean_thread no_app) = Some (HTTP_OK, metrics_text sample_app_env, th)"
    using metrics_complete [of sample_app_env None 0 "[]" "clean_thread no_app"] by simp
  let ?E = "sample_app_env\<lparr>ae_hostname := replicate 63 (CHR ''a'')\<rparr>"
  have "63 \<le> length (ae_hostname ?E)"
    by simp
  then show "take 2047 (metrics_text ?E) \<noteq> metrics_text ?E"
    using metrics_complete [of ?E None 0 "[]" "clean_thread no_app"] by blast
qed


section \<open>Identifiers\<close>

text \<open>The handlers that pass the member \<open>id\<close> of the payload, read as a 64-bit number, to a query as a 32-bit number.\<close>

definition id_handlers :: "('j, 'w) app_env \<Rightarrow> ('j, 'w app) handler_fn list" where
  "id_handlers E = [employee_handler E, prodget_handler E, supplier_handler E, gasto_handler E, emp_orders_handler E, emp_ordersj_handler E,
     dummy_handler E, coordinator2_handler E, coordinator3_handler E]"

lemma ucast_eq_mod: "(ucast w :: 32 word) = ucast w' \<longleftrightarrow> unat (w :: 64 word) mod 2 ^ 32 = unat (w' :: 64 word) mod 2 ^ 32"
proof -
  have "unat (ucast v :: 32 word) = unat v mod 2 ^ 32" for v :: "64 word"
    by (simp add: unsigned_ucast_eq take_bit_eq_mod)
  then show ?thesis
    using unsigned_word_eqI [where 'a = nat, of "ucast w :: 32 word" "ucast w'"] by metis
qed

text \<open>C40: Identifiers are narrowed to 32 bits after their validation, with any JSON library. Two payloads whose \<open>id\<close> differs by a multiple of
  two to the 32 get the same answer from every handler that queries by \<open>id\<close>, although the schema accepts an integer on its
  value saturated to 32 bits: every \<open>id\<close> that saturates to at least 1 is accepted, so payloads with an \<open>id\<close> far above the
  32-bit range are answered with the data of another record.\<close>

theorem id_narrowed:
  assumes "unat (json_get_int (ae_json E) (Some b) ''id'') mod 2 ^ 32 = unat (json_get_int (ae_json E) (Some b') ''id'') mod 2 ^ 32"
    "json_strings_ok (ae_json E)" "json_types_ok (ae_json E)" "json_object_is_type (ae_json E) (Some b) json_type_object"
    "json_object_object_get_ex (ae_json E) (Some b) ''id'' = Some (Some v)" "json_object_is_type (ae_json E) (Some v) json_type_int"
    "1 \<le> sint (json_object_get_int (ae_json E) (Some v))"
  shows "(\<forall>h \<in> set (id_handlers E). h (Some b) = h (Some b')) \<and>
    (\<exists>e. validate_json (ae_json E) (Some ProdgetContext) (Some b) (Some []) 1024 = Some (True, e))"
proof
  have "int_param E (Some b) ''id'' = int_param E (Some b') ''id''"
    using assms(1) by (simp add: int_param_def ucast_eq_mod)
  then show "\<forall>h \<in> set (id_handlers E). h (Some b) = h (Some b')"
    by (simp add: id_handlers_def employee_handler_def prodget_handler_def supplier_handler_def gasto_handler_def emp_orders_handler_def
        emp_ordersj_handler_def dummy_handler_def coordinator2_handler_def coordinator3_handler_def fun_eq_iff)
  have "\<not> check_field_empty (ae_json E) (Some v)"
    using json_type_unique [OF assms(3,6)] by (auto simp: check_field_empty_def)
  then have "\<forall>f \<in> set (schema ProdgetContext). field_accepts (ae_json E) (\<lambda>_ _. True) b f"
    using assms(5-7) by (simp add: schema_defs field_accepts_def type_accepts_def field_type_defs min_int_def)
  then show "\<exists>e. validate_json (ae_json E) (Some ProdgetContext) (Some b) (Some []) 1024 = Some (True, e)"
    using prodget.validate_decides [OF assms(2), of 1024 b "[]"] assms(4) by auto
qed

theorem id_narrowed_witness:
  "prodget_handler sample_app_env (Some (JObject [(''id'', Some (JInt 4294967297))])) =
     prodget_handler sample_app_env (Some (JObject [(''id'', Some (JInt 1))])) \<and>
   (\<exists>e. validate_json ref_json (Some ProdgetContext) (Some (JObject [(''id'', Some (JInt 4294967297))])) (Some []) 1024 = Some (True, e))"
proof -
  have J: "ae_json sample_app_env = ref_json"
    by (simp add: sample_app_env_def sample_client_def)
  let ?b = "JObject [(''id'', Some (JInt 4294967297))]"
  have "unat (json_get_int (ae_json sample_app_env) (Some ?b) ''id'') mod 2 ^ 32 =
      unat (json_get_int (ae_json sample_app_env) (Some (JObject [(''id'', Some (JInt 1))])) ''id'') mod 2 ^ 32"
    by (simp add: J json_get_int_def ref_json_def ref_int_def)
  moreover have "json_object_is_type ref_json (Some ?b) json_type_object"
      "json_object_object_get_ex ref_json (Some ?b) ''id'' = Some (Some (JInt 4294967297))"
      "json_object_is_type ref_json (Some (JInt 4294967297)) json_type_int" "1 \<le> sint (json_object_get_int ref_json (Some (JInt 4294967297)))"
    by (simp_all add: ref_json_def ref_int_def)
  ultimately show ?thesis
    using id_narrowed [where E = sample_app_env, unfolded J, OF _ ref_json_strings ref_json_types] by (simp add: J id_handlers_def)
qed


section \<open>Uploads\<close>

lemma uuid_length: "length random = 16 \<Longrightarrow> length (generate_uuidv4 random) = 36"
  using uuidv4_format [of random] by blast

lemma uuid_no_separator:
  assumes "length random = 16"
  shows "set (generate_uuidv4 random) \<subseteq> set ''0123456789abcdef-''"
proof
  fix c assume "c \<in> set (generate_uuidv4 random)"
  then obtain i where i: "i < 36" "c = generate_uuidv4 random ! i"
    using uuid_length [OF assms] by (metis in_set_conv_nth)
  then have "c = CHR 0x2D \<or> is_hex c"
    using uuidv4_format [OF assms] by metis
  then show "c \<in> set ''0123456789abcdef-''"
    by (auto simp: is_hex_def hex_chars_def)
qed

definition upload_path :: "('j, 'w) app_env \<Rightarrow> cstring" where
  "upload_path E = g_uploads_dir (ae_cfg E) @ ''/'' @ generate_uuidv4 (ae_random E)"

lemma upload_path_fits:
  assumes "length (ae_random E) = 16" "length (g_uploads_dir (ae_cfg E)) < MAX_CONFIG_STR"
  shows "snprintf (upload_path E) (MAX_CONFIG_STR + 64) = upload_path E"
  using assms by (intro snprintf_fits) (simp add: upload_path_def uuid_length)

lemma note_log_files [simp]:
  "app_files (th_app (note_log level msg th)) = app_files (th_app th)" "app_db (th_app (note_log level msg th)) = app_db (th_app th)"
  "app_jwt (th_app (note_log level msg th)) = app_jwt (th_app th)"
  by (simp_all add: note_log_def)

lemma upload_is_valid_dir_files [simp]: "app_files (th_app (snd (upload_is_valid_dir E dir th))) = app_files (th_app th)"
  by (simp add: upload_is_valid_dir_def)

lemma cleanup_file_files [simp]:
  "app_files (th_app (cleanup_file E p bs th)) = (p, take (ae_fclose E (length bs)) bs) # app_files (th_app th)"
  by (simp add: cleanup_file_def)

text \<open>C12: Whatever a payload gives as file name, title or content, an upload touches at most the one file whose name is a fresh UUID in the
  configured directory, a name without any separator. It writes to it only bytes of the decoded blob, from its start, and
  is answered with 200 exactly when the stream accepted all of them. The file then holds the complete blob exactly when
  closing it also succeeds, which the handler does not look at: if the buffered bytes cannot be written on closing, the
  client gets 200 for an incomplete file.\<close>

theorem upload_confined:
  assumes "length (ae_random E) = 16" "length (g_uploads_dir (ae_cfg E)) < MAX_CONFIG_STR"
    "upload_handler E body (status, out_buf, th) = Some (status', out', th')"
  shows "set (generate_uuidv4 (ae_random E)) \<subseteq> set ''0123456789abcdef-'' \<and>
    (app_files (th_app th') = app_files (th_app th) \<and> status' \<noteq> HTTP_OK \<or>
     (\<exists>blob b64_len room bytes accepted stored. json_get_string_ex (ae_json E) body ''blob'' 0 = (blob, b64_len) \<and>
        bin_maxlen b64_len = Some room \<and> ae_base642bin E blob (nat (sint b64_len)) room = Some bytes \<and>
        accepted = take (ae_fwrite E (length bytes)) bytes \<and> stored = take (ae_fclose E (length accepted)) accepted \<and>
        app_files (th_app th') = (upload_path E, stored) # app_files (th_app th) \<and>
        (status' = HTTP_OK \<longleftrightarrow> ae_fwrite E (length bytes) = length bytes) \<and>
        (status' = HTTP_OK \<longrightarrow> (stored = bytes \<longleftrightarrow> length bytes \<le> ae_fclose E (length bytes)))))"
proof -
  obtain blob b64_len where b: "json_get_string_ex (ae_json E) body ''blob'' 0 = (blob, b64_len)"
    by (metis prod.exhaust)
  obtain dir_ok th1 where d: "upload_is_valid_dir E (g_uploads_dir (ae_cfg E)) th = (dir_ok, th1)"
    by (metis prod.exhaust)
  have f: "app_files (th_app th1) = app_files (th_app th)"
    using upload_is_valid_dir_files [of E "g_uploads_dir (ae_cfg E)" th] d by simp
  note u = upload_path_fits [OF assms(1,2), unfolded upload_path_def]
  have t: "take (min k (length xs)) xs = take k xs" for k and xs :: string
    by (simp add: min_def)
  show ?thesis
    using assms(3) f uuid_no_separator [OF assms(1)]
    unfolding upload_handler_def prod.case Let_def b d u
    by (auto simp: b upload_path_def t split: if_splits option.splits)
qed

lemma bin_maxlen_room:
  assumes "length b64 < 2 ^ 31" "length b64 = 4 * ((length bs + 2) div 3)"
  shows "\<exists>room. bin_maxlen (word_of_nat (length b64)) = Some room \<and> length bs \<le> room" "nat (sint (word_of_nat (length b64) :: 32 word)) = length b64"
proof -
  have s: "sint (word_of_nat (length b64) :: 32 word) = int (length b64)"
    using assms(1) sint_word_of_int_range [where 'a = 32, of "int (length b64)"] by simp
  define k where "k = (length bs + 2) div 3"
  have k: "length bs \<le> 3 * k" "length b64 = 4 * k" "int k < 2 ^ 31"
    using assms by (simp_all add: k_def)
  have "c_div (int (4 * k)) 4 = int k"
    by (simp add: c_div_def sgn_if)
  then have "bin_maxlen (word_of_nat (length b64)) = Some (nat (int k * 3 + 4))"
    using k s by (simp add: bin_maxlen_def ckd_size_def)
  then show "\<exists>room. bin_maxlen (word_of_nat (length b64)) = Some room \<and> length bs \<le> room"
    using k(1) by simp
  show "nat (sint (word_of_nat (length b64) :: 32 word)) = length b64"
    by (simp add: s)
qed

text \<open>C38: An upload of the padded base64 text of some bytes stores exactly these bytes and answers with their number and the name of the
  file, when the directory exists, the buffer can be allocated, the file can be opened, the stream accepts the bytes and
  closing it writes them: the decoding buffer always has room for them, and the answer is never cut.\<close>

theorem upload_stored:
  assumes "length (ae_random E) = 16" "length (g_uploads_dir (ae_cfg E)) < MAX_CONFIG_STR" "g_uploads_dir (ae_cfg E) \<noteq> []"
    "ae_is_dir E (g_uploads_dir (ae_cfg E))" "ae_malloc E" "ae_fopen E (upload_path E)" "ae_fwrite E (length bs) = length bs"
    "length bs \<le> ae_fclose E (length bs)"
    "json_get_string_ex (ae_json E) body ''blob'' 0 = (Some b64, word_of_nat (length b64))" "length b64 < 2 ^ 31"
    "length b64 = 4 * ((length bs + 2) div 3)"
    "\<forall>room. length bs \<le> room \<longrightarrow> ae_base642bin E (Some b64) (length b64) room = Some bs"
  shows "\<exists>th'. upload_handler E body (status, out_buf, th) =
      Some (HTTP_OK, out_buf @ json_object_of [(''status'', json_quote ''ok''), (''uuid'', json_quote (generate_uuidv4 (ae_random E))),
        (''size'', dec (length bs))], th') \<and>
    app_files (th_app th') = (upload_path E, bs) # app_files (th_app th)"
proof -
  note u = upload_path_fits [OF assms(1,2), unfolded upload_path_def]
  obtain room where r: "bin_maxlen (word_of_nat (length b64)) = Some room" "length bs \<le> room"
    using bin_maxlen_room(1) [OF assms(10,11)] by blast
  have "length bs \<le> length b64"
    using assms(11) by linarith
  then have "length (dec (length bs)) \<le> 10"
    using assms(10) by (intro length_dec_le) simp_all
  then have a: "snprintf (json_object_of [(''status'', json_quote ''ok''), (''uuid'', json_quote (generate_uuidv4 (ae_random E))),
      (''size'', dec (length bs))]) 256 = json_object_of [(''status'', json_quote ''ok''),
      (''uuid'', json_quote (generate_uuidv4 (ae_random E))), (''size'', dec (length bs))]"
    by (intro snprintf_fits) (simp add: json_object_of_def json_member_def json_quote_def uuid_length [OF assms(1)])
  show ?thesis
    unfolding upload_handler_def prod.case Let_def assms(9) u upload_is_valid_dir_def
    using assms(3-8) a r bin_maxlen_room(2) [OF assms(10,11)] assms(12) by (simp add: upload_path_def)
qed

lemma sample_upload_env:
  "length (ae_random sample_app_env) = 16" "g_uploads_dir (ae_cfg sample_app_env) = ''/up''" "ae_is_dir sample_app_env d"
  "ae_malloc sample_app_env" "ae_fopen sample_app_env f" "ae_fwrite sample_app_env n = n" "n \<le> ae_fclose sample_app_env n" "ae_json sample_app_env = ref_json"
  "ae_base642bin sample_app_env (Some ''AAEC'') k room = Some [CHR 0x00, CHR 0x01, CHR 0x02]"
  by (simp_all add: sample_app_env_def sample_client_def)

definition sample_upload :: jvalue where
  "sample_upload = JObject [(''filename'', Some (JString ''../../etc/passwd'')), (''blob'', Some (JString ''AAEC''))]"

lemma sample_upload_blob: "json_get_string_ex (ae_json sample_app_env) (Some sample_upload) ''blob'' 0 = (Some ''AAEC'', word_of_nat (length ''AAEC''))"
  by (simp add: sample_upload_env json_get_string_ex_def sample_upload_def ref_json_def c_str_def)

theorem upload_stored_witness:
  "\<exists>out th'. upload_handler sample_app_env (Some sample_upload) (0, [], clean_thread no_app) = Some (HTTP_OK, out, th') \<and>
    app_files (th_app th') = [(upload_path sample_app_env, [CHR 0x00, CHR 0x01, CHR 0x02])]"
proof -
  have "\<forall>room. length [CHR 0x00, CHR 0x01, CHR 0x02] \<le> room \<longrightarrow>
      ae_base642bin sample_app_env (Some ''AAEC'') (length ''AAEC'') room = Some [CHR 0x00, CHR 0x01, CHR 0x02]"
    by (simp add: sample_upload_env)
  from upload_stored [OF sample_upload_env(1) _ _ sample_upload_env(3,4,5,6,7) sample_upload_blob _ _ this, of 0 "[]" "clean_thread no_app"]
  show ?thesis
    by (auto simp: sample_upload_env MAX_CONFIG_STR_def clean_thread_def no_app_def)
qed

text \<open>A disk that fills up while the buffered bytes are written.\<close>

definition full_disk_env :: "(jvalue, (cell \<times> int) list list) app_env" where
  "full_disk_env = sample_app_env\<lparr>ae_fclose := (\<lambda>_. 1)\<rparr>"

theorem upload_confined_witness:
  "\<exists>out th'. upload_handler full_disk_env (Some sample_upload) (0, [], clean_thread no_app) = Some (HTTP_OK, out, th') \<and>
    app_files (th_app th') = [(upload_path full_disk_env, [CHR 0x00])]"
proof -
  have e: "length (ae_random full_disk_env) = 16" "length (g_uploads_dir (ae_cfg full_disk_env)) < MAX_CONFIG_STR"
      "json_get_string_ex (ae_json full_disk_env) (Some sample_upload) ''blob'' 0 = (Some ''AAEC'', word_of_nat (length ''AAEC''))"
      "ae_base642bin full_disk_env (Some ''AAEC'') k room = Some [CHR 0x00, CHR 0x01, CHR 0x02]" "ae_fwrite full_disk_env n = n"
      "ae_fclose full_disk_env n = 1" for k room n
    using sample_upload_blob by (simp_all add: full_disk_env_def sample_upload_env MAX_CONFIG_STR_def)
  have "\<exists>out th'. upload_handler full_disk_env (Some sample_upload) (0, [], clean_thread no_app) = Some (HTTP_OK, out, th')"
    using bin_maxlen_room(1) [of "''AAEC''" "[CHR 0x00, CHR 0x01, CHR 0x02]"]
    by (auto simp: upload_handler_def e Let_def upload_is_valid_dir_def) (simp_all add: full_disk_env_def sample_upload_env)
  then obtain out th' where r: "upload_handler full_disk_env (Some sample_upload) (0, [], clean_thread no_app) = Some (HTTP_OK, out, th')"
    by blast
  have "app_files (th_app (clean_thread no_app)) = []"
    by (simp add: clean_thread_def no_app_def)
  with upload_confined [OF e(1,2) r] have "app_files (th_app th') = [(upload_path full_disk_env, [CHR 0x00])]"
    by (auto simp: e)
  with r show ?thesis by blast
qed

end
