(* ===== verification/FixedSql.thy ===== *)
theory FixedSql
  imports Handlers
begin

text \<open>
  The SQL texts of the handlers are constants: whatever a request contains, a handler executes no other text. Values of a
  request reach the driver as bound parameters only.

  The statement is one of non-interference: the handlers behave the same with a driver that does anything at all on other
  texts. The lemmas say that the functions of the database layer other than the execution itself do not depend on how the
  driver executes a text.
\<close>

definition sql_texts :: "cstring list" where
  "sql_texts =
     [''{CALL cpp_get_secret(?)}'', ''{CALL sp_customer_get(?)}'', ''{CALL sp_sales_by_category(?,?)}'', ''{CALL sp_shippers_view}'',
      ''{CALL sp_products_view}'', ''{CALL emp_get(?)}'', ''{CALL product_get(?)}'', ''{CALL supplier_get(?)}'',
      ''{CALL sp_customers_like(?)}'', ''select get_sales_by_category(?, ?)'', gasto_sql, ''{CALL dbo.get_customer_info(?)}'',
      ''{CALL dbo.get_emp_orders(?)}'', ''SELECT demo.get_employee_orders_j(?)'', dummy_sql, ''{CALL dbo.coordinator(?, ?)}'',
      ''EXEC emp_get @id = ?'']"

text \<open>The driver that treats other texts as given.\<close>

definition other_sql :: "(nat \<Rightarrow> cstring \<Rightarrow> 'w \<Rightarrow> SQLRETURN \<times> 'w) \<Rightarrow> 'w odbc \<Rightarrow> 'w odbc" where
  "other_sql g O' = O'\<lparr>odbc_exec := (\<lambda>h q w. if q \<in> set sql_texts then odbc_exec O' h q w else g h q w)\<rparr>"

named_theorems exec_free \<open>functions that do not depend on the execution of texts\<close>

lemma odbc_fields_exec [exec_free]:
  "odbc_alloc (O'\<lparr>odbc_exec := f\<rparr>) = odbc_alloc O'"
  "odbc_set_attr (O'\<lparr>odbc_exec := f\<rparr>) = odbc_set_attr O'"
  "odbc_connect (O'\<lparr>odbc_exec := f\<rparr>) = odbc_connect O'"
  "odbc_diag (O'\<lparr>odbc_exec := f\<rparr>) = odbc_diag O'"
  "odbc_free (O'\<lparr>odbc_exec := f\<rparr>) = odbc_free O'"
  "odbc_close (O'\<lparr>odbc_exec := f\<rparr>) = odbc_close O'"
  "odbc_bind_parameter (O'\<lparr>odbc_exec := f\<rparr>) = odbc_bind_parameter O'"
  "odbc_num_cols (O'\<lparr>odbc_exec := f\<rparr>) = odbc_num_cols O'"
  "odbc_describe (O'\<lparr>odbc_exec := f\<rparr>) = odbc_describe O'"
  "odbc_bind_col (O'\<lparr>odbc_exec := f\<rparr>) = odbc_bind_col O'"
  "odbc_fetch (O'\<lparr>odbc_exec := f\<rparr>) = odbc_fetch O'"
  "odbc_get_data (O'\<lparr>odbc_exec := f\<rparr>) = odbc_get_data O'"
  "odbc_more (O'\<lparr>odbc_exec := f\<rparr>) = odbc_more O'"
  "odbc_memory (O'\<lparr>odbc_exec := f\<rparr>) = odbc_memory O'"
  by simp_all

lemma free_handle_exec [exec_free]: "free_handle (O'\<lparr>odbc_exec := f\<rparr>) = free_handle O'"
  by (intro ext) (simp only: free_handle_def exec_free)

lemma db_reset_connection_exec [exec_free]: "db_reset_connection (O'\<lparr>odbc_exec := f\<rparr>) = db_reset_connection O'"
  by (intro ext) (simp only: db_reset_connection_def exec_free)

lemma db_set_error_exec [exec_free]: "db_set_error (O'\<lparr>odbc_exec := f\<rparr>) = db_set_error O'"
  by (intro ext) (simp only: db_set_error_def exec_free)

lemma db_connect_exec [exec_free]: "db_connect (O'\<lparr>odbc_exec := f\<rparr>) = db_connect O'"
  by (intro ext) (simp only: db_connect_def exec_free)

lemma db_alloc_stmt_exec [exec_free]: "db_alloc_stmt (O'\<lparr>odbc_exec := f\<rparr>) = db_alloc_stmt O'"
  by (intro ext) (simp only: db_alloc_stmt_def exec_free)

lemma db_cleanup_stmt_exec [exec_free]: "db_cleanup_stmt (O'\<lparr>odbc_exec := f\<rparr>) = db_cleanup_stmt O'"
  by (intro ext) (simp only: db_cleanup_stmt_def exec_free)

lemma db_bind_param_exec [exec_free]: "db_bind_param (O'\<lparr>odbc_exec := f\<rparr>) = db_bind_param O'"
  by (intro ext) (simp only: db_bind_param_def exec_free)

lemma bind_params_exec [exec_free]: "bind_params (O'\<lparr>odbc_exec := f\<rparr>) db_id h i ps s = bind_params O' db_id h i ps s"
proof (induction ps arbitrary: i s)
  case (Cons x ps)
  show ?case by (cases x) (simp_all only: bind_params.simps Let_def exec_free Cons.IH)
qed (simp only: bind_params.simps)

lemma db_prepare_and_bind_exec [exec_free]: "db_prepare_and_bind (O'\<lparr>odbc_exec := f\<rparr>) = db_prepare_and_bind O'"
  by (intro ext) (simp only: db_prepare_and_bind_def exec_free)

lemma metadata_destroy_exec [exec_free]: "metadata_destroy (O'\<lparr>odbc_exec := f\<rparr>) = metadata_destroy O'"
  by (intro ext) (simp only: metadata_destroy_def exec_free)

lemma new_column_exec [exec_free]: "new_column (O'\<lparr>odbc_exec := f\<rparr>) = new_column O'"
  by (intro ext) (simp only: new_column_def exec_free)

lemma setup_column_metadata_exec [exec_free]:
  "setup_column_metadata (O'\<lparr>odbc_exec := f\<rparr>) junk db_id h i n a s = setup_column_metadata O' junk db_id h i n a s"
proof (induction n arbitrary: i a s)
  case (Suc n)
  show ?case by (simp_all only: setup_column_metadata.simps Let_def exec_free Suc.IH)
qed (simp only: setup_column_metadata.simps)

lemma alloc_metadata_cols_exec [exec_free]: "alloc_metadata_cols (O'\<lparr>odbc_exec := f\<rparr>) = alloc_metadata_cols O'"
  by (intro ext) (simp only: alloc_metadata_cols_def exec_free)

lemma bind_cols_exec [exec_free]: "bind_cols (O'\<lparr>odbc_exec := f\<rparr>) db_id h i off cols s = bind_cols O' db_id h i off cols s"
proof (induction cols arbitrary: i off s)
  case (Cons x cols)
  show ?case by (cases x) (simp_all only: bind_cols.simps Let_def exec_free Cons.IH)
qed (simp only: bind_cols.simps)

lemma odbc_bind_resultset_metadata_exec [exec_free]:
  "odbc_bind_resultset_metadata (O'\<lparr>odbc_exec := f\<rparr>) = odbc_bind_resultset_metadata O'"
  by (intro ext) (simp only: odbc_bind_resultset_metadata_def exec_free)

lemma fetch_rows_exec [exec_free]:
  "fetch_rows n (O'\<lparr>odbc_exec := f\<rparr>) junk db_id h cols first js = fetch_rows n O' junk db_id h cols first js"
proof (induction n arbitrary: first js)
  case (Suc n)
  show ?case by (cases js) (simp_all only: fetch_rows.simps Let_def exec_free Suc.IH)
qed (simp only: fetch_rows.simps)

lemma fetch_resultset_array_exec [exec_free]: "fetch_resultset_array n (O'\<lparr>odbc_exec := f\<rparr>) = fetch_resultset_array n O'"
  by (intro ext) (simp only: fetch_resultset_array_def exec_free)

lemma db_fetch_rs2json_exec [exec_free]: "db_fetch_rs2json n (O'\<lparr>odbc_exec := f\<rparr>) = db_fetch_rs2json n O'"
  by (intro ext) (simp only: db_fetch_rs2json_def exec_free)

lemma num_result_cols_exec [exec_free]: "num_result_cols (O'\<lparr>odbc_exec := f\<rparr>) = num_result_cols O'"
  by (intro ext) (simp only: num_result_cols_def exec_free)

lemma jsonm_loop_exec [exec_free]:
  "jsonm_loop n m (O'\<lparr>odbc_exec := f\<rparr>) junk db_id h r has cc st = jsonm_loop n m O' junk db_id h r has cc st"
proof (induction n arbitrary: r has cc st)
  case (Suc n)
  show ?case by (cases st) (simp_all only: jsonm_loop.simps Let_def exec_free Suc.IH)
qed (simp only: jsonm_loop.simps)

lemma db_fetch_jsonm_native_exec [exec_free]: "db_fetch_jsonm_native n (O'\<lparr>odbc_exec := f\<rparr>) = db_fetch_jsonm_native n O'"
  by (intro ext) (simp only: db_fetch_jsonm_native_def exec_free)

lemma fetch_json_native_col_loop_exec [exec_free]:
  "fetch_json_native_col_loop n (O'\<lparr>odbc_exec := f\<rparr>) db_id h ind st = fetch_json_native_col_loop n O' db_id h ind st"
proof (induction n arbitrary: ind st)
  case (Suc n)
  show ?case by (cases st) (simp_all only: fetch_json_native_col_loop.simps Let_def exec_free Suc.IH)
qed (simp only: fetch_json_native_col_loop.simps)

lemma fetch_json_rows_exec [exec_free]:
  "fetch_json_rows n m (O'\<lparr>odbc_exec := f\<rparr>) ind0 db_id h has st = fetch_json_rows n m O' ind0 db_id h has st"
proof (induction n arbitrary: has st)
  case (Suc n)
  show ?case by (cases st) (simp_all only: fetch_json_rows.simps Let_def exec_free Suc.IH)
qed (simp only: fetch_json_rows.simps)

lemma db_fetch_json_native_exec [exec_free]: "db_fetch_json_native n (O'\<lparr>odbc_exec := f\<rparr>) = db_fetch_json_native n O'"
  by (intro ext) (simp only: db_fetch_json_native_def exec_free)

lemma bind_outputs_exec [exec_free]: "bind_outputs (O'\<lparr>odbc_exec := f\<rparr>) db_id h i outs s = bind_outputs O' db_id h i outs s"
proof (induction outs arbitrary: i s)
  case (Cons x outs)
  show ?case by (cases x) (simp_all only: bind_outputs.simps Let_def exec_free Cons.IH)
qed (simp only: bind_outputs.simps)


section \<open>Queries\<close>

lemma odbc_exec_update: "odbc_exec (O'\<lparr>odbc_exec := f\<rparr>) = f"
  by simp

lemma execute_other_sql:
  assumes "q \<in> set sql_texts"
  shows "db_execute_and_fetch (other_sql g O') cfg junk db_id q ps cb st = db_execute_and_fetch O' cfg junk db_id q ps cb st"
  by (simp only: db_execute_and_fetch_def other_sql_def exec_free odbc_exec_update assms if_True)

lemma query_single_row_other_sql:
  assumes "q \<in> set sql_texts"
  shows "db_query_single_row (other_sql g O') cfg db_id q ps outs s = db_query_single_row O' cfg db_id q ps outs s"
  by (simp only: db_query_single_row_def other_sql_def exec_free odbc_exec_update assms if_True)

lemma fetch_other_sql:
  "db_fetch_json_native n (other_sql g O') = db_fetch_json_native n O'"
  "db_fetch_rs2json n (other_sql g O') = db_fetch_rs2json n O'"
  "db_fetch_jsonm_native n (other_sql g O') = db_fetch_jsonm_native n O'"
  by (simp_all only: other_sql_def exec_free)

text \<open>The environment with the other driver.\<close>

definition other_env :: "(nat \<Rightarrow> cstring \<Rightarrow> 'w \<Rightarrow> SQLRETURN \<times> 'w) \<Rightarrow> ('j, 'w) app_env \<Rightarrow> ('j, 'w) app_env" where
  "other_env g E = E\<lparr>ae_odbc := other_sql g (ae_odbc E)\<rparr>"

lemma queries_other_sql:
  assumes "q \<in> set sql_texts"
  shows "get_json (other_env g E) db_id q ps = get_json E db_id q ps"
    "get_rs2json (other_env g E) db_id q ps = get_rs2json E db_id q ps"
    "get_rs2json_m (other_env g E) db_id q ps = get_rs2json_m E db_id q ps"
  by (auto intro!: ext simp: get_json_def get_rs2json_def get_rs2json_m_def db_get_json_def db_get_rs2json_def db_get_rs2json_m_def
      other_env_def execute_other_sql [OF assms] fetch_other_sql)

lemma sql_texts_mem [simp]:
  "''{CALL cpp_get_secret(?)}'' \<in> set sql_texts" "''{CALL sp_customer_get(?)}'' \<in> set sql_texts"
  "''{CALL sp_sales_by_category(?,?)}'' \<in> set sql_texts" "''{CALL sp_shippers_view}'' \<in> set sql_texts"
  "''{CALL sp_products_view}'' \<in> set sql_texts" "''{CALL emp_get(?)}'' \<in> set sql_texts" "''{CALL product_get(?)}'' \<in> set sql_texts"
  "''{CALL supplier_get(?)}'' \<in> set sql_texts" "''{CALL sp_customers_like(?)}'' \<in> set sql_texts"
  "''select get_sales_by_category(?, ?)'' \<in> set sql_texts" "gasto_sql \<in> set sql_texts" "''{CALL dbo.get_customer_info(?)}'' \<in> set sql_texts"
  "''{CALL dbo.get_emp_orders(?)}'' \<in> set sql_texts" "''SELECT demo.get_employee_orders_j(?)'' \<in> set sql_texts" "dummy_sql \<in> set sql_texts"
  "''{CALL dbo.coordinator(?, ?)}'' \<in> set sql_texts" "''EXEC emp_get @id = ?'' \<in> set sql_texts"
  unfolding sql_texts_def by (simp_all only: list.set insert_iff simp_thms)

lemma get_secret_other_sql: "get_secret (other_sql g O') = get_secret O'"
  by (intro ext) (simp only: get_secret_def query_single_row_other_sql sql_texts_mem)

lemma env_other_sql:
  "ae_client (other_env g E) = ae_client E" "ae_totp (other_env g E) = ae_totp E" "ae_odbc (other_env g E) = other_sql g (ae_odbc E)"
  "ae_json_text (other_env g E) = ae_json_text E" "ae_secret (other_env g E) = ae_secret E" "ae_now (other_env g E) = ae_now E"
  "ae_sched (other_env g E) = ae_sched E" "ae_random (other_env g E) = ae_random E" "ae_random20 (other_env g E) = ae_random20 E"
  "ae_junk (other_env g E) = ae_junk E" "ae_stats (other_env g E) = ae_stats E" "ae_statm (other_env g E) = ae_statm E"
  "ae_page_size (other_env g E) = ae_page_size E" "ae_total_ram_kb (other_env g E) = ae_total_ram_kb E"
  "ae_start_time (other_env g E) = ae_start_time E" "ae_hostname (other_env g E) = ae_hostname E" "ae_os_version (other_env g E) = ae_os_version E"
  "ae_versions (other_env g E) = ae_versions E" "ae_base642bin (other_env g E) = ae_base642bin E" "ae_malloc (other_env g E) = ae_malloc E"
  "ae_is_dir (other_env g E) = ae_is_dir E" "ae_fopen (other_env g E) = ae_fopen E" "ae_fwrite (other_env g E) = ae_fwrite E"
  "ae_fclose (other_env g E) = ae_fclose E" "ae_errno_text (other_env g E) = ae_errno_text E"
  by (simp_all add: other_env_def)

lemma params_other_sql: "int_param (other_env g E) = int_param E" "string_param (other_env g E) = string_param E"
  by (intro ext; simp only: int_param_def string_param_def env_other_sql)+

lemmas same_with_other_sql = queries_other_sql [OF sql_texts_mem(2)] queries_other_sql [OF sql_texts_mem(3)] queries_other_sql [OF sql_texts_mem(4)]
  queries_other_sql [OF sql_texts_mem(5)] queries_other_sql [OF sql_texts_mem(6)] queries_other_sql [OF sql_texts_mem(7)]
  queries_other_sql [OF sql_texts_mem(8)] queries_other_sql [OF sql_texts_mem(9)] queries_other_sql [OF sql_texts_mem(10)]
  queries_other_sql [OF sql_texts_mem(11)] queries_other_sql [OF sql_texts_mem(12)] queries_other_sql [OF sql_texts_mem(13)]
  queries_other_sql [OF sql_texts_mem(14)] queries_other_sql [OF sql_texts_mem(15)] queries_other_sql [OF sql_texts_mem(16)]
  queries_other_sql [OF sql_texts_mem(17)] query_single_row_other_sql [OF sql_texts_mem(17)] params_other_sql env_other_sql

lemma totp_other_sql:
  "totp_generate_svg T (other_sql g O') = totp_generate_svg T O'" "is_valid_totp T (other_sql g O') = is_valid_totp T O'"
  by (intro ext; simp only: totp_generate_svg_def is_valid_totp_def get_secret_other_sql)+

lemma utilities_other_sql:
  "build_sysinfo_json_string (other_env g E) = build_sysinfo_json_string E"
  "append_remote_json_response (other_env g E) = append_remote_json_response E"
  "handle_login_success (other_env g E) = handle_login_success E"
  "handle_login_failure (other_env g E) = handle_login_failure E"
  "upload_is_valid_dir (other_env g E) = upload_is_valid_dir E"
  "cleanup_file (other_env g E) = cleanup_file E"
  by (intro ext; simp only: build_sysinfo_json_string_def append_remote_json_response_def handle_login_success_def handle_login_failure_def
      upload_is_valid_dir_def cleanup_file_def env_other_sql)+

lemma metrics_text_other_sql: "metrics_text (other_env g E) = metrics_text E"
  by (simp only: metrics_text_def env_other_sql)

lemma handlers_other_sql:
  "version_handler (other_env g E) = version_handler E" "sysinfo_handler (other_env g E) = sysinfo_handler E"
  "metrics_handler (other_env g E) = metrics_handler E" "rsysinfo_handler (other_env g E) = rsysinfo_handler E"
  "rcustomer_handler (other_env g E) = rcustomer_handler E" "customer_handler (other_env g E) = customer_handler E"
  "sales_handler (other_env g E) = sales_handler E" "shippers_handler (other_env g E) = shippers_handler E"
  "products_handler (other_env g E) = products_handler E" "getqr_handler (other_env g E) = getqr_handler E"
  "verifytotp_handler (other_env g E) = verifytotp_handler E" "uuid_handler (other_env g E) = uuid_handler E"
  "secretb32_handler (other_env g E) = secretb32_handler E" "login_handler (other_env g E) = login_handler E"
  "employee_handler (other_env g E) = employee_handler E" "prodget_handler (other_env g E) = prodget_handler E"
  "supplier_handler (other_env g E) = supplier_handler E" "customers_handler (other_env g E) = customers_handler E"
  "sales_pgsql_handler (other_env g E) = sales_pgsql_handler E" "upload_handler (other_env g E) = upload_handler E"
  "gasto_handler (other_env g E) = gasto_handler E" "customerget_handler (other_env g E) = customerget_handler E"
  "emp_orders_handler (other_env g E) = emp_orders_handler E" "emp_ordersj_handler (other_env g E) = emp_ordersj_handler E"
  "dummy_handler (other_env g E) = dummy_handler E" "coordinator_handler (other_env g E) = coordinator_handler E"
  "coordinator2_handler (other_env g E) = coordinator2_handler E" "coordinator3_handler (other_env g E) = coordinator3_handler E"
  by (intro ext; simp only: version_handler_def sysinfo_handler_def metrics_handler_def rsysinfo_handler_def rcustomer_handler_def
      customer_handler_def sales_handler_def shippers_handler_def products_handler_def getqr_handler_def verifytotp_handler_def
      uuid_handler_def secretb32_handler_def login_handler_def employee_handler_def prodget_handler_def supplier_handler_def
      customers_handler_def sales_pgsql_handler_def upload_handler_def gasto_handler_def customerget_handler_def
      emp_orders_handler_def emp_ordersj_handler_def dummy_handler_def coordinator_handler_def coordinator2_handler_def
      coordinator3_handler_def same_with_other_sql totp_other_sql utilities_other_sql metrics_text_other_sql)+

text \<open>C4: No request can change the SQL that is executed: for any body the handlers of all routes behave the same with a driver that
  does anything whatsoever on texts other than the seventeen constants, so the values of a request reach the database as
  bound parameters only.\<close>

theorem handlers_fixed_sql:
  "g_routes (E\<lparr>ae_odbc := other_sql g (ae_odbc E)\<rparr>) = g_routes E"
  by (simp only: g_routes_def handlers_other_sql env_other_sql Let_def flip: other_env_def)

end
