(* ===== verification/DbTotal.thy ===== *)
theory DbTotal
  imports DbApi
begin

text \<open>
  The loops of \<open>lib/dbapi.c\<close> over rows, chunks of a long value and result sets come to an end when the results of the driver
  are finite: each call that delivers something leaves less to deliver, and no other call leaves more.
\<close>

text \<open>
  \<open>rest h w\<close> is the number of rows, chunks and result sets the statement \<open>h\<close> still delivers. After an execution it is less than
  the fuel. A fetch, a part of a value that was cut (\<open>SQL_SUCCESS_WITH_INFO\<close>) and a further result set use up some of it.
\<close>

definition finite_results :: "(nat \<Rightarrow> 'w \<Rightarrow> nat) \<Rightarrow> nat \<Rightarrow> 'w odbc \<Rightarrow> bool" where
  "finite_results rest fuel O' \<longleftrightarrow>
     (\<forall>h q w ret w1. odbc_exec O' h q w = (ret, w1) \<and> SQL_SUCCEEDED ret \<longrightarrow> rest h w1 < fuel) \<and>
     (\<forall>h w ret cells w1. odbc_fetch O' h w = (ret, cells, w1) \<longrightarrow> rest h w1 \<le> rest h w \<and> (SQL_SUCCEEDED ret \<longrightarrow> rest h w1 < rest h w)) \<and>
     (\<forall>h w ret chunk ind w1. odbc_get_data O' h w = (ret, chunk, ind, w1) \<longrightarrow>
        rest h w1 \<le> rest h w \<and> (ret = SQL_SUCCESS_WITH_INFO \<longrightarrow> rest h w1 < rest h w)) \<and>
     (\<forall>h w ret w1. odbc_more O' h w = (ret, w1) \<and> SQL_SUCCEEDED ret \<longrightarrow> rest h w1 < rest h w) \<and>
     (\<forall>h w ret n w1. odbc_num_cols O' h w = (ret, n, w1) \<longrightarrow> rest h w1 \<le> rest h w) \<and>
     (\<forall>h i w ret ci w1. odbc_describe O' h i w = (ret, ci, w1) \<longrightarrow> rest h w1 \<le> rest h w) \<and>
     (\<forall>h i ct off len w ret w1. odbc_bind_col O' h i ct off len w = (ret, w1) \<longrightarrow> rest h w1 \<le> rest h w) \<and>
     (\<forall>h w b w1. odbc_memory O' w = (b, w1) \<longrightarrow> rest h w1 \<le> rest h w) \<and>
     (\<forall>h h1 w. rest h (odbc_close O' h1 ''SQL_UNBIND'' w) \<le> rest h w)"

lemma finite_exec: "finite_results rest fuel O' \<Longrightarrow> odbc_exec O' h q w = (ret, w1) \<Longrightarrow> SQL_SUCCEEDED ret \<Longrightarrow> rest h w1 < fuel"
  unfolding finite_results_def by metis

lemma finite_fetch:
  "finite_results rest fuel O' \<Longrightarrow> odbc_fetch O' h w = (ret, cells, w1) \<Longrightarrow>
     rest h w1 \<le> rest h w \<and> (SQL_SUCCEEDED ret \<longrightarrow> rest h w1 < rest h w)"
  unfolding finite_results_def by metis

lemma finite_get_data:
  "finite_results rest fuel O' \<Longrightarrow> odbc_get_data O' h w = (ret, chunk, ind, w1) \<Longrightarrow>
     rest h w1 \<le> rest h w \<and> (ret = SQL_SUCCESS_WITH_INFO \<longrightarrow> rest h w1 < rest h w)"
  unfolding finite_results_def by metis

lemma finite_more: "finite_results rest fuel O' \<Longrightarrow> odbc_more O' h w = (ret, w1) \<Longrightarrow> SQL_SUCCEEDED ret \<Longrightarrow> rest h w1 < rest h w"
  unfolding finite_results_def by metis

lemma finite_describe:
  "finite_results rest fuel O' \<Longrightarrow> odbc_num_cols O' h w = (ret, n, w1) \<Longrightarrow> rest h w1 \<le> rest h w"
  "finite_results rest fuel O' \<Longrightarrow> odbc_describe O' h i w = (ret, ci, w1) \<Longrightarrow> rest h w1 \<le> rest h w"
  "finite_results rest fuel O' \<Longrightarrow> odbc_bind_col O' h i ct off len w = (ret, w1) \<Longrightarrow> rest h w1 \<le> rest h w"
  "finite_results rest fuel O' \<Longrightarrow> odbc_memory O' w = (b, w1) \<Longrightarrow> rest h w1 \<le> rest h w"
  "finite_results rest fuel O' \<Longrightarrow> rest h (odbc_close O' h1 ''SQL_UNBIND'' w) \<le> rest h w"
  unfolding finite_results_def by metis+

lemma world_touch [simp]: "world (touch h s) = world s"
  by (simp add: touch_def)

lemma world_jstep [simp]: "world (snd (jstep f js)) = world (snd js)"
  by (simp add: jstep_def split: option.split)


section \<open>Native JSON\<close>

lemma col_loop_returns:
  assumes "finite_results rest fuel O'"
  shows "rest h (world s) < n \<Longrightarrow> \<exists>ok out1 hdw1 s1. fetch_json_native_col_loop n O' db_id h ind (out, hdw, s) = Some (ok, out1, hdw1, s1) \<and>
    (ok \<longrightarrow> rest h (world s1) \<le> rest h (world s))"
proof (induction n arbitrary: ind out hdw s)
  case (Suc n)
  obtain ret chunk i w where g: "odbc_get_data O' h (world s) = (ret, chunk, i, w)"
    by (metis prod.exhaust)
  note le = finite_get_data [OF assms g]
  have IH: "\<exists>ok out1 hdw1 s1. fetch_json_native_col_loop n O' db_id h ind' (out', hdw', s') = Some (ok, out1, hdw1, s1) \<and>
      (ok \<longrightarrow> rest h (world s1) \<le> rest h (world s))" if "ret = SQL_SUCCESS_WITH_INFO" "world s' = w" for ind' out' hdw' s'
    using Suc.IH [of s' ind' out' hdw'] Suc.prems le that by fastforce
  show ?case
    using le IH by (auto simp: g Let_def split: SQLRETURN.split option.split)
qed simp

lemma json_rows_return:
  assumes "finite_results rest fuel O'"
  shows "rest h (world s) < n \<Longrightarrow> rest h (world s) < fuel \<Longrightarrow> fetch_json_rows n fuel O' ind0 db_id h hr (out, hdw, s) \<noteq> None"
proof (induction n arbitrary: hr out hdw s)
  case (Suc n)
  obtain ret cells w where f: "odbc_fetch O' h (world s) = (ret, cells, w)"
    by (metis prod.exhaust)
  note le = finite_fetch [OF assms f]
  define s1 where "s1 = (touch h s)\<lparr>world := w\<rparr>"
  have "rest h (world s1) < fuel" "world s1 = w"
    using le Suc.prems(2) by (simp_all add: s1_def)
  then obtain ok out1 hdw1 s2 where c: "fetch_json_native_col_loop fuel O' db_id h ind0 (out, hdw, s1) = Some (ok, out1, hdw1, s2)"
      "ok \<longrightarrow> rest h (world s2) \<le> rest h w"
    using col_loop_returns [OF assms] by metis
  have "fetch_json_rows n fuel O' ind0 db_id h True (out1, hdw1, s2) \<noteq> None" if "ok" "SQL_SUCCEEDED ret"
    using Suc.IH [of s2 True out1 hdw1] Suc.prems c(2) le that by auto
  then show ?case
    by (simp add: f c s1_def [symmetric] Let_def del: not_None_eq)
qed simp

lemma db_fetch_json_native_returns:
  assumes "finite_results rest fuel O'" "rest h (world s) < fuel"
  shows "db_fetch_json_native fuel O' ind0 db_id h (out, s) \<noteq> None"
  using json_rows_return [OF assms(1,2,2)] by (simp add: db_fetch_json_native_def split: option.split prod.split del: not_None_eq)


section \<open>Result sets\<close>

lemma new_column_rest:
  assumes "finite_results rest fuel O'" "new_column O' junk ci ct sz s = (col, s1)"
  shows "rest h (world s1) \<le> rest h (world s)"
  using assms(2) finite_describe(4) [OF assms(1)]
  by (auto simp: new_column_def Let_def split: prod.splits option.splits if_splits)

lemma setup_columns_rest:
  assumes "finite_results rest fuel O'"
  shows "setup_column_metadata O' junk db_id h i r tot s = (True, cols, tot1, s1) \<Longrightarrow> rest h (world s1) \<le> rest h (world s)"
proof (induction r arbitrary: i tot s cols)
  case (Suc r)
  obtain ret ci w where d: "odbc_describe O' h (Suc i) (world s) = (ret, ci, w)"
    by (metis prod.exhaust)
  obtain ct sz where c: "column_type (ci_sql_type ci) (ci_size ci) = (ct, sz)"
    by (cases "column_type (ci_sql_type ci) (ci_size ci)")
  obtain col s2 where m: "new_column O' junk ci ct sz ((touch h s)\<lparr>world := w\<rparr>) = (col, s2)"
    by (cases "new_column O' junk ci ct sz ((touch h s)\<lparr>world := w\<rparr>)")
  have "rest h (world s2) \<le> rest h (world s)"
    using new_column_rest [OF assms m, of h] finite_describe(2) [OF assms d] by simp
  then show ?case
    using Suc.prems Suc.IH [of "Suc i" "tot + sz" s2] by (fastforce simp: d c m Let_def split: if_splits prod.splits)
qed simp

lemma alloc_metadata_rest:
  assumes "finite_results rest fuel O'" "alloc_metadata_cols O' junk db_id h nc meta s = (True, meta1, s1)"
  shows "rest h (world s1) \<le> rest h (world s)"
proof -
  define s2 where "s2 = (if nc \<le> TLS_MAX_COLS then s else s\<lparr>world := snd (odbc_memory O' (world s))\<rparr>)"
  obtain ok cols tot s3 where u: "setup_column_metadata O' junk db_id h 0 (nat nc) 0 s2 = (ok, cols, tot, s3)"
    by (metis prod.exhaust)
  have m: "rest h (snd (odbc_memory O' w)) \<le> rest h w" for w
    using finite_describe(4) [OF assms(1), of w "fst (odbc_memory O' w)" "snd (odbc_memory O' w)" h] by simp
  then have "rest h (world s2) \<le> rest h (world s)"
    by (simp add: s2_def)
  moreover have "ok" "s1 = s3 \<or> s1 = s3\<lparr>world := snd (odbc_memory O' (world s3))\<rparr>"
    using assms(2) u by (auto simp: alloc_metadata_cols_def s2_def Let_def split: if_splits prod.splits)
  moreover have "rest h (world s3) \<le> rest h (world s2)"
    using setup_columns_rest [OF assms(1)] u calculation(2) by metis
  ultimately show ?thesis
    using m [of "world s3"] by auto
qed

lemma bind_cols_rest:
  assumes "finite_results rest fuel O'"
  shows "bind_cols O' db_id h i off cols s = (True, s1) \<Longrightarrow> rest h (world s1) \<le> rest h (world s)"
proof (induction cols arbitrary: i off s)
  case (Cons col cols)
  obtain ret w where b: "odbc_bind_col O' h (Suc i) (col_c_type col) off (alloc_size col) (world s) = (ret, w)"
    by (cases "odbc_bind_col O' h (Suc i) (col_c_type col) off (alloc_size col) (world s)")
  show ?case
    using Cons.prems finite_describe(3) [OF assms b] Cons.IH [of "Suc i" "off + alloc_size col" "(touch h s)\<lparr>world := w\<rparr>"]
    by (fastforce simp: b Let_def split: if_splits)
qed simp

lemma bind_resultset_rest:
  assumes "finite_results rest fuel O'" "odbc_bind_resultset_metadata O' junk db_id h meta s = (True, meta1, s1)"
  shows "rest h (world s1) \<le> rest h (world s)"
proof -
  obtain ret nc w where n: "odbc_num_cols O' h (world s) = (ret, nc, w)"
    by (metis prod.exhaust)
  note le = finite_describe(1) [OF assms(1) n]
  consider "world s1 = w" | meta2 s2 where "alloc_metadata_cols O' junk db_id h nc meta ((touch h s)\<lparr>world := w\<rparr>) = (True, meta2, s2)"
      "bind_cols O' db_id h 0 0 (meta_cols meta2) s2 = (True, s1)"
    using assms(2) by (auto simp: odbc_bind_resultset_metadata_def n Let_def split: if_splits prod.splits)
  then show ?thesis
  proof cases
    case 2
    then show ?thesis
      using alloc_metadata_rest [OF assms(1) 2(1)] bind_cols_rest [OF assms(1) 2(2)] le by simp
  qed (simp add: le)
qed

lemma metadata_destroy_rest: "finite_results rest fuel O' \<Longrightarrow> rest h (world (metadata_destroy O' meta s)) \<le> rest h (world s)"
  using finite_describe(5) [of rest fuel O'] by (simp add: metadata_destroy_def on_handle_def)

lemma fetch_rows_return:
  assumes "finite_results rest fuel O'"
  shows "rest h (world (snd js)) < n \<Longrightarrow> \<exists>ok j1 s1. fetch_rows n O' junk db_id h cols fr js = Some (ok, j1, s1) \<and>
    (ok \<longrightarrow> rest h (world s1) \<le> rest h (world (snd js)))"
proof (induction n arbitrary: fr js)
  case (Suc n)
  obtain j s where js: "js = (j, s)"
    by (cases js)
  obtain ret cells w where f: "odbc_fetch O' h (world s) = (ret, cells, w)"
    by (metis prod.exhaust)
  note le = finite_fetch [OF assms f]
  define s1 where "s1 = (touch h s)\<lparr>world := w\<rparr>"
  define js2 where "js2 = jstep (jbuf_append_row_object junk (fetched cols cells)) (if \<not> fr then jstep (jbuf_add_char (CHR '','')) (j, s1) else (j, s1))"
  have w2: "world (snd js2) = w"
    by (simp add: js2_def s1_def)
  have "\<exists>ok j1 s3. fetch_rows n O' junk db_id h cols False js2 = Some (ok, j1, s3) \<and> (ok \<longrightarrow> rest h (world s3) \<le> rest h (world s))"
    if "SQL_SUCCEEDED ret"
    using Suc.IH [of js2 False] Suc.prems le that w2 by (fastforce simp: js)
  moreover have "fetch_rows (Suc n) O' junk db_id h cols fr js = (if ret = SQL_NO_DATA then Some (True, j, s1)
      else if \<not> SQL_SUCCEEDED ret then Some (False, j, db_set_error O' db_id (Some h) ''SQLFetch failed'' s1)
      else fetch_rows n O' junk db_id h cols False js2)"
    by (simp add: js f s1_def js2_def Let_def)
  moreover have "world s1 = w"
    by (simp add: s1_def)
  ultimately show ?case
    using le by (auto simp: js)
qed simp

lemma fetch_resultset_returns:
  assumes "finite_results rest fuel O'" "rest h (world s) < fuel"
  shows "\<exists>ok out1 s1. fetch_resultset_array fuel O' junk db_id h br (out, s) = Some (ok, out1, s1) \<and> (ok \<longrightarrow> rest h (world s1) \<le> rest h (world s))"
proof -
  obtain ok2 meta s2 where b: "odbc_bind_resultset_metadata O' junk db_id h no_meta s = (ok2, meta, s2)"
    by (metis prod.exhaust)
  note d = metadata_destroy_rest [OF assms(1), of h meta]
  define js0 where "js0 = (if br then jstep (jbuf_add ''['') (jbuf_new junk out, s2) else (jbuf_new junk out, s2))"
  show ?thesis
  proof (cases ok2)
    case True
    then have r2: "rest h (world s2) \<le> rest h (world s)"
      using bind_resultset_rest [OF assms(1), of junk db_id h no_meta s meta s2] b by simp
    have w0: "world (snd js0) = world s2"
      by (simp add: js0_def)
    obtain ok1 j1 s3 where r: "fetch_rows fuel O' junk db_id h (meta_cols meta) True js0 = Some (ok1, j1, s3)"
        "ok1 \<longrightarrow> rest h (world s3) \<le> rest h (world s2)"
      using r2 fetch_rows_return [OF assms(1), of h js0 fuel junk db_id "meta_cols meta" True] assms(2) w0 by auto
    define js1 where "js1 = jstep (jbuf_add ''[]'') (jbuf_new junk out, s2)"
    define js3 where "js3 = (if ok1 \<and> br then jstep (jbuf_add_char (CHR '']'')) (j1, s3) else (j1, s3))"
    have "fetch_resultset_array fuel O' junk db_id h br (out, s) =
        (if br \<and> meta_count meta = 0 then Some (True, evbuf (jbuf_flush (fst js1)), metadata_destroy O' meta (snd js1))
         else Some (ok1, evbuf (jbuf_flush (fst js3)), metadata_destroy O' meta (snd js3)))"
      using True r(1) by (simp add: fetch_resultset_array_def b js0_def js1_def js3_def Let_def split_def)
    moreover have "world (snd js1) = world s2" "world (snd js3) = world s3"
      by (simp_all add: js1_def js3_def)
    ultimately show ?thesis
      using r(2) r2 d [of "snd js1"] d [of "snd js3"] by auto
  qed (auto simp: fetch_resultset_array_def b)
qed

lemma jsonm_loop_returns:
  assumes "finite_results rest fuel O'"
  shows "rest h (world s) < n \<Longrightarrow> rest h (world s) < fuel \<Longrightarrow> jsonm_loop n fuel O' junk db_id h rs has cc (out, s) \<noteq> None"
proof (induction n arbitrary: rs has cc out s)
  case (Suc n)
  define first where "first = (if cc > 0
     then map_option (\<lambda>(ok, out1, s1). (ok, rs + 1, True, if ok then out1 @ '']'' else out1, s1))
            (fetch_resultset_array fuel O' junk db_id h False (out @ rs_prefix junk rs has, s))
     else Some (True, rs, has, out, s))"
  obtain ok0 out0 s0 where a: "fetch_resultset_array fuel O' junk db_id h False (out @ rs_prefix junk rs has, s) = Some (ok0, out0, s0)"
      "ok0 \<longrightarrow> rest h (world s0) \<le> rest h (world s)"
    using fetch_resultset_returns [OF assms Suc.prems(2)] by metis
  obtain ok2 rs2 has2 out2 s2 where f: "first = Some (ok2, rs2, has2, out2, s2)" "ok2 \<longrightarrow> rest h (world s2) \<le> rest h (world s)"
  proof (cases "cc > 0")
    case True
    then show ?thesis using that a by (simp add: first_def)
  next
    case False
    then show ?thesis using that [of True rs has out s] by (simp add: first_def)
  qed
  obtain mret w where m: "odbc_more O' h (world s2) = (mret, w)"
    by (cases "odbc_more O' h (world s2)")
  obtain cc1 s3 where c: "num_result_cols O' h cc ((touch h s2)\<lparr>world := w\<rparr>) = (cc1, s3)"
    by (cases "num_result_cols O' h cc ((touch h s2)\<lparr>world := w\<rparr>)")
  have "rest h (world s3) \<le> rest h w"
    using c finite_describe(1) [OF assms] by (auto simp: num_result_cols_def split: prod.splits)
  then have "jsonm_loop n fuel O' junk db_id h rs2 has2 cc1 (out2, s3) \<noteq> None" if "ok2" "SQL_SUCCEEDED mret"
    using Suc.IH [of s3 rs2 has2 cc1 out2] Suc.prems f(2) finite_more [OF assms m that(2)] that(1) by auto
  then show ?case
    by (simp add: first_def [symmetric] f m c Let_def del: not_None_eq)
qed simp

lemma db_fetch_jsonm_native_returns:
  assumes "finite_results rest fuel O'" "rest h (world s) < fuel"
  shows "db_fetch_jsonm_native fuel O' junk db_id h (out, s) \<noteq> None"
proof -
  obtain cc s1 where c: "num_result_cols O' h 0 s = (cc, s1)"
    by (cases "num_result_cols O' h 0 s")
  then have "rest h (world s1) < fuel"
    using finite_describe(1) [OF assms(1)] assms(2) by (fastforce simp: num_result_cols_def split: prod.splits)
  then show ?thesis
    using jsonm_loop_returns [OF assms(1), of h s1 fuel junk db_id 1 False cc out]
    by (simp add: db_fetch_jsonm_native_def c split: option.split prod.split del: not_None_eq)
qed


section \<open>Queries\<close>

lemma execute_returns:
  assumes "finite_results rest fuel O'" "\<And>h out s. rest h (world s) < fuel \<Longrightarrow> cb db_id h (out, s) \<noteq> None"
  shows "db_execute_and_fetch O' cfg junk db_id q ps cb st \<noteq> None"
proof -
  obtain ok h s1 where p: "db_prepare_and_bind O' cfg db_id ps ((snd st)\<lparr>tl_last_native_error := 0, tl_last_error_msg := []\<rparr>) = (ok, h, s1)"
    by (metis prod.exhaust)
  obtain ret w where e: "odbc_exec O' h q (world s1) = (ret, w)"
    by (cases "odbc_exec O' h q (world s1)")
  have "cb db_id h (fst st, (touch h s1)\<lparr>world := w\<rparr>) \<noteq> None" if "SQL_SUCCEEDED ret"
    using assms(2) finite_exec [OF assms(1) e that] by simp
  then show ?thesis
    by (auto simp: db_execute_and_fetch_def p e Let_def split_def split: option.split bool.split)
qed

lemma queries_return:
  assumes "finite_results rest fuel O'"
  shows "db_get_json fuel O' cfg junk ind0 db_id q ps st \<noteq> None" "db_get_rs2json fuel O' cfg junk db_id q ps st \<noteq> None"
    "db_get_rs2json_m fuel O' cfg junk db_id q ps st \<noteq> None"
proof -
  show "db_get_json fuel O' cfg junk ind0 db_id q ps st \<noteq> None"
    unfolding db_get_json_def by (rule execute_returns [OF assms], rule db_fetch_json_native_returns [OF assms])
  show "db_get_rs2json fuel O' cfg junk db_id q ps st \<noteq> None"
    unfolding db_get_rs2json_def
    using fetch_resultset_returns [OF assms] by (intro execute_returns [OF assms]) (fastforce simp: db_fetch_rs2json_def)
  show "db_get_rs2json_m fuel O' cfg junk db_id q ps st \<noteq> None"
    unfolding db_get_rs2json_m_def by (rule execute_returns [OF assms], rule db_fetch_jsonm_native_returns [OF assms])
qed

end
