(* ===== verification/System.thy ===== *)
theory System
  imports HandlerProps FixedSql Pipeline DbTotal
begin

text \<open>
  The program as a whole: the handlers of the route table inside the request pipeline. What requests without a token can
  change, why every handler returns on the requests the pipeline admits, and how a token issued by the login route is
  accepted by the others.
\<close>

section \<open>Data behind the routes\<close>

text \<open>What handlers can change besides the answer and the log.\<close>

definition app_data :: "'w app \<Rightarrow> 'w db \<times> jwt_state \<times> (cstring \<times> string) list" where
  "app_data a = (app_db a, app_jwt a, app_files a)"

lemma app_data_note_log [simp]: "app_data (th_app (note_log level msg th)) = app_data (th_app th)"
  by (simp add: app_data_def)

lemma app_data_set_type [simp]: "th_app (set_type ctype th) = th_app th"
  by (simp add: set_type_def)

lemma open_route_handlers:
  assumes "r \<in> set (g_routes E)" "auth_mode r \<noteq> AUTH_JWT" "handler r = Some h"
  shows "h \<in> {ping_handler, version_handler E, sysinfo_handler E, metrics_handler E, uuid_handler E, secretb32_handler E, login_handler E}"
  using assms unfolding g_routes_def Let_def by (auto simp: route_def)

lemma login_outcome_data [simp]:
  "app_data (th_app (snd (snd (handle_login_success E u ip (st, out, th))))) = app_data (th_app th)"
  "app_data (th_app (snd (snd (handle_login_failure E u ip code r (st, out, th))))) = app_data (th_app th)"
  by (simp_all add: handle_login_success_def handle_login_failure_def Let_def split: option.split)

lemma login_handler_data:
  assumes "login_handler E body (st, out, th) = Some (st', out', th')"
  shows "app_data (th_app th') = app_data (th_app th)"
proof -
  define u ip where "u = json_get_string (ae_json E) body ''username''" "ip = context_get_client_ip (th_context th)"
  obtain r code err where "(if code = 200 then handle_login_success E u ip (st, out, th\<lparr>th_error := err\<rparr>)
      else handle_login_failure E u ip code r (st, out, th\<lparr>th_error := err\<rparr>)) = (st', out', th')"
    using assms unfolding login_handler_def Let_def prod.case u_ip_def [symmetric] by (auto split: prod.splits)
  then have "th' = (if code = 200 then snd (snd (handle_login_success E u ip (st, out, th\<lparr>th_error := err\<rparr>)))
      else snd (snd (handle_login_failure E u ip code r (st, out, th\<lparr>th_error := err\<rparr>))))"
    by (auto split: if_splits)
  then show ?thesis by simp
qed

lemma open_handlers_data:
  assumes "r \<in> set (g_routes E)" "auth_mode r \<noteq> AUTH_JWT" "handler r = Some h" "h body (st, out, th) = Some (st', out', th')"
  shows "app_data (th_app th') = app_data (th_app th)"
  using open_route_handlers [OF assms(1-3)] assms(4)
  by (auto simp: ping_handler_def version_handler_def sysinfo_handler_def metrics_handler_def uuid_handler_def secretb32_handler_def Let_def
      dest: login_handler_data split: prod.splits bool.splits option.splits)

lemma worker_process_task_app:
  assumes "middleware_ctx task = Some i" "i < length routes" "worker_process_task L routes rq task th = Some (task', th', logs)"
  shows "th_app th' = th_app th \<or>
    (\<exists>h t1 c1 st out th2. worker_checks L rq (Some (routes ! i)) task (th_context th) = Some (True, t1, c1) \<and>
       handler (routes ! i) = Some h \<and> th_app th' = th_app th2 \<and>
       (\<exists>b. h (parsed_body t1) (status_code t1, b,
          th\<lparr>th_request_id := logger_set_request_id (Some (request_id task)), th_context := c1\<rparr>) = Some (st, out, th2)))"
  using assms
  by (auto simp: worker_process_task_def call_handler_def Let_def Option.bind_eq_Some_conv split: option.splits if_splits prod.splits bool.splits)


section \<open>Handlers return\<close>

text \<open>
  The results of the driver are finite, and the fuel is enough for them. Responses of remote services are of a possible
  size. A thread that waits for a token gets the mutex at some time when no login request is in progress. The QR library
  works as documented.
\<close>

definition env_ok :: "('j, 'w) app_env \<Rightarrow> bool" where
  "env_ok E \<longleftrightarrow>
     totp_libs_ok (ae_totp E) \<and> (\<exists>rest. finite_results rest (ae_fuel E) (ae_odbc E)) \<and>
     unat (he_max_payload (cl_env (ae_client E))) < 2 ^ 63 \<and>
     (\<forall>opts. length (concat (tr_blocks (cl_curl (ae_client E) opts))) < 2 ^ 63) \<and>
     (\<exists>turn \<in> set (sc_turns (ae_sched E)). \<forall>j. \<not> jwt_is_refreshing (snd turn j))"

lemma await_token_returns:
  assumes "turn \<in> set turns" "\<And>j. \<not> jwt_is_refreshing (snd turn j)"
  shows "await_token turns j \<noteq> None"
  using assms(1)
proof (induction turns arbitrary: j)
  case (Cons t turns)
  obtain now others where t: "t = (now, others)"
    by (cases t)
  obtain e j1 where e: "enter_section now (others j) = (e, j1)"
    by (cases "enter_section now (others j)")
  have "e \<noteq> Must_wait" if "turn = t"
    using enter_section_cases(3) [OF e] assms(2) [of j] that t by auto
  then show ?case
    using Cons.IH [of j1] Cons.prems by (auto simp: t e split: entry.split)
qed simp

lemma http_returns:
  assumes "env_ok E"
  shows "http_client_get_json parse (cl_curl (ae_client E)) (cl_env (ae_client E)) base u headers code err \<noteq> None"
    "http_client_post_json parse (cl_curl (ae_client E)) (cl_env (ae_client E)) base u body headers code err \<noteq> None"
  using do_http_request_total [of "cl_env (ae_client E)" "cl_curl (ae_client E)"] assms
  by (fastforce simp: env_ok_def http_client_get_json_def http_client_post_json_def)+

lemma execute_login_request_returns:
  assumes "env_ok E"
  shows "execute_login_request (ae_client E) err \<noteq> None"
  by (simp add: execute_login_request_def Let_def http_returns(2) [OF assms] split: option.split prod.split del: not_None_eq)

lemma login_and_get_token_returns:
  assumes "env_ok E"
  shows "login_and_get_token (ae_client E) (ae_sched E) out n s \<noteq> None"
proof -
  obtain e j where a: "await_token (sc_turns (ae_sched E)) (fst s) = Some (e, j)"
    using assms await_token_returns unfolding env_ok_def by (metis option.exhaust prod.exhaust)
  show ?thesis
    unfolding login_and_get_token_def a option.case prod.case Let_def
    using execute_login_request_returns [OF assms] by (simp split: entry.split del: not_None_eq)
qed

lemma customer_service_returns:
  assumes "env_ok E"
  shows "customer_service_get_info (ae_client E) (ae_sched E) junk cid code s \<noteq> None"
proof -
  obtain ok token s1 where l: "login_and_get_token (ae_client E) (ae_sched E) junk 1024 s = Some (ok, token, s1)"
    using login_and_get_token_returns [OF assms] by (metis option.exhaust prod.exhaust)
  show ?thesis
    unfolding customer_service_get_info_def l option.case prod.case Let_def
    by (cases ok; cases s1) (simp_all add: http_returns(2) [OF assms] split: option.split prod.split del: not_None_eq)
qed

lemma run_query_returns: "(\<And>st. q st \<noteq> None) \<Longrightarrow> run_query q st \<noteq> None"
  by (cases st) (simp add: run_query_def)

lemma query_handler_returns: "(\<And>st. q st \<noteq> None) \<Longrightarrow> query_handler q st \<noteq> None"
  using run_query_returns [of q] by (cases st) (simp add: query_handler_def)

lemma db_queries_return:
  assumes "env_ok E"
  shows "query_handler (get_json E db_id q ps) st \<noteq> None" "query_handler (get_rs2json E db_id q ps) st \<noteq> None"
    "query_handler (get_rs2json_m E db_id q ps) st \<noteq> None" "run_query (get_json E db_id q ps) st \<noteq> None"
    "run_query (get_rs2json E db_id q ps) st \<noteq> None"
proof -
  have q: "get_json E db_id q ps st \<noteq> None" "get_rs2json E db_id q ps st \<noteq> None" "get_rs2json_m E db_id q ps st \<noteq> None" for db_id q ps st
    using assms queries_return unfolding env_ok_def get_json_def get_rs2json_def get_rs2json_m_def by metis+
  show "query_handler (get_json E db_id q ps) st \<noteq> None" "query_handler (get_rs2json E db_id q ps) st \<noteq> None"
    "query_handler (get_rs2json_m E db_id q ps) st \<noteq> None" "run_query (get_json E db_id q ps) st \<noteq> None"
    "run_query (get_rs2json E db_id q ps) st \<noteq> None"
    by (rule query_handler_returns run_query_returns, rule q)+
qed

lemma upload_handler_returns: "upload_handler E body st \<noteq> None"
  by (simp add: upload_handler_def split_def Let_def split: option.split)

lemma coordinator_handlers_return:
  assumes "env_ok E"
  shows "coordinator2_handler E body st \<noteq> None" "coordinator3_handler E body st \<noteq> None"
proof -
  show "coordinator2_handler E body st \<noteq> None"
    by (simp add: db_queries_return(4,5) [OF assms] coordinator2_handler_def Let_def split: prod.split option.split bool.split del: not_None_eq)
  show "coordinator3_handler E body st \<noteq> None"
    by (simp add: db_queries_return(4) [OF assms] coordinator3_handler_def Let_def split: prod.split del: not_None_eq)
qed

lemma remote_handlers_return:
  assumes "env_ok E"
  shows "rsysinfo_handler E body st \<noteq> None" "rcustomer_handler E body st \<noteq> None" "getqr_handler E body st \<noteq> None"
    "verifytotp_handler E body st \<noteq> None"
proof -
  have t: "totp_libs_ok (ae_totp E)"
    using assms by (simp add: env_ok_def)
  show "rsysinfo_handler E body st \<noteq> None"
    by (simp add: http_returns(1) [OF assms] rsysinfo_handler_def Let_def split: prod.split del: not_None_eq)
  show "rcustomer_handler E body st \<noteq> None"
    by (simp add: customer_service_returns [OF assms] rcustomer_handler_def Let_def split: prod.split option.split del: not_None_eq)
  show "getqr_handler E body st \<noteq> None"
    by (simp add: totp_generate_svg_total [OF t] getqr_handler_def split: prod.split del: not_None_eq)
  show "verifytotp_handler E body st \<noteq> None"
    by (simp add: verifytotp_handler_def Let_def split: prod.split)
qed

lemma simple_handlers_return:
  "ping_handler body st \<noteq> None" "version_handler E body st \<noteq> None" "sysinfo_handler E body st \<noteq> None"
  "metrics_handler E body st \<noteq> None" "uuid_handler E body st \<noteq> None" "secretb32_handler E body st \<noteq> None"
  by (simp_all add: ping_handler_def version_handler_def sysinfo_handler_def metrics_handler_def uuid_handler_def secretb32_handler_def
      Let_def split: prod.split bool.split option.split)

lemma query_handlers_return:
  assumes "env_ok E"
  shows "customer_handler E body st \<noteq> None" "sales_handler E body st \<noteq> None" "shippers_handler E body st \<noteq> None"
    "products_handler E body st \<noteq> None" "employee_handler E body st \<noteq> None" "prodget_handler E body st \<noteq> None"
    "supplier_handler E body st \<noteq> None" "customers_handler E body st \<noteq> None" "sales_pgsql_handler E body st \<noteq> None"
    "gasto_handler E body st \<noteq> None" "customerget_handler E body st \<noteq> None" "emp_orders_handler E body st \<noteq> None"
    "emp_ordersj_handler E body st \<noteq> None" "dummy_handler E body st \<noteq> None" "coordinator_handler E body st \<noteq> None"
  by (simp_all add: db_queries_return(1-3) [OF assms] customer_handler_def sales_handler_def shippers_handler_def products_handler_def employee_handler_def
      prodget_handler_def supplier_handler_def customers_handler_def sales_pgsql_handler_def gasto_handler_def customerget_handler_def
      emp_orders_handler_def emp_ordersj_handler_def dummy_handler_def coordinator_handler_def Let_def split: prod.split del: not_None_eq)

lemma login_handler_returns:
  assumes "env_ok E" "json_get_string (ae_json E) body ''username'' \<noteq> None" "json_get_string (ae_json E) body ''password'' \<noteq> None"
  shows "login_handler E body st \<noteq> None"
proof -
  obtain u p where "json_get_string (ae_json E) body ''username'' = Some u" "json_get_string (ae_json E) body ''password'' = Some p"
    using assms(2,3) by blast
  then show ?thesis
    by (simp add: http_returns(2) [OF assms(1)] login_handler_def Let_def login_service_authenticate_eq split: prod.split del: not_None_eq)
qed

lemma route_handlers:
  assumes "r \<in> set (g_routes E)" "handler r = Some h"
  shows "h \<in> {ping_handler, version_handler E, sysinfo_handler E, metrics_handler E, uuid_handler E, secretb32_handler E} \<or>
    h \<in> {rsysinfo_handler E, rcustomer_handler E, getqr_handler E, verifytotp_handler E, upload_handler E, coordinator2_handler E,
      coordinator3_handler E} \<or>
    h \<in> {customer_handler E, sales_handler E, shippers_handler E, products_handler E, employee_handler E, prodget_handler E,
      supplier_handler E, customers_handler E, sales_pgsql_handler E, gasto_handler E, customerget_handler E, emp_orders_handler E,
      emp_ordersj_handler E, dummy_handler E, coordinator_handler E} \<or>
    h = login_handler E \<and> validation_ctx r = Some LoginContext \<and> allowed_method r = EVHTTP_REQ_POST"
  using assms unfolding g_routes_def Let_def list.set by (elim insertE emptyE; simp add: route_def)

lemma handlers_return:
  assumes "env_ok E" "r \<in> set (g_routes E)" "handler r = Some h"
    "validation_ctx r = Some LoginContext \<Longrightarrow> allowed_method r = EVHTTP_REQ_POST \<Longrightarrow>
       json_get_string (ae_json E) body ''username'' \<noteq> None \<and> json_get_string (ae_json E) body ''password'' \<noteq> None"
  shows "h body st \<noteq> None"
  using route_handlers [OF assms(2,3)]
proof (elim disjE)
  assume "h \<in> {ping_handler, version_handler E, sysinfo_handler E, metrics_handler E, uuid_handler E, secretb32_handler E}"
  then show ?thesis by (elim insertE emptyE; simp only: simple_handlers_return simp_thms)
next
  assume "h \<in> {rsysinfo_handler E, rcustomer_handler E, getqr_handler E, verifytotp_handler E, upload_handler E, coordinator2_handler E,
      coordinator3_handler E}"
  then show ?thesis
    by (elim insertE emptyE; simp only: remote_handlers_return [OF assms(1)] upload_handler_returns
        coordinator_handlers_return [OF assms(1)] simp_thms)
next
  assume "h \<in> {customer_handler E, sales_handler E, shippers_handler E, products_handler E, employee_handler E, prodget_handler E,
      supplier_handler E, customers_handler E, sales_pgsql_handler E, gasto_handler E, customerget_handler E, emp_orders_handler E,
      emp_ordersj_handler E, dummy_handler E, coordinator_handler E}"
  then show ?thesis by (elim insertE emptyE; simp only: query_handlers_return [OF assms(1)] simp_thms)
next
  assume "h = login_handler E \<and> validation_ctx r = Some LoginContext \<and> allowed_method r = EVHTTP_REQ_POST"
  then show ?thesis using login_handler_returns [OF assms(1)] assms(4) by blast
qed

text \<open>The validators never dereference null.\<close>

lemma route_contexts:
  assumes "r \<in> set (g_routes E)" "validation_ctx r = Some v"
  shows "v \<in> {CustomerContext (ae_json E), SalesContext (ae_json E), LoginContext, VerifyTotpContext (ae_json E), EmployeeContext,
    ProdgetContext, SupplierContext, CustomersContext, UploadContext, GastoContext, DummyContext, CoordinatorContext (ae_json E)}"
  using assms unfolding g_routes_def Let_def list.set by (elim insertE emptyE; simp add: route_def)

lemma verdict_given: "\<exists>e. x = Some (v, Some e) \<Longrightarrow> x \<noteq> None"
  by auto

lemma routes_validate:
  assumes "r \<in> set (g_routes E)" "validation_ctx r = Some v" "json_strings_ok (ae_json E)"
  shows "validate_json (ae_json E) (Some v) (Some b) (Some []) MAX_ERR_MSG_LEN \<noteq> None"
proof -
  have n: "0 < MAX_ERR_MSG_LEN" by (simp add: MAX_ERR_MSG_LEN_def)
  note d = customer.validate_decides [OF assms(3) n, THEN verdict_given] sales.validate_decides [OF assms(3) n, THEN verdict_given]
    login.validate_decides [OF assms(3) n, THEN verdict_given] verifytotp.validate_decides [OF assms(3) n, THEN verdict_given]
    employee.validate_decides [OF assms(3) n, THEN verdict_given] prodget.validate_decides [OF assms(3) n, THEN verdict_given]
    supplier.validate_decides [OF assms(3) n, THEN verdict_given] customers.validate_decides [OF assms(3) n, THEN verdict_given]
    upload.validate_decides [OF assms(3) n, THEN verdict_given] gasto.validate_decides [OF assms(3) n, THEN verdict_given]
    dummy.validate_decides [OF assms(3) n, THEN verdict_given] coordinator.validate_decides [OF assms(3) n, THEN verdict_given]
  show ?thesis
    using route_contexts [OF assms(1,2)] by (elim insertE emptyE; simp only: d simp_thms)
qed

lemma required_string:
  assumes "json_strings_ok J" "field_accepts J ok b (string_field name True n)"
  shows "json_get_string J (Some b) name \<noteq> None"
  using assms
  by (auto simp: field_accepts_def string_field_def zero_field_def type_accepts_def field_type_defs json_get_string_def json_strings_ok_def
      split: option.splits)

lemma admitted_login:
  assumes "json_strings_ok (wl_json L)" "admitted L rq r task body c" "rq_command rq = EVHTTP_REQ_POST" "validation_ctx r = Some LoginContext"
  shows "json_get_string (wl_json L) body ''username'' \<noteq> None \<and> json_get_string (wl_json L) body ''password'' \<noteq> None"
proof -
  obtain b where "body = Some b" "\<forall>f \<in> set (schema LoginContext). field_accepts (wl_json L) (\<lambda>_ _. True) b f"
    using assms(2-4) unfolding admitted_def by blast
  then show ?thesis
    using required_string [OF assms(1)] by (fastforce simp: LoginContext_def LoginSchema_def)
qed


section \<open>Tokens\<close>

text \<open>The alphabet of base64 texts, as libsodium documents it for the URL-safe variant.\<close>

definition sodium_alphabet :: "sodium \<Rightarrow> bool" where
  "sodium_alphabet S \<longleftrightarrow> (\<forall>s. set (sodium_bin2base64 S s) \<subseteq> set b64_alphabet)"

lemma token_char_plain: "c \<in> set (b64_alphabet @ ''.'') \<Longrightarrow> encode_char c = [c]"
proof -
  have "list_all (\<lambda>c. encode_char c = [c]) (b64_alphabet @ ''.'')"
    by code_simp
  then show "c \<in> set (b64_alphabet @ ''.'') \<Longrightarrow> encode_char c = [c]"
    unfolding list_all_iff by blast
qed

lemma encode_loop_plain:
  "\<forall>c \<in> set s. encode_char c = [c] \<Longrightarrow> length dest + length s + 7 < n \<Longrightarrow> encode_loop s dest n = dest @ s"
proof (induction s arbitrary: dest)
  case (Cons c s)
  then show ?case
    using Cons.IH [of "dest @ [c]"] by simp
qed simp

lemma jwt_create_shape:
  assumes "jwt_create S secret now u s timeout n = Some token" "sodium_alphabet S"
  shows "set token \<subseteq> set (b64_alphabet @ ''.'')" "length token < n"
proof -
  obtain h p m where t: "token = (sodium_bin2base64 S h @ ''.'' @ sodium_bin2base64 S p) @ ''.'' @ sodium_bin2base64 S m" "length token < n"
    using assms(1) by (fastforce simp: jwt_create_def jwt_sign_msg_def Let_def split: option.splits if_splits)
  show "set token \<subseteq> set (b64_alphabet @ ''.'')"
    using assms(2) unfolding t(1) sodium_alphabet_def by auto
  show "length token < n" by (rule t(2))
qed

lemma token_response:
  assumes "jwt_create S secret now u s timeout 1024 = Some token" "sodium_alphabet S"
  shows "snprintf (json_object_of [(''token'', json_quote (escaped (Some token) 2048))]) 2500 = json_object_of [(''token'', json_quote token)]"
proof -
  note t = jwt_create_shape [OF assms]
  have "escaped (Some token) 2048 = token"
    using encode_loop_plain [of token "[]" 2048] t token_char_plain by (auto simp: escaped_def json_encode_string_def)
  then show ?thesis
    using t(2) by (intro trans [OF snprintf_fits]) (simp_all add: json_object_of_def json_member_def json_quote_def)
qed

lemma uuid_no_nul: "length random = 16 \<Longrightarrow> CHR 0x00 \<notin> set (generate_uuidv4 random)"
  using uuid_no_separator [of random] by auto

lemma login_success_token:
  assumes "login_service_authenticate (ae_client E) (Some u) (Some p) 0 (th_error th) = Some (resp, 200, err)"
    "json_get_string (ae_json E) body ''username'' = Some u" "json_get_string (ae_json E) body ''password'' = Some p"
    "jwt_create (cl_sodium (ae_client E)) (ae_secret E) (ae_now E) (Some u) (Some (generate_uuidv4 (ae_random E)))
       (g_jwt_timeout_seconds (ae_cfg E)) 1024 = Some token" "sodium_alphabet (cl_sodium (ae_client E))"
  shows "\<exists>th'. login_handler E body (status, out_buf, th) = Some (HTTP_OK, out_buf @ json_object_of [(''token'', json_quote token)], th')"
  using assms(1-4) token_response [OF assms(4,5)] by (simp add: login_handler_def Let_def handle_login_success_def)

text \<open>A request that carries an accepted token gets its claims as the user and session of the request.\<close>

lemma worker_process_jwt_accepts:
  assumes "rq_header rq ''Authorization'' = Some (''Bearer '' @ token)" "auth_mode r = AUTH_JWT" "username task = []" "session_id task = []"
    "jwt_verify (wl_sodium L) (wl_json L) (wl_parse L) (wl_secret L) (wl_now L) (Some token) (Some ([], 33)) (Some ([], 37)) =
       (JWT_OK, Some (u, 33), Some (s, 37))"
  shows "worker_process_jwt L rq (Some r) task c =
    Some (True, task\<lparr>username := u, session_id := s\<rparr>, context_set (Some u) (Some s) (Some (client_ip task)) (Some (uri task)) c)"
proof -
  have "strncasecmp_eq (''Bearer '' @ token) ''Bearer '' 7" "drop 7 (''Bearer '' @ token) = token"
    by (simp_all add: strncasecmp_eq_def)
  moreover have "JWT_OK \<noteq> JWT_ERR_EXPIRED"
    by (simp add: JWT_OK_def JWT_ERR_EXPIRED_def)
  ultimately show ?thesis
    using assms by (simp add: worker_process_jwt_def Let_def)
qed


section \<open>Samples\<close>

text \<open>A request for the QR code of a user without secret, with a valid token.\<close>

lemma sample_token:
  "\<exists>token. jwt_verify ref_sodium ref_json sample_parse ''key'' 1010 (Some token) (Some ([], 33)) (Some ([], 37)) =
     (JWT_OK, Some (''ana'', 33), Some (''s1'', 37))"
  using jwt_created_verifies [OF ref_sodium_ok, of ref_json sample_parse "''ana''" "''s1''" 1000 60 512 "''key''" 1010]
    sample_parsed user_fits_short [of "''ana''"] by auto

lemma sample_no_secret:
  "\<exists>s1. get_secret (sample_odbc []) (sample_cfg\<lparr>g_uploads_dir := d\<rparr>) u 128 sample_db = ((HTTP_NOTFOUND, []), s1) \<and> live s1 \<noteq> []"
  by (simp add: get_secret_def db_query_single_row_def db_prepare_and_bind_def db_connect_def db_alloc_stmt_def DB_0_def sample_odbc_def
      sample_cfg_def sample_db_def config_get_odbc_conn_str_def initial_config_def MAX_DB_CONNECTIONS_def db_bind_param_def SQL_SUCCEEDED_def
      SQL_NULL_DATA_def c_str_def touch_def on_handle_def db_cleanup_stmt_def db_is_valid_stmt_def Let_def split_def)

lemma sample_getqr:
  assumes "th_app th = no_app" "th_error th = no_error" "tl_user (th_context th) = ''ana''"
  shows "\<exists>s1. getqr_handler sample_app_env body (st, out, th) = Some (HTTP_NOTFOUND, out, db_out s1 th) \<and> live s1 \<noteq> []"
proof -
  have d: "db_in th = sample_db"
    using assms by (simp add: db_in_def no_app_def sample_db_def)
  obtain s1 where s: "get_secret (sample_odbc []) (sample_cfg\<lparr>g_uploads_dir := ''/up''\<rparr>) ''ana'' 128 sample_db = ((HTTP_NOTFOUND, []), s1)"
      "live s1 \<noteq> []"
    using sample_no_secret by blast
  have "context_get_user (th_context th) = Some ''ana''"
    using assms(3) by (simp add: context_get_user_def or_null_def)
  then show ?thesis
    using s by (intro exI [of _ s1]) (simp add: getqr_handler_def totp_generate_svg_def d sample_app_env_def)
qed

text \<open>Such a token is accepted on every protected route without a schema.\<close>

lemma sample_admitted:
  assumes "jwt_verify ref_sodium ref_json sample_parse ''key'' 1010 (Some token) (Some ([], 33)) (Some ([], 37)) =
      (JWT_OK, Some (''ana'', 33), Some (''s1'', 37))"
    "auth_mode r = AUTH_JWT" "validation_ctx r = None" "username task = []" "session_id task = []"
  shows "worker_checks sample_libs (sample_request token EVHTTP_REQ_GET []) (Some r) task c =
    Some (True, task\<lparr>username := ''ana'', session_id := ''s1''\<rparr>,
      context_set (Some ''ana'') (Some ''s1'') (Some (client_ip task)) (Some (uri task)) c)"
proof -
  let ?rq = "sample_request token EVHTTP_REQ_GET []"
  have l: "wl_sodium sample_libs = ref_sodium" "wl_json sample_libs = ref_json" "wl_parse sample_libs = sample_parse"
      "wl_secret sample_libs = ''key''" "wl_now sample_libs = 1010"
    by (simp_all add: sample_libs_def)
  have h: "rq_header ?rq ''Authorization'' = Some (''Bearer '' @ token)" "rq_command ?rq = EVHTTP_REQ_GET"
    by (simp_all add: sample_request_def)
  show ?thesis
    using worker_process_jwt_accepts [OF h(1) assms(2,4,5), where L = sample_libs, unfolded l, OF assms(1), of c] assms(3) h(2)
    by (simp add: worker_checks_def worker_process_payload_def worker_process_validation_def)
qed

text \<open>A driver whose statements deliver two rows, with a JSON document each.\<close>

definition rows_odbc :: "(cell \<times> int) list list odbc" where
  "rows_odbc = (sample_odbc [])\<lparr>odbc_exec := (\<lambda>_ _ _. (SQL_SUCCESS, [[(Cell_int 1, 4)], [(Cell_int 2, 4)]])),
     odbc_get_data := (\<lambda>_ w. (SQL_SUCCESS, ''[1]'', Some 3, w))\<rparr>"

lemma rows_odbc_finite: "finite_results (\<lambda>_. length) 5 rows_odbc"
  by (auto simp: finite_results_def rows_odbc_def sample_odbc_def SQL_SUCCEEDED_def split: list.splits)

definition rows_env :: "(jvalue, (cell \<times> int) list list) app_env" where
  "rows_env = sample_app_env\<lparr>ae_odbc := rows_odbc, ae_sched := (alone 1000 1001)\<lparr>sc_turns := [(1000, \<lambda>j. j\<lparr>jwt_is_refreshing := False\<rparr>)]\<rparr>\<rparr>"

lemma rows_env_ok: "env_ok rows_env"
proof -
  have "ae_odbc rows_env = rows_odbc" "ae_fuel rows_env = 5"
    by (simp_all add: rows_env_def sample_app_env_def)
  then have "\<exists>rest. finite_results rest (ae_fuel rows_env) (ae_odbc rows_env)"
    using rows_odbc_finite by metis
  then show ?thesis
    by (simp add: env_ok_def) (simp add: rows_env_def sample_app_env_def sample_client_def sample_env_def Customer.answer_def sample_totp_ok)
qed

text \<open>A login at time 1000 with the default timeout of an hour, and a worker that reads the token's payload.\<close>

definition sample_uuid :: string where
  "sample_uuid = generate_uuidv4 (replicate 16 255)"

definition session_parse :: "cstring \<Rightarrow> jvalue option" where
  "session_parse text =
     (if text = payload_text ''ana'' sample_uuid 1000 4600
      then Some (JObject [(''username'', Some (JString ''ana'')), (''sessionId'', Some (JString sample_uuid)),
        (''iat'', Some (JInt 1000)), (''exp'', Some (JInt 4600))])
      else None)"

lemma session_parsed: "payload_parsed ref_json session_parse ''ana'' sample_uuid 1000 4600"
proof -
  have e: "concat (map encode_char ''ana'') = ''ana''"
    by code_simp
  have i: "ref_int 64 (Some (JInt 4600)) = 4600"
    by (simp add: ref_int_def)
  have s: "c_str (take (2 ^ 31 - 1) sample_uuid) = sample_uuid"
    using uuid_length [of "replicate 16 255"] uuid_no_nul [of "replicate 16 255"] by (simp add: sample_uuid_def c_str_id)
  show ?thesis
    unfolding payload_parsed_def e session_parse_def ref_json_def using i s
    by (simp add: c_str_def)
qed

definition credentials :: jvalue where
  "credentials = JObject [(''username'', Some (JString ''ana'')), (''password'', Some (JString ''pw''))]"

lemma sample_credentials:
  "json_get_string (ae_json sample_app_env) (Some credentials) ''username'' = Some ''ana''"
  "json_get_string (ae_json sample_app_env) (Some credentials) ''password'' = Some ''pw''"
  by (simp_all add: sample_app_env_def sample_client_def json_get_string_def credentials_def ref_json_def c_str_def)

lemma sample_authenticate:
  "login_service_authenticate (ae_client sample_app_env) (Some u) (Some p) 0 err = Some (Some (JObject []), 200, err)"
proof -
  let ?L = "ae_client sample_app_env"
  have url: "build_request_url (Some []) (Some []) 1024 = Some []"
    by (simp add: build_request_url_def)
  have c: "g_login_provider (cl_cfg ?L) = []" "g_login_uri (cl_cfg ?L) = []"
    by (simp_all add: sample_app_env_def sample_cfg_def initial_config_def)
  have l: "cl_env ?L = sample_env" "cl_curl ?L = (\<lambda>_. Customer.answer)" "cl_parse ?L = (\<lambda>_. Some (JObject []))"
    by (simp_all add: sample_app_env_def sample_client_def)
  have "do_http_request (\<lambda>_. Some (JObject [])) (\<lambda>_. Customer.answer) sample_env (Some []) (Some []) body headers 0 err =
      Some (Some (JObject []), tr_http_code Customer.answer, err)" for body headers
    by (rule do_http_request_ok [OF _ _ _ _ _ url refl, where bytes = "''{...}''"]) (simp_all add: sample_env_def Customer.answer_def)
  then show ?thesis
    by (simp add: login_service_authenticate_eq http_client_post_json_def c l Customer.answer_def)
qed

lemma ref_sodium_alphabet: "sodium_alphabet ref_sodium"
  using ref_b64_chars by (auto simp: sodium_alphabet_def ref_sodium_def)

lemma length_g_routes: "length (g_routes E) = 29"
  by (simp add: g_routes_def Let_def)

lemma shippers_route: "g_routes E ! 7 = route ''/shippers'' EVHTTP_REQ_GET None (shippers_handler E) True AUTH_JWT"
  by (simp add: g_routes_def Let_def)

lemma getqr_route: "g_routes E ! 12 = route ''/getqr'' EVHTTP_REQ_GET None (getqr_handler E) True AUTH_JWT"
  by (simp add: g_routes_def Let_def)

end
