(* ===== verification/Spec2Isabelle.thy ===== *)
theory Spec2Isabelle
  imports JsonUtil Schemas TaskPool WorkerPool Context Logger Reactor Config Jwt Pipeline Server HttpClient DbApi DbErrors System
begin

text \<open>
  Verification of the evhttp API server: an HTTP server on libevent that authenticates requests, validates JSON payloads
  against schemas, runs handlers on worker threads against ODBC databases and remote services, and answers.

  \<^bold>\<open>How the program works.\<close>
  Reactor threads receive requests. For each one the middleware (\<open>lib/server.c\<close>, \<open>api_middleware_wrapper\<close>) finds the client
  address, checks origin, method and API key, leases a task from a fixed pool (\<open>lib/task_pool.c\<close>) and queues it for one of
  two pools of workers (\<open>lib/worker_pool.c\<close>). A worker checks the token (\<open>lib/jwt.c\<close>), parses and validates the payload
  (\<open>lib/validation.c\<close>) and calls the handler of the route (\<open>src/main.c\<close>, \<open>src/handlers.c\<close>), which queries databases
  (\<open>lib/dbapi.c\<close>) or remote services (\<open>lib/http_client.c\<close>, \<open>src/customer.c\<close>, \<open>src/login.c\<close>). The task then goes through the
  completion queue of its reactor, which sends the reply and gives the task back. Settings come from the environment and
  a file (\<open>lib/config.c\<close>); every part logs through one logger thread (\<open>lib/logger.c\<close>).

  \<^bold>\<open>How it is modelled.\<close>
  Structures are records, pointers to strings are \<open>string option\<close>, machine integers are words. An operation takes the state it
  changes and returns it. A store or read outside a buffer, a null dereference, \<open>abort\<close> and \<open>LOG_FATAL\<close> (which ends the process)
  are \<open>None\<close> or \<open>Fault\<close>, so that a theorem that states a result also states their absence. Libraries that are not in the
  repository are records of functions given as arguments: json-c (\<open>json_c\<close>), libsodium (\<open>sodium\<close>), the ODBC driver with a state
  of any type (\<open>odbc\<close>), libcurl (a function from the options of a request to a transfer), libqrencode and liboath
  (\<open>totp_libs\<close>). What is assumed of them are named predicates such as \<open>json_strings_ok\<close>, \<open>sodium_ok\<close>, \<open>odbc_fresh\<close>,
  \<open>finite_results\<close>, and concrete instances satisfy them in the witnesses. Success of allocations, the clock, random bytes, file
  contents and the results of system calls are arguments. Threads are transition systems whose steps are the critical sections of
  the code; \<open>reach\<close> is reachability, and invariants are proved through the locale \<open>invariant_system\<close>.

  \<^bold>\<open>Shared theories.\<close>
  \<^item> \<open>Prelude\<close>: lemma collections, bounded buffers, decimal text, \<open>reach\<close>, the interfaces \<open>invariant_system\<close> and \<open>fifo\<close>.
  \<^item> \<open>CLib\<close>: the functions of the C library the sources call. \<open>Doubles\<close>: IEEE doubles. \<open>JsonApi\<close>: the interface of json-c with a
    reference instance.
  \<^item> \<open>HttpTask\<close>, \<open>TaskQueue\<close>: the task record (\<open>include/apiserver/worker_pool.h\<close>) and the intrusive lists of tasks.

  \<^bold>\<open>Components.\<close>
  \<^item> \<open>JsonUtil\<close>, \<open>Dtoa\<close> (\<open>lib/json_util.c\<close>): escaping round trip, exact integer printing in any buffer, accuracy of the printer for
    doubles and its lost carry. The integer printers share the locale \<open>decimal_printer\<close>.
  \<^item> \<open>Validation\<close>, \<open>Schemas\<close> (\<open>lib/validation.c\<close> and the schemas of \<open>src/handlers.c\<close>): the date validator accepts exactly the
    existing days; an accepted payload meets every constraint; each schema interprets the locale \<open>schema_contract\<close>.
  \<^item> \<open>Context\<close> (\<open>lib/context.c\<close>, \<open>lib/thread_error.c\<close>), \<open>Config\<close> (\<open>lib/config.c\<close>): ranges of all settings over startup and
    reloads, exact matching of origins.
  \<^item> \<open>Logger\<close> (\<open>lib/logger.c\<close>): the ring, the record pool and the logger thread; lines are written once and in order; short writes
    are resumed; a line accepted after the end of the thread is lost.
  \<^item> \<open>TaskPool\<close>, \<open>WorkerPool\<close>, \<open>Reactor\<close> (\<open>lib/task_pool.c\<close>, \<open>lib/worker_pool.c\<close>, the completion queue of \<open>lib/server.c\<close>): safety of
    the pool in every interleaving, first-in first-out delivery exactly once, no lost wake-up, graceful stop.
  \<^item> \<open>Jwt\<close> (\<open>lib/jwt.c\<close>): soundness of the verification and the round trip of tokens.
  \<^item> \<open>Middleware\<close>, \<open>Server\<close>, \<open>Pipeline\<close> (\<open>lib/server.c\<close>, \<open>lib/worker_pool.c\<close>): one answer per request, the guards before a handler,
    the reply of a finished task, addresses, keys and statistics.
  \<^item> \<open>JsonBuffer\<close>, \<open>DbConn\<close>, \<open>DbApi\<close>, \<open>DbErrors\<close>, \<open>DbTotal\<close> (\<open>lib/dbapi.c\<close>): the buffered writer refines plain appending (locale
    \<open>json_writer\<close>); handles are never used after they are freed (locale \<open>result_fetcher\<close>); result sets are written complete;
    which diagnostics become the answer (locale \<open>reporting_fetcher\<close>); the loops over results end.
  \<^item> \<open>HttpClient\<close>, \<open>Customer\<close>, \<open>Login\<close>, \<open>Totp\<close>: responses collected within bounds, the token cache shared by the workers, QR codes.
  \<^item> \<open>Handlers\<close>, \<open>HandlerProps\<close>, \<open>FixedSql\<close>, \<open>System\<close> (\<open>src/handlers.c\<close>, \<open>src/main.c\<close>): all handlers and the route table, uploads,
    metrics and identifiers, the constancy of the SQL texts, and the lemmas for the properties below, which span the program.

  \<^bold>\<open>Bounds and fuel.\<close>
  Loops over data are structural recursions. Three loops of \<open>lib/dbapi.c\<close> run as long as the driver delivers something; they take fuel,
  and without it they are \<open>None\<close>. \<open>DbTotal\<close> shows that fuel above the number of rows, chunks and result sets to come is enough, and
  \<open>rs2json_correct\<close> that fuel above the number of rows gives the complete array. A thread that waits for a token goes through a schedule
  of turns; it gets out at the first turn without a login request in progress. All other operations are total.

  \<^bold>\<open>What is not modelled.\<close>
  The start and stop of the process (\<open>lib/server.c\<close>: initialisation of libraries, sockets, signals, reactor threads), which only calls
  libraries and the kernel; the per-thread cache of curl handles; the freeing of memory by scope guards other than the one that
  closes an uploaded file; memory orderings weaker than sequential consistency. Tests, build and deployment files are not part of
  the program.
\<close>


section \<open>Properties of the whole program\<close>

text \<open>C1: Without a valid token nothing behind the server can be reached: if processing a request on any route of the program changes the
  database session, the token cache or the uploaded files, the route is one that requires a token, and the request
  carried a bearer token that verifies under the server's secret.\<close>

theorem data_needs_token:
  assumes "json_strings_ok (wl_json L)" "sodium_ok (wl_sodium L)" "worker_buf task \<noteq> None"
    "middleware_ctx task = Some i" "i < length (g_routes E)" "worker_process_task L (g_routes E) rq task th = Some (task', th', logs)"
    "app_data (th_app th') \<noteq> app_data (th_app th)"
  shows "auth_mode (g_routes E ! i) = AUTH_JWT \<and>
    (\<exists>hdr u s. rq_header rq ''Authorization'' = Some hdr \<and> strncasecmp_eq hdr ''Bearer '' 7 \<and>
       jwt_verify (wl_sodium L) (wl_json L) (wl_parse L) (wl_secret L) (wl_now L) (Some (drop 7 hdr))
         (Some (username task, 33)) (Some (session_id task, 37)) = (JWT_OK, Some (u, 33), Some (s, 37)))"
proof -
  obtain h t1 c1 b st out th2 where h: "worker_checks L rq (Some (g_routes E ! i)) task (th_context th) = Some (True, t1, c1)"
      "handler (g_routes E ! i) = Some h" "th_app th' = th_app th2"
      "h (parsed_body t1) (status_code t1, b, th\<lparr>th_request_id := logger_set_request_id (Some (request_id task)), th_context := c1\<rparr>) =
         Some (st, out, th2)"
    using worker_process_task_app [OF assms(4-6)] assms(7) by metis
  have "g_routes E ! i \<in> set (g_routes E)"
    using assms(5) by (rule nth_mem)
  then have "auth_mode (g_routes E ! i) = AUTH_JWT"
    using open_handlers_data [OF _ _ h(2,4)] h(3) assms(7) by fastforce
  moreover have "admitted L rq (g_routes E ! i) task (parsed_body t1) c1"
    using worker_checks_cases [OF assms(1,3) h(1) assms(2)] by simp
  ultimately show ?thesis
    unfolding admitted_def by blast
qed

theorem data_needs_token_witness:
  "\<exists>token task' th' logs. worker_process_task sample_libs (g_routes sample_app_env) (sample_request token EVHTTP_REQ_GET [])
      (sample_task\<lparr>middleware_ctx := Some 12\<rparr>) (clean_thread no_app) = Some (task', th', logs) \<and>
    app_data (th_app th') \<noteq> app_data no_app \<and> auth_mode (g_routes sample_app_env ! 12) = AUTH_JWT \<and>
    (\<exists>u s. jwt_verify ref_sodium ref_json sample_parse ''key'' 1010 (Some token) (Some ([], 33)) (Some ([], 37)) = (JWT_OK, Some (u, 33), Some (s, 37)))"
proof -
  let ?task = "sample_task\<lparr>middleware_ctx := Some 12\<rparr>" and ?r = "g_routes sample_app_env ! 12" and ?th = "clean_thread no_app"
  obtain token where t: "jwt_verify ref_sodium ref_json sample_parse ''key'' 1010 (Some token) (Some ([], 33)) (Some ([], 37)) =
      (JWT_OK, Some (''ana'', 33), Some (''s1'', 37))"
    using sample_token by blast
  let ?rq = "sample_request token EVHTTP_REQ_GET []"
  have r: "auth_mode ?r = AUTH_JWT" "validation_ctx ?r = None" "handler ?r = Some (getqr_handler sample_app_env)" "12 < length (g_routes sample_app_env)"
    by (simp_all add: getqr_route route_def length_g_routes)
  have l: "wl_sodium sample_libs = ref_sodium" "wl_json sample_libs = ref_json" "wl_parse sample_libs = sample_parse"
      "wl_secret sample_libs = ''key''" "wl_now sample_libs = 1010"
    by (simp_all add: sample_libs_def)
  have h: "rq_header ?rq ''Authorization'' = Some (''Bearer '' @ token)" "username ?task = []" "session_id ?task = []" "worker_buf ?task = Some []"
    by (simp_all add: sample_request_def sample_task_def zero_task_def)
  define c where "c = context_set (Some ''ana'') (Some ''s1'') (Some (client_ip ?task)) (Some (uri ?task)) (th_context ?th)"
  have chk: "worker_checks sample_libs ?rq (Some ?r) ?task (th_context ?th) = Some (True, ?task\<lparr>username := ''ana'', session_id := ''s1''\<rparr>, c)"
    unfolding c_def by (rule sample_admitted [OF t r(1,2) h(2,3)])
  let ?th1 = "?th\<lparr>th_request_id := logger_set_request_id (Some (request_id ?task)), th_context := c\<rparr>"
  obtain s1 where s: "getqr_handler sample_app_env (parsed_body ?task) (status_code ?task, [], ?th1) = Some (404, [], db_out s1 ?th1)" "live s1 \<noteq> []"
    using sample_getqr [of ?th1 "parsed_body ?task" "status_code ?task" "[]"]
    by (auto simp: clean_thread_def c_def context_set_def copy_or_empty_def strlcpy_def)
  then obtain task' th' logs where w: "worker_process_task sample_libs (g_routes sample_app_env) ?rq ?task ?th = Some (task', th', logs)"
      "th_app th' = th_app (db_out s1 ?th1)"
    using chk r(3) h(4) by (auto simp: worker_process_task_def call_handler_def Let_def)
  have d: "app_data (th_app th') \<noteq> app_data (th_app ?th)"
    using s(2) w(2) by (auto simp: app_data_def db_out_def clean_thread_def no_app_def sample_db_def)
  have "json_strings_ok (wl_json sample_libs)" "sodium_ok (wl_sodium sample_libs)"
    by (simp_all add: l ref_json_strings ref_sodium_ok)
  from data_needs_token [OF this _ _ r(4) w(1) d]
  have "auth_mode ?r = AUTH_JWT \<and> (\<exists>u s. jwt_verify ref_sodium ref_json sample_parse ''key'' 1010 (Some token) (Some ([], 33)) (Some ([], 37)) =
      (JWT_OK, Some (u, 33), Some (s, 37)))"
    using h by (auto simp: l)
  moreover have "app_data (th_app th') \<noteq> app_data no_app"
    using d by (simp add: clean_thread_def)
  ultimately show ?thesis
    using w(1) by blast
qed

text \<open>C2: Every request the middleware hands over on any route is finished, whatever it contains: its checks, its schema and its handler
  return, every loop over the rows, chunks and result sets of the database ends, no handler of the program dereferences a
  null string, the task gets a status text and keeps its buffer for the reply, and the thread is left clean for the next
  request. What is assumed is that each row, chunk and result set the driver delivers leaves fewer to deliver, that a
  thread waiting for a token gets the mutex at some time when no login request is in progress, and that the libraries work
  as documented.\<close>

theorem every_request_finishes:
  assumes "env_ok E" "json_strings_ok (wl_json L)" "sodium_ok (wl_sodium L)" "wl_json L = ae_json E" "worker_buf task \<noteq> None"
    "middleware_ctx task = Some i" "i < length (g_routes E)" "rq_command rq = allowed_method (g_routes E ! i)"
  shows "\<exists>task' app logs. worker_process_task L (g_routes E) rq task th = Some (task', clean_thread app, logs) \<and>
    status_txt task' \<noteq> None \<and> worker_buf task' \<noteq> None"
proof (rule worker_process_task_total [OF assms(5-7)])
  let ?r = "g_routes E ! i"
  have r: "?r \<in> set (g_routes E)"
    using assms(7) by (rule nth_mem)
  show "\<forall>v b. validation_ctx ?r = Some v \<longrightarrow> validate_json (wl_json L) (Some v) (Some b) (Some []) MAX_ERR_MSG_LEN \<noteq> None"
    using routes_validate [OF r] assms(2,4) by metis
  fix h t c b
  assume h: "handler ?r = Some h" and chk: "worker_checks L rq (Some ?r) task (th_context th) = Some (True, t, c)"
  have "admitted L rq ?r task (parsed_body t) c"
    using worker_checks_cases [OF assms(2,5) chk assms(3)] by simp
  then show "h (parsed_body t) (status_code t, b, th\<lparr>th_request_id := logger_set_request_id (Some (request_id task)), th_context := c\<rparr>) \<noteq> None"
    using handlers_return [OF assms(1) r h] admitted_login [OF assms(2)] assms(4,8) by metis
qed

theorem every_request_finishes_witness:
  "\<exists>token t c task' app logs. worker_checks sample_libs (sample_request token EVHTTP_REQ_GET []) (Some (g_routes rows_env ! 7))
      (sample_task\<lparr>middleware_ctx := Some 7\<rparr>) (th_context (clean_thread no_app)) = Some (True, t, c) \<and>
    worker_process_task sample_libs (g_routes rows_env) (sample_request token EVHTTP_REQ_GET []) (sample_task\<lparr>middleware_ctx := Some 7\<rparr>)
      (clean_thread no_app) = Some (task', clean_thread app, logs) \<and> status_txt task' \<noteq> None \<and> worker_buf task' \<noteq> None"
proof -
  obtain token where t: "jwt_verify ref_sodium ref_json sample_parse ''key'' 1010 (Some token) (Some ([], 33)) (Some ([], 37)) =
      (JWT_OK, Some (''ana'', 33), Some (''s1'', 37))"
    using sample_token by blast
  have r: "auth_mode (g_routes rows_env ! 7) = AUTH_JWT" "validation_ctx (g_routes rows_env ! 7) = None"
    by (simp_all add: shippers_route route_def)
  have "username (sample_task\<lparr>middleware_ctx := Some 7\<rparr>) = []" "session_id (sample_task\<lparr>middleware_ctx := Some 7\<rparr>) = []"
    by (simp_all add: sample_task_def zero_task_def)
  note chk = sample_admitted [OF t r this]
  have "\<exists>task' app logs. worker_process_task sample_libs (g_routes rows_env) (sample_request token EVHTTP_REQ_GET [])
      (sample_task\<lparr>middleware_ctx := Some 7\<rparr>) (clean_thread no_app) = Some (task', clean_thread app, logs) \<and>
      status_txt task' \<noteq> None \<and> worker_buf task' \<noteq> None"
    by (rule every_request_finishes [OF rows_env_ok, of _ _ 7])
      (simp_all add: sample_libs_def ref_json_strings ref_sodium_ok rows_env_def sample_app_env_def sample_client_def sample_task_def
        shippers_route route_def length_g_routes sample_request_def)
  then show ?thesis
    using chk by blast
qed

text \<open>C3: A token issued by the login route opens the other routes: when the provider accepts the credentials of a user name of 1 to 32 bytes
  whose escaped form fits the buffer for it, the answer is one JSON object with a
  token, complete and unescaped, and every request that carries this token until the timeout passes authentication on
  every protected route as exactly the user who logged in, in the session of the login.\<close>

theorem login_opens_routes:
  assumes "sodium_ok (wl_sodium L)" "sodium_alphabet (wl_sodium L)" "cl_sodium (ae_client E) = wl_sodium L" "ae_secret E = wl_secret L"
    "payload_parsed (wl_json L) (wl_parse L) u (generate_uuidv4 (ae_random E)) (ae_now E) (ae_now E + g_jwt_timeout_seconds (ae_cfg E))"
    "user_fits u" "length u \<le> 32" "u \<noteq> []" "length (ae_random E) = 16" "\<bar>ae_now E\<bar> < 2 ^ 63" "\<bar>ae_now E + g_jwt_timeout_seconds (ae_cfg E)\<bar> < 2 ^ 63"
    "wl_now L \<le> ae_now E + g_jwt_timeout_seconds (ae_cfg E)"
    "json_get_string (ae_json E) body ''username'' = Some u" "json_get_string (ae_json E) body ''password'' = Some p"
    "login_service_authenticate (ae_client E) (Some u) (Some p) 0 (th_error th) = Some (resp, 200, err)"
  shows "\<exists>token th'. login_handler E body (status, out_buf, th) = Some (HTTP_OK, out_buf @ json_object_of [(''token'', json_quote token)], th') \<and>
    (\<forall>rq task c. \<forall>r \<in> set (g_routes E). rq_header rq ''Authorization'' = Some (''Bearer '' @ token) \<and> auth_mode r = AUTH_JWT \<and>
       username task = [] \<and> session_id task = [] \<longrightarrow>
       (\<exists>c1. worker_process_jwt L rq (Some r) task c = Some (True, task\<lparr>username := u, session_id := generate_uuidv4 (ae_random E)\<rparr>, c1) \<and>
          context_get_user c1 = Some u))"
proof -
  let ?s = "generate_uuidv4 (ae_random E)"
  have len: "length ?s \<le> 36" "(512 :: nat) \<le> 1024"
    using uuid_length [OF assms(9)] by simp_all
  obtain token where t: "jwt_create (wl_sodium L) (wl_secret L) (ae_now E) (Some u) (Some ?s) (g_jwt_timeout_seconds (ae_cfg E)) 1024 = Some token"
      "jwt_verify (wl_sodium L) (wl_json L) (wl_parse L) (wl_secret L) (wl_now L) (Some token) (Some ([], 33)) (Some ([], 37)) =
        (JWT_OK, Some (u, 33), Some (?s, 37))"
    using jwt_created_verifies [OF assms(1,5,6) len(1) uuid_no_nul [OF assms(9)] len(2) assms(10,11), of "wl_secret L" "wl_now L"] assms(7,12)
    by auto
  obtain th' where l: "login_handler E body (status, out_buf, th) = Some (HTTP_OK, out_buf @ json_object_of [(''token'', json_quote token)], th')"
    using login_success_token [OF assms(15,13,14), unfolded assms(3,4), OF t(1) assms(2)] by blast
  have "\<exists>c1. worker_process_jwt L rq (Some r) task c = Some (True, task\<lparr>username := u, session_id := ?s\<rparr>, c1) \<and> context_get_user c1 = Some u"
    if "rq_header rq ''Authorization'' = Some (''Bearer '' @ token) \<and> auth_mode r = AUTH_JWT \<and> username task = [] \<and> session_id task = []"
    for rq task c and r :: "('a, 'c app) middleware_ctx_t"
    using worker_process_jwt_accepts [of rq token r task L u ?s c] that t(2) assms(7,8) by (simp add: context_set_user)
  with l show ?thesis by blast
qed

definition session_libs :: "(jvalue, string) worker_libs" where
  "session_libs = sample_libs\<lparr>wl_parse := session_parse\<rparr>"

theorem login_opens_routes_witness:
  "\<exists>token th'. login_handler sample_app_env (Some credentials) (0, [], clean_thread no_app) =
      Some (HTTP_OK, json_object_of [(''token'', json_quote token)], th') \<and>
    (\<exists>c1. worker_process_jwt session_libs (sample_request token EVHTTP_REQ_GET []) (Some (g_routes sample_app_env ! 12)) sample_task no_context =
       Some (True, sample_task\<lparr>username := ''ana'', session_id := sample_uuid\<rparr>, c1) \<and> context_get_user c1 = Some ''ana'')"
proof -
  have e: "cl_sodium (ae_client sample_app_env) = wl_sodium session_libs" "ae_secret sample_app_env = wl_secret session_libs"
      "wl_now session_libs \<le> ae_now sample_app_env + g_jwt_timeout_seconds (ae_cfg sample_app_env)"
      "length (ae_random sample_app_env) = 16" "\<bar>ae_now sample_app_env\<bar> < 2 ^ 63"
      "\<bar>ae_now sample_app_env + g_jwt_timeout_seconds (ae_cfg sample_app_env)\<bar> < 2 ^ 63"
    by (simp_all add: sample_app_env_def sample_client_def session_libs_def sample_libs_def sample_cfg_def initial_config_def)
  have S: "sodium_ok (wl_sodium session_libs)" "sodium_alphabet (wl_sodium session_libs)"
    by (simp_all add: session_libs_def sample_libs_def ref_sodium_ok ref_sodium_alphabet)
  have p: "payload_parsed (wl_json session_libs) (wl_parse session_libs) ''ana'' (generate_uuidv4 (ae_random sample_app_env)) (ae_now sample_app_env)
      (ae_now sample_app_env + g_jwt_timeout_seconds (ae_cfg sample_app_env))"
    using session_parsed
    by (simp add: sample_app_env_def session_libs_def sample_libs_def sample_cfg_def initial_config_def sample_uuid_def [symmetric])
  have u: "generate_uuidv4 (ae_random sample_app_env) = sample_uuid"
    by (simp add: sample_app_env_def sample_uuid_def)
  have r: "g_routes sample_app_env ! 12 \<in> set (g_routes sample_app_env)" "auth_mode (g_routes sample_app_env ! 12) = AUTH_JWT"
    by (rule nth_mem) (simp_all add: getqr_route route_def length_g_routes)
  have h: "rq_header (sample_request token EVHTTP_REQ_GET []) ''Authorization'' = Some (''Bearer '' @ token)" "username sample_task = []"
      "session_id sample_task = []" for token
    by (simp_all add: sample_request_def sample_task_def zero_task_def)
  show ?thesis
    using login_opens_routes [OF S e(1,2) p user_fits_short _ _ e(4-6,3) sample_credentials sample_authenticate, of 0 "[]" "clean_thread no_app"] r h
    unfolding u by fastforce
qed

end
